(* ===== verification/Budget.thy ===== *)
theory Budget
  imports Prelude
begin

text \<open>
  The two budgets of \<open>budget.rs\<close>. \<open>budget\<close> is the Search budget: a fixed number of
  provider calls and a deadline, owned by the search orchestrator. \<open>deep_budget\<close> is the
  Deep budget: fetches, bytes, redirects, browser calls, crawled URLs, subqueries and cost.
  Every \<open>&mut self\<close> method returns the new budget beside its result; a refused reservation
  leaves the budget as it was. The locale \<open>token_pool\<close> is what a client of a counting budget
  relies on, and its two interpretations discharge it for the provider and browser counters.
\<close>

section \<open>Data\<close>

datatype BudgetExhaustionCause =
    ProviderLimit | TimeExhausted | DeadlineNear | FetchLimit | ByteLimit
  | RedirectLimit | BrowserLimit | CrawlLimit | CostLimit | SubqueryLimit

record deep_budget_snapshot =
  remaining_fetches :: u32
  remaining_bytes :: u64
  remaining_redirects :: u32
  remaining_browser_calls :: u32
  remaining_crawl_urls :: u32
  remaining_subqueries :: u32
  remaining_cost :: u64
  deadline_ms :: u64

record deep_budget =
  db_snapshot :: deep_budget_snapshot
  max_fetches :: u32
  max_browser_calls :: u32
  max_crawl_urls :: u32

record budget =
  max_provider_calls :: u32
  remaining_provider_calls :: u32
  budget_deadline_ms :: u64

record budget_snapshot =
  snap_max_provider_calls :: u32
  snap_remaining_provider_calls :: u32
  snap_deadline_ms :: u64

section \<open>Operations of the Deep budget\<close>

definition deep_budget_new :: "u32 \<Rightarrow> u64 \<Rightarrow> u32 \<Rightarrow> u32 \<Rightarrow> u32 \<Rightarrow> u64 \<Rightarrow> deep_budget" where
  "deep_budget_new fetches bytes redirects browser_calls crawl_urls deadline =
     \<lparr>db_snapshot = \<lparr>remaining_fetches = fetches, remaining_bytes = bytes,
        remaining_redirects = redirects, remaining_browser_calls = browser_calls,
        remaining_crawl_urls = crawl_urls, remaining_subqueries = 0, remaining_cost = 0,
        deadline_ms = deadline\<rparr>,
      max_fetches = fetches, max_browser_calls = browser_calls, max_crawl_urls = crawl_urls\<rparr>"

definition with_gap_limits :: "deep_budget \<Rightarrow> u32 \<Rightarrow> u64 \<Rightarrow> deep_budget" where
  "with_gap_limits b max_subqueries max_cost =
     b\<lparr>db_snapshot := (db_snapshot b)
         \<lparr>remaining_subqueries := min max_subqueries 2, remaining_cost := max_cost\<rparr>\<rparr>"

definition reserve_fetch :: "deep_budget \<Rightarrow> (BudgetExhaustionCause + u64) \<times> deep_budget" where
  "reserve_fetch b =
     (let s = db_snapshot b in
      if remaining_fetches s = 0 then (Err FetchLimit, b)
      else if remaining_crawl_urls s = 0 then (Err CrawlLimit, b)
      else if remaining_bytes s = 0 then (Err ByteLimit, b)
      else (Ok (remaining_bytes s),
            b\<lparr>db_snapshot := s\<lparr>remaining_fetches := remaining_fetches s - 1,
                               remaining_crawl_urls := remaining_crawl_urls s - 1\<rparr>\<rparr>))"

definition consume_fetch ::
    "deep_budget \<Rightarrow> u64 \<Rightarrow> u32 \<Rightarrow> (BudgetExhaustionCause + unit) \<times> deep_budget" where
  "consume_fetch b bytes redirects =
     (let s = db_snapshot b in
      if remaining_bytes s < bytes then (Err ByteLimit, b)
      else if remaining_redirects s < redirects then (Err RedirectLimit, b)
      else (Ok (),
            b\<lparr>db_snapshot := s\<lparr>remaining_bytes := remaining_bytes s - bytes,
                               remaining_redirects := remaining_redirects s - redirects\<rparr>\<rparr>))"

definition reserve_browser :: "deep_budget \<Rightarrow> (BudgetExhaustionCause + unit) \<times> deep_budget" where
  "reserve_browser b =
     (let s = db_snapshot b in
      if remaining_browser_calls s = 0 then (Err BrowserLimit, b)
      else (Ok (), b\<lparr>db_snapshot := s\<lparr>remaining_browser_calls := remaining_browser_calls s - 1\<rparr>\<rparr>))"

definition release_fetch :: "deep_budget \<Rightarrow> deep_budget" where
  "release_fetch b =
     (let s = db_snapshot b in
      b\<lparr>db_snapshot := s
          \<lparr>remaining_fetches := min (saturating_add (remaining_fetches s) 1) (max_fetches b),
           remaining_crawl_urls := min (saturating_add (remaining_crawl_urls s) 1) (max_crawl_urls b)\<rparr>\<rparr>)"

definition release_browser :: "deep_budget \<Rightarrow> deep_budget" where
  "release_browser b =
     (let s = db_snapshot b in
      b\<lparr>db_snapshot := s
          \<lparr>remaining_browser_calls :=
             min (saturating_add (remaining_browser_calls s) 1) (max_browser_calls b)\<rparr>\<rparr>)"

definition reserve_subquery ::
    "deep_budget \<Rightarrow> u64 \<Rightarrow> (BudgetExhaustionCause + unit) \<times> deep_budget" where
  "reserve_subquery b estimated_cost =
     (let s = db_snapshot b in
      if remaining_subqueries s = 0 then (Err SubqueryLimit, b)
      else if remaining_cost s < estimated_cost then (Err CostLimit, b)
      else (Ok (), b\<lparr>db_snapshot := s\<lparr>remaining_subqueries := remaining_subqueries s - 1,
                                       remaining_cost := remaining_cost s - estimated_cost\<rparr>\<rparr>))"

section \<open>Operations of the Search budget\<close>

definition budget_new :: "u32 \<Rightarrow> u64 \<Rightarrow> budget" where
  "budget_new calls deadline =
     \<lparr>max_provider_calls = calls, remaining_provider_calls = calls, budget_deadline_ms = deadline\<rparr>"

definition reserve_provider :: "budget \<Rightarrow> (BudgetExhaustionCause + unit) \<times> budget" where
  "reserve_provider b =
     (if remaining_provider_calls b = 0 then (Err ProviderLimit, b)
      else (Ok (), b\<lparr>remaining_provider_calls := remaining_provider_calls b - 1\<rparr>))"

definition snapshot :: "budget \<Rightarrow> budget_snapshot" where
  "snapshot b = \<lparr>snap_max_provider_calls = max_provider_calls b,
     snap_remaining_provider_calls = remaining_provider_calls b,
     snap_deadline_ms = budget_deadline_ms b\<rparr>"

lemmas deep_budget_ops = deep_budget_new_def with_gap_limits_def reserve_fetch_def consume_fetch_def
  reserve_browser_def release_fetch_def release_browser_def reserve_subquery_def

section \<open>The counting interface\<close>

text \<open>
  A token pool hands out one unit per successful \<open>reserve\<close> and refuses, unchanged, once
  nothing is left. \<open>reserve_times n\<close> is a client that asks \<open>n\<close> times and goes on after
  a refusal, as \<open>build_search_plan\<close> does.
\<close>

fun reserve_times :: "('s \<Rightarrow> ('e + 'r) \<times> 's) \<Rightarrow> nat \<Rightarrow> 's \<Rightarrow> nat \<times> 's" where
  "reserve_times reserve 0 s = (0, s)"
| "reserve_times reserve (Suc n) s =
     (case reserve s of (r, s') \<Rightarrow>
        (case reserve_times reserve n s' of (k, s'') \<Rightarrow> (if is_ok r then Suc k else k, s'')))"

locale token_pool =
  fixes reserve :: "'s \<Rightarrow> ('e + 'r) \<times> 's"
    and remaining :: "'s \<Rightarrow> nat"
  assumes reserve_available:
      "0 < remaining s \<Longrightarrow> \<exists>x s'. reserve s = (Ok x, s') \<and> Suc (remaining s') = remaining s"
    and reserve_exhausted: "remaining s = 0 \<Longrightarrow> \<exists>e. reserve s = (Err e, s)"
begin

lemma reserve_ok_iff: "is_ok (fst (reserve s)) \<longleftrightarrow> 0 < remaining s"
  using reserve_available [of s] reserve_exhausted [of s] by (cases "remaining s = 0") auto

lemma reserve_times_spec:
  "fst (reserve_times reserve n s) = min n (remaining s)
   \<and> remaining (snd (reserve_times reserve n s)) = remaining s - min n (remaining s)"
proof (induction n arbitrary: s)
  case 0
  then show ?case by simp
next
  case (Suc n)
  show ?case
  proof (cases "remaining s = 0")
    case True
    with reserve_exhausted [of s] Suc.IH [of s] show ?thesis
      by (auto split: prod.splits)
  next
    case False
    then obtain x s' where "reserve s = (Ok x, s')" "Suc (remaining s') = remaining s"
      using reserve_available [of s] by auto
    with Suc.IH [of s'] show ?thesis
      by (auto split: prod.splits)
  qed
qed

lemma never_more_than_remaining: "fst (reserve_times reserve n s) \<le> remaining s"
  using reserve_times_spec [of n s] by simp

end

interpretation provider_pool: token_pool reserve_provider "\<lambda>b. unat (remaining_provider_calls b)"
proof
  fix s :: budget
  assume "0 < unat (remaining_provider_calls s)"
  then show "\<exists>x s'. reserve_provider s = (Ok x, s')
      \<and> Suc (unat (remaining_provider_calls s')) = unat (remaining_provider_calls s)"
    by (auto simp: reserve_provider_def rust_int)
next
  fix s :: budget
  assume "unat (remaining_provider_calls s) = 0"
  then show "\<exists>e. reserve_provider s = (Err e, s)"
    by (auto simp: reserve_provider_def rust_int)
qed

interpretation browser_pool:
  token_pool reserve_browser "\<lambda>b. unat (remaining_browser_calls (db_snapshot b))"
proof
  fix s :: deep_budget
  assume "0 < unat (remaining_browser_calls (db_snapshot s))"
  then show "\<exists>x s'. reserve_browser s = (Ok x, s')
      \<and> Suc (unat (remaining_browser_calls (db_snapshot s'))) = unat (remaining_browser_calls (db_snapshot s))"
    by (auto simp: reserve_browser_def Let_def rust_int)
next
  fix s :: deep_budget
  assume "unat (remaining_browser_calls (db_snapshot s)) = 0"
  then show "\<exists>e. reserve_browser s = (Err e, s)"
    by (auto simp: reserve_browser_def Let_def rust_int)
qed

section \<open>Runs of the Deep budget\<close>

text \<open>
  The Deep orchestrator interleaves reservations, consumptions and releases. A run is a list of
  such calls; \<open>deep_apply\<close> says whether a call succeeded and what it left.
\<close>

datatype deep_op =
    ReserveFetch | ConsumeFetch u64 u32 | ReserveBrowser | ReleaseFetch | ReleaseBrowser
  | ReserveSubquery u64

fun deep_apply :: "deep_op \<Rightarrow> deep_budget \<Rightarrow> bool \<times> deep_budget" where
  "deep_apply ReserveFetch b = (is_ok (fst (reserve_fetch b)), snd (reserve_fetch b))"
| "deep_apply (ConsumeFetch n r) b = (is_ok (fst (consume_fetch b n r)), snd (consume_fetch b n r))"
| "deep_apply ReserveBrowser b = (is_ok (fst (reserve_browser b)), snd (reserve_browser b))"
| "deep_apply ReleaseFetch b = (True, release_fetch b)"
| "deep_apply ReleaseBrowser b = (True, release_browser b)"
| "deep_apply (ReserveSubquery c) b = (is_ok (fst (reserve_subquery b c)), snd (reserve_subquery b c))"

text \<open>The calls of a run that succeeded, in order, and the budget after the run.\<close>

fun deep_run :: "deep_op list \<Rightarrow> deep_budget \<Rightarrow> deep_op list \<times> deep_budget" where
  "deep_run [] b = ([], b)"
| "deep_run (x # xs) b =
     (case deep_apply x b of (ok, b') \<Rightarrow>
        (case deep_run xs b' of (oks, b'') \<Rightarrow> (if ok then x # oks else oks, b'')))"

fun op_bytes :: "deep_op \<Rightarrow> nat" where
  "op_bytes (ConsumeFetch n r) = unat n" | "op_bytes _ = 0"
fun op_redirects :: "deep_op \<Rightarrow> nat" where
  "op_redirects (ConsumeFetch n r) = unat r" | "op_redirects _ = 0"
fun op_cost :: "deep_op \<Rightarrow> nat" where
  "op_cost (ReserveSubquery c) = unat c" | "op_cost _ = 0"
fun op_subqueries :: "deep_op \<Rightarrow> nat" where
  "op_subqueries (ReserveSubquery c) = 1" | "op_subqueries _ = 0"

definition spent :: "(deep_op \<Rightarrow> nat) \<Rightarrow> deep_op list \<Rightarrow> nat" where
  "spent f xs = sum_list (map f xs)"

text \<open>
  What one call charges against a quantity of the snapshot is exactly what it takes away; a
  quantity with this property is conserved over runs.
\<close>

definition charges :: "(deep_op \<Rightarrow> nat) \<Rightarrow> (deep_budget_snapshot \<Rightarrow> nat) \<Rightarrow> bool" where
  "charges f q \<longleftrightarrow> (\<forall>x b. q (db_snapshot b) =
     (if fst (deep_apply x b) then f x else 0) + q (db_snapshot (snd (deep_apply x b))))"

lemma deep_run_conserves:
  assumes "charges f q"
  shows "spent f (fst (deep_run xs b)) + q (db_snapshot (snd (deep_run xs b))) = q (db_snapshot b)"
proof (induction xs arbitrary: b)
  case Nil
  then show ?case by (simp add: spent_def)
next
  case (Cons x xs)
  obtain ok b' where step: "deep_apply x b = (ok, b')" by fastforce
  from assms have "q (db_snapshot b) = (if ok then f x else 0) + q (db_snapshot b')"
    unfolding charges_def using step by (metis fst_conv snd_conv)
  with Cons.IH [of b'] step show ?case
    by (auto simp: spent_def split: prod.splits)
qed

lemma charges_bytes: "charges op_bytes (\<lambda>s. unat (remaining_bytes s))"
  unfolding charges_def
proof (intro allI)
  fix x b
  show "unat (remaining_bytes (db_snapshot b)) = (if fst (deep_apply x b) then op_bytes x else 0)
      + unat (remaining_bytes (db_snapshot (snd (deep_apply x b))))"
    by (cases x) (auto simp: deep_budget_ops Let_def rust_int not_less word_le_nat_alt)
qed

lemma charges_redirects: "charges op_redirects (\<lambda>s. unat (remaining_redirects s))"
  unfolding charges_def
proof (intro allI)
  fix x b
  show "unat (remaining_redirects (db_snapshot b)) = (if fst (deep_apply x b) then op_redirects x else 0)
      + unat (remaining_redirects (db_snapshot (snd (deep_apply x b))))"
    by (cases x) (auto simp: deep_budget_ops Let_def rust_int not_less word_le_nat_alt)
qed

lemma charges_cost: "charges op_cost (\<lambda>s. unat (remaining_cost s))"
  unfolding charges_def
proof (intro allI)
  fix x b
  show "unat (remaining_cost (db_snapshot b)) = (if fst (deep_apply x b) then op_cost x else 0)
      + unat (remaining_cost (db_snapshot (snd (deep_apply x b))))"
    by (cases x) (auto simp: deep_budget_ops Let_def rust_int not_less word_le_nat_alt)
qed

lemma charges_subqueries: "charges op_subqueries (\<lambda>s. unat (remaining_subqueries s))"
  unfolding charges_def
proof (intro allI)
  fix x b
  have "w \<noteq> 0 \<Longrightarrow> unat w = Suc (unat (w - 1))" for w :: u32
    by (simp add: rust_int) (metis Suc_pred gr0I unat_0_iff)
  then show "unat (remaining_subqueries (db_snapshot b)) = (if fst (deep_apply x b) then op_subqueries x else 0)
      + unat (remaining_subqueries (db_snapshot (snd (deep_apply x b))))"
    by (cases x) (auto simp: deep_budget_ops Let_def)
qed

section \<open>The capacity invariant\<close>

definition deep_budget_wf :: "deep_budget \<Rightarrow> bool" where
  "deep_budget_wf b \<longleftrightarrow>
     remaining_fetches (db_snapshot b) \<le> max_fetches b
   \<and> remaining_browser_calls (db_snapshot b) \<le> max_browser_calls b
   \<and> remaining_crawl_urls (db_snapshot b) \<le> max_crawl_urls b
   \<and> remaining_subqueries (db_snapshot b) \<le> 2"

definition same_limits :: "deep_budget \<Rightarrow> deep_budget \<Rightarrow> bool" where
  "same_limits b c \<longleftrightarrow> max_fetches b = max_fetches c \<and> max_browser_calls b = max_browser_calls c
     \<and> max_crawl_urls b = max_crawl_urls c \<and> deadline_ms (db_snapshot b) = deadline_ms (db_snapshot c)"

lemma word_pred_le: "a \<noteq> 0 \<Longrightarrow> a \<le> m \<Longrightarrow> a - 1 \<le> m" for a :: "'a::len word"
  by (simp add: word_le_nat_alt rust_int)

lemma deep_budget_wf_new:
  "deep_budget_wf (with_gap_limits (deep_budget_new f n r bc cu d) sq mc)"
  by (simp add: deep_budget_wf_def deep_budget_ops)

lemma deep_apply_wf:
  "deep_budget_wf b \<Longrightarrow> deep_budget_wf (snd (deep_apply x b)) \<and> same_limits (snd (deep_apply x b)) b"
  by (cases x) (auto simp: deep_budget_wf_def same_limits_def deep_budget_ops Let_def word_pred_le)

lemma deep_run_wf:
  "deep_budget_wf b \<Longrightarrow> deep_budget_wf (snd (deep_run xs b)) \<and> same_limits (snd (deep_run xs b)) b"
proof (induction xs arbitrary: b)
  case Nil
  then show ?case by (simp add: same_limits_def)
next
  case (Cons x xs)
  obtain ok b' where step: "deep_apply x b = (ok, b')" by fastforce
  with deep_apply_wf [OF Cons.prems, of x] Cons.IH [of b'] show ?case
    by (auto simp: same_limits_def split: prod.splits)
qed

lemma deep_apply_fetch_count:
  "unat (remaining_fetches (db_snapshot (snd (deep_apply x b))))
     + (if fst (deep_apply x b) \<and> x = ReserveFetch then 1 else 0)
   \<le> unat (remaining_fetches (db_snapshot b)) + (if x = ReleaseFetch then 1 else 0)"
proof (cases x)
  case ReserveFetch
  then show ?thesis
    by (auto simp: deep_budget_ops Let_def rust_int Suc_leI unat_gt_0)
next
  case ReleaseFetch
  have "min a b \<le> a" for a b :: u32 by simp
  then have "unat (min (saturating_add (remaining_fetches (db_snapshot b)) 1) (max_fetches b))
      \<le> unat (saturating_add (remaining_fetches (db_snapshot b)) 1)"
    by (simp only: word_le_nat_alt [symmetric])
  also have "\<dots> \<le> unat (remaining_fetches (db_snapshot b)) + 1"
    by (simp add: rust_int)
  finally show ?thesis
    using ReleaseFetch by (simp add: deep_budget_ops Let_def)
qed (auto simp: deep_budget_ops Let_def)

lemma deep_run_fetch_count:
  "unat (remaining_fetches (db_snapshot (snd (deep_run xs b))))
     + count_list (fst (deep_run xs b)) ReserveFetch
   \<le> unat (remaining_fetches (db_snapshot b)) + count_list (fst (deep_run xs b)) ReleaseFetch"
proof (induction xs arbitrary: b)
  case Nil
  then show ?case by simp
next
  case (Cons x xs)
  obtain ok b' where step: "deep_apply x b = (ok, b')" by fastforce
  have rel: "x = ReleaseFetch \<Longrightarrow> ok" using step by auto
  from deep_apply_fetch_count [of x b] Cons.IH [of b'] step rel show ?case
    by (auto split: prod.splits if_splits)
qed

section \<open>Properties\<close>

text \<open>
  C7. Deep never overspends. Along any interleaving of budget calls from a fresh budget, the
  bytes, redirects, cost and subqueries charged by the calls that succeeded and what remains add
  up exactly to what was granted; so no counter of the program wraps, and at most two subqueries
  ever run whatever limit was configured.
\<close>

theorem deep_budget_accounting:
  fixes xs :: "deep_op list" and f r bc cu sq :: u32 and n d mc :: u64
  defines "start \<equiv> with_gap_limits (deep_budget_new f n r bc cu d) sq mc"
  defines "oks \<equiv> fst (deep_run xs start)" and "s \<equiv> db_snapshot (snd (deep_run xs start))"
  shows "spent op_bytes oks + unat (remaining_bytes s) = unat n
    \<and> spent op_redirects oks + unat (remaining_redirects s) = unat r
    \<and> spent op_cost oks + unat (remaining_cost s) = unat mc
    \<and> spent op_subqueries oks + unat (remaining_subqueries s) = unat (min sq 2)
    \<and> spent op_subqueries oks \<le> 2"
proof -
  have sub: "spent op_subqueries oks + unat (remaining_subqueries s) = unat (min sq 2)"
    using deep_run_conserves [OF charges_subqueries, of xs start]
    by (simp add: oks_def s_def start_def with_gap_limits_def deep_budget_new_def)
  have "unat (min sq 2) \<le> unat (2 :: u32)"
    by (simp only: word_le_nat_alt [symmetric] min.cobounded2)
  with sub have "spent op_subqueries oks \<le> 2" by simp
  with sub show ?thesis
    using deep_run_conserves [OF charges_bytes, of xs start]
      deep_run_conserves [OF charges_redirects, of xs start]
      deep_run_conserves [OF charges_cost, of xs start]
    by (simp add: oks_def s_def start_def with_gap_limits_def deep_budget_new_def)
qed

text \<open>
  The capacity of the Deep budget is an invariant: however fetches and browser calls are
  reserved and released (also released more often than reserved), the remaining counts stay within
  the limits the budget was created with, the limits and the deadline never change, and the
  successful fetch reservations exceed the releases by at most the configured number of fetches.
\<close>

theorem deep_budget_capacity:
  fixes xs :: "deep_op list" and f r bc cu sq :: u32 and n d mc :: u64
  defines "start \<equiv> with_gap_limits (deep_budget_new f n r bc cu d) sq mc"
  defines "oks \<equiv> fst (deep_run xs start)" and "b \<equiv> snd (deep_run xs start)"
  shows "deep_budget_wf b \<and> same_limits b start
    \<and> count_list oks ReserveFetch \<le> unat f + count_list oks ReleaseFetch"
proof -
  have "deep_budget_wf start"
    unfolding start_def by (rule deep_budget_wf_new)
  then have "deep_budget_wf b \<and> same_limits b start"
    unfolding b_def by (rule deep_run_wf)
  moreover have "count_list oks ReserveFetch \<le> unat f + count_list oks ReleaseFetch"
    using deep_run_fetch_count [of xs start]
    by (simp add: oks_def start_def with_gap_limits_def deep_budget_new_def)
  ultimately show ?thesis by simp
qed

text \<open>
  Releasing a fetch reservation undoes it exactly: from a budget within its limits, a granted
  reservation followed by a release gives back the budget before the reservation.
\<close>

theorem reserve_release_fetch:
  assumes "deep_budget_wf b" and "reserve_fetch b = (Ok m, b')"
  shows "release_fetch b' = b"
proof -
  have cancel: "min (saturating_add (a - 1) 1) k = a" if "a \<noteq> 0" "a \<le> k" for a k :: u32
  proof -
    have "saturating_add (a - 1) 1 = a"
      using \<open>a \<noteq> 0\<close> unat_less_32 [of a] by (simp add: saturating_add_def rust_int unat_gt_0 Suc_leI)
    with that show ?thesis by simp
  qed
  from assms show ?thesis
    by (auto simp: deep_budget_wf_def reserve_fetch_def release_fetch_def Let_def cancel
        split: if_splits)
qed

theorem reserve_release_fetch_witness:
  "deep_budget_wf (deep_budget_new 2 100 5 1 3 1000)
   \<and> release_fetch (snd (reserve_fetch (deep_budget_new 2 100 5 1 3 1000)))
     = deep_budget_new 2 100 5 1 3 1000"
proof -
  have wf: "deep_budget_wf (deep_budget_new 2 100 5 1 3 1000)"
    by (simp add: deep_budget_wf_def deep_budget_new_def)
  have ok: "reserve_fetch (deep_budget_new 2 100 5 1 3 1000)
      = (Ok 100, snd (reserve_fetch (deep_budget_new 2 100 5 1 3 1000)))"
    by (simp add: reserve_fetch_def deep_budget_new_def)
  from wf reserve_release_fetch [OF wf ok] show ?thesis by simp
qed

end
