(* ===== verification/Errors.thy ===== *)
theory Errors
  imports Prelude
begin

text \<open>
  The error catalogue of \<open>errors.rs\<close>: one enumeration of codes shared by the CLI, API, MCP
  and UI surfaces, the wire identifier, HTTP status and message of each code, and the parser from
  wire identifiers. The properties are the contract the surfaces rely on: wire identifiers are
  unambiguous and parse back to their code, and every status is an HTTP error status.
\<close>

datatype ErrorCode =
    InvalidRequest | InvalidQuery | InvalidUrl | Unauthorized
  | InvalidHost | InvalidOrigin | RateLimited | BodyTooLarge
  | HeadersTooLarge | RequestTimeout | NotFound | Conflict
  | EgressDenied | FetchFailed | ProviderNotDeclared | ProviderNotRegistered
  | ProviderNotEnabled | ProviderNotApproved | ProviderCredentialMissing | ProviderNetworkBlocked
  | SearchPlanningFailed | ConfigurationInvalid | InferenceUnavailable | RankingBackendUnavailable
  | StorageUnavailable | AnswerUnavailable | ScopeDenied | RequestCancelled
  | SerializationFailed | InternalError

definition ERROR_CATALOG :: "ErrorCode list" where
  "ERROR_CATALOG =
     [InvalidRequest, InvalidQuery, InvalidUrl, Unauthorized,
      InvalidHost, InvalidOrigin, RateLimited, BodyTooLarge,
      HeadersTooLarge, RequestTimeout, NotFound, Conflict,
      EgressDenied, FetchFailed, ProviderNotDeclared, ProviderNotRegistered,
      ProviderNotEnabled, ProviderNotApproved, ProviderCredentialMissing, ProviderNetworkBlocked,
      SearchPlanningFailed, ConfigurationInvalid, InferenceUnavailable, RankingBackendUnavailable,
      StorageUnavailable, AnswerUnavailable, ScopeDenied, RequestCancelled,
      SerializationFailed, InternalError]"

fun as_str :: "ErrorCode \<Rightarrow> string" where
  "as_str InvalidRequest = ''invalid_request''"
| "as_str InvalidQuery = ''invalid_query''"
| "as_str InvalidUrl = ''invalid_url''"
| "as_str Unauthorized = ''unauthorized''"
| "as_str InvalidHost = ''invalid_host''"
| "as_str InvalidOrigin = ''invalid_origin''"
| "as_str RateLimited = ''rate_limited''"
| "as_str BodyTooLarge = ''body_too_large''"
| "as_str HeadersTooLarge = ''headers_too_large''"
| "as_str RequestTimeout = ''request_timeout''"
| "as_str NotFound = ''not_found''"
| "as_str Conflict = ''conflict''"
| "as_str EgressDenied = ''egress_denied''"
| "as_str FetchFailed = ''fetch_failed''"
| "as_str ProviderNotDeclared = ''provider_not_declared''"
| "as_str ProviderNotRegistered = ''provider_not_registered''"
| "as_str ProviderNotEnabled = ''provider_not_enabled''"
| "as_str ProviderNotApproved = ''provider_not_approved''"
| "as_str ProviderCredentialMissing = ''provider_credential_missing''"
| "as_str ProviderNetworkBlocked = ''provider_network_blocked''"
| "as_str SearchPlanningFailed = ''search_planning_failed''"
| "as_str ConfigurationInvalid = ''configuration_invalid''"
| "as_str InferenceUnavailable = ''inference_unavailable''"
| "as_str RankingBackendUnavailable = ''ranking_backend_unavailable''"
| "as_str StorageUnavailable = ''storage_unavailable''"
| "as_str AnswerUnavailable = ''answer_unavailable''"
| "as_str ScopeDenied = ''scope_denied''"
| "as_str RequestCancelled = ''request_cancelled''"
| "as_str SerializationFailed = ''serialization_failed''"
| "as_str InternalError = ''internal_error''"

fun http_status :: "ErrorCode \<Rightarrow> u16" where
  "http_status InvalidRequest = 400"
| "http_status InvalidQuery = 400"
| "http_status InvalidUrl = 400"
| "http_status Unauthorized = 401"
| "http_status InvalidHost = 400"
| "http_status InvalidOrigin = 403"
| "http_status RateLimited = 429"
| "http_status BodyTooLarge = 413"
| "http_status HeadersTooLarge = 431"
| "http_status RequestTimeout = 504"
| "http_status NotFound = 404"
| "http_status Conflict = 409"
| "http_status EgressDenied = 403"
| "http_status FetchFailed = 502"
| "http_status ProviderNotDeclared = 500"
| "http_status ProviderNotRegistered = 500"
| "http_status ProviderNotEnabled = 500"
| "http_status ProviderNotApproved = 500"
| "http_status ProviderCredentialMissing = 500"
| "http_status ProviderNetworkBlocked = 403"
| "http_status SearchPlanningFailed = 500"
| "http_status ConfigurationInvalid = 500"
| "http_status InferenceUnavailable = 500"
| "http_status RankingBackendUnavailable = 500"
| "http_status StorageUnavailable = 503"
| "http_status AnswerUnavailable = 500"
| "http_status ScopeDenied = 403"
| "http_status RequestCancelled = 499"
| "http_status SerializationFailed = 500"
| "http_status InternalError = 500"

fun message :: "ErrorCode \<Rightarrow> string" where
  "message InvalidRequest = ''request envelope is malformed''"
| "message InvalidQuery = ''query is empty or exceeds the accepted length''"
| "message InvalidUrl = ''URL is not a usable public HTTP(S) URL''"
| "message Unauthorized = ''credential is missing or does not match''"
| "message InvalidHost = ''Host header is not in the allow list''"
| "message InvalidOrigin = ''Origin header is not in the allow list''"
| "message RateLimited = ''request budget for this window is exhausted''"
| "message BodyTooLarge = ''request body exceeds the configured limit''"
| "message HeadersTooLarge = ''request headers exceed the configured limit''"
| "message RequestTimeout = ''request exceeded the configured deadline''"
| "message NotFound = ''no route or asset matches this path''"
| "message Conflict = ''the resource already exists and would be overwritten''"
| "message EgressDenied = ''data policy denies outbound network access''"
| "message FetchFailed = ''outbound fetch failed or was rejected by safety controls''"
| "message ProviderNotDeclared = ''enabled provider has no governance record''"
| "message ProviderNotRegistered = ''declared provider has no registered implementation''"
| "message ProviderNotEnabled = ''provider is not enabled''"
| "message ProviderNotApproved = ''provider governance approval is incomplete or expired''"
| "message ProviderCredentialMissing = ''provider credential is missing or empty''"
| "message ProviderNetworkBlocked = ''provider has no authorized real-network canary''"
| "message SearchPlanningFailed = ''search planning produced no plan''"
| "message ConfigurationInvalid = ''configuration is invalid for this operation''"
| "message InferenceUnavailable = ''required inference backend is unavailable''"
| "message RankingBackendUnavailable = ''optional ranking backend is unavailable''"
| "message StorageUnavailable = ''persistent storage is unavailable''"
| "message AnswerUnavailable = ''answer synthesis backend is unavailable or its response was not grounded''"
| "message ScopeDenied = ''credential lacks the required capability''"
| "message RequestCancelled = ''request was cancelled by the caller''"
| "message SerializationFailed = ''response could not be serialized''"
| "message InternalError = ''internal failure''"

definition from_wire :: "rstr \<Rightarrow> ErrorCode option" where
  "from_wire value = find (\<lambda>code. lit (as_str code) = value) ERROR_CATALOG"

lemma ERROR_CATALOG_complete: "c \<in> set ERROR_CATALOG"
  by (cases c) (simp_all add: ERROR_CATALOG_def)

lemma ERROR_CATALOG_distinct: "distinct ERROR_CATALOG"
  by (simp add: ERROR_CATALOG_def)

lemma inj_lit: "inj lit"
proof (rule injI)
  fix a b :: string
  show "lit a = lit b \<Longrightarrow> a = b"
    by (induction a arbitrary: b) (auto simp: lit_def)
qed

lemma lit_eq_iff: "lit a = lit b \<longleftrightarrow> a = b"
  using inj_lit by (auto dest: injD)

text \<open>
  A numeric key of a string, used to tell the wire identifiers apart: the keys of the catalogue
  are pairwise different numerals, so the identifiers are different strings.
\<close>

definition wire_key :: "string \<Rightarrow> nat" where
  "wire_key s = foldl (\<lambda>h c. h * 3 + of_char c) 0 s"

lemma wire_keys_distinct: "distinct (map (\<lambda>c. wire_key (as_str c)) ERROR_CATALOG)"
  by (simp add: ERROR_CATALOG_def wire_key_def)

lemma as_str_inj: "as_str a = as_str b \<Longrightarrow> a = b"
proof -
  assume "as_str a = as_str b"
  then have "wire_key (as_str a) = wire_key (as_str b)" by simp
  moreover have "inj_on (\<lambda>c. wire_key (as_str c)) (set ERROR_CATALOG)"
    using wire_keys_distinct by (simp add: distinct_map)
  ultimately show "a = b"
    using ERROR_CATALOG_complete by (blast dest: inj_onD)
qed

lemma find_unique:
  assumes "x \<in> set xs" and "P x" and "\<And>y. y \<in> set xs \<Longrightarrow> P y \<Longrightarrow> y = x"
  shows "find P xs = Some x"
proof (cases "find P xs")
  case None
  with assms(1,2) show ?thesis by (auto simp: find_None_iff)
next
  case (Some y)
  then have "P y" and "y \<in> set xs" by (auto simp: find_Some_iff)
  then have "y = x" by (intro assms(3))
  with Some show ?thesis by simp
qed

lemma error_status_range: "400 \<le> http_status c \<and> http_status c < 600"
  by (cases c) simp_all

section \<open>Properties\<close>

text \<open>
  The wire contract of the error catalogue: parsing the wire identifier of any code gives that
  code back, and nothing but the identifier of a code parses to it.
\<close>

theorem error_wire_roundtrip: "from_wire v = Some c \<longleftrightarrow> v = lit (as_str c)"
proof
  assume "from_wire v = Some c"
  then show "v = lit (as_str c)"
    by (auto simp: from_wire_def find_Some_iff)
next
  assume v: "v = lit (as_str c)"
  show "from_wire v = Some c"
    unfolding from_wire_def
    by (rule find_unique) (auto simp: v lit_eq_iff ERROR_CATALOG_complete dest: as_str_inj)
qed

end
