(* ===== verification/BTree.thy ===== *)
theory BTree
  imports Prelude
begin

text \<open>
  \<open>BTreeMap\<close> and \<open>BTreeSet\<close> as the sources use them: iteration in key order, one value
  per key, the last insertion wins. A map is an association list with strictly increasing keys,
  a set a strictly increasing list. The locale \<open>ordered_map\<close> is the interface the components
  rely on; its interpretation \<open>btm\<close> discharges it for the association lists.
\<close>

type_synonym ('k, 'v) btree_map = "('k \<times> 'v) list"
type_synonym 'k btree_set = "'k list"

definition bt_empty :: "('k, 'v) btree_map" where "bt_empty = []"

fun bt_insert :: "'k::linorder \<Rightarrow> 'v \<Rightarrow> ('k, 'v) btree_map \<Rightarrow> ('k, 'v) btree_map" where
  "bt_insert k v [] = [(k, v)]"
| "bt_insert k v ((a, b) # m) =
     (if k < a then (k, v) # (a, b) # m else if k = a then (k, v) # m else (a, b) # bt_insert k v m)"

definition bt_get :: "('k, 'v) btree_map \<Rightarrow> 'k \<Rightarrow> 'v option" where
  "bt_get m k = map_of m k"

definition bt_keys :: "('k, 'v) btree_map \<Rightarrow> 'k list" where "bt_keys m = map fst m"
definition bt_values :: "('k, 'v) btree_map \<Rightarrow> 'v list" where "bt_values m = map snd m"

definition bt_contains_key :: "('k, 'v) btree_map \<Rightarrow> 'k \<Rightarrow> bool" where
  "bt_contains_key m k \<longleftrightarrow> bt_get m k \<noteq> None"

text \<open>\<open>entry(k).or_insert(d)\<close> followed by an in-place update \<open>f\<close> of the entry.\<close>

definition bt_entry :: "'k::linorder \<Rightarrow> 'v \<Rightarrow> ('v \<Rightarrow> 'v) \<Rightarrow> ('k, 'v) btree_map \<Rightarrow> ('k, 'v) btree_map" where
  "bt_entry k d f m = bt_insert k (f (case bt_get m k of None \<Rightarrow> d | Some v \<Rightarrow> v)) m"

text \<open>\<open>collect()\<close> into a map: insertions in iteration order.\<close>

definition bt_collect :: "('k::linorder \<times> 'v) list \<Rightarrow> ('k, 'v) btree_map" where
  "bt_collect kvs = fold (\<lambda>(k, v). bt_insert k v) kvs bt_empty"

definition bt_wf :: "('k::linorder, 'v) btree_map \<Rightarrow> bool" where
  "bt_wf m \<longleftrightarrow> sorted_wrt (<) (map fst m)"

text \<open>\<open>collect()\<close> into a set, and \<open>insert\<close>.\<close>

definition bs_collect :: "'k::linorder list \<Rightarrow> 'k btree_set" where
  "bs_collect xs = sort (remdups xs)"

definition bs_insert :: "'k::linorder \<Rightarrow> 'k btree_set \<Rightarrow> 'k btree_set" where
  "bs_insert x s = (if x \<in> set s then s else insort x s)"

definition bs_wf :: "'k::linorder btree_set \<Rightarrow> bool" where
  "bs_wf s \<longleftrightarrow> sorted_wrt (<) s"

section \<open>The ordered map interface\<close>

locale ordered_map =
  fixes empty :: "'m"
    and insert :: "'k::linorder \<Rightarrow> 'v \<Rightarrow> 'm \<Rightarrow> 'm"
    and get :: "'m \<Rightarrow> 'k \<Rightarrow> 'v option"
    and keys :: "'m \<Rightarrow> 'k list"
    and invar :: "'m \<Rightarrow> bool"
  assumes get_empty: "get empty k = None"
    and get_insert: "invar m \<Longrightarrow> get (insert k v m) j = (if j = k then Some v else get m j)"
    and set_keys: "invar m \<Longrightarrow> set (keys m) = {k. get m k \<noteq> None}"
    and keys_increasing: "invar m \<Longrightarrow> sorted_wrt (<) (keys m)"
    and invar_empty: "invar empty"
    and invar_insert: "invar m \<Longrightarrow> invar (insert k v m)"
begin

lemma invar_fold: "invar m \<Longrightarrow> invar (fold (\<lambda>(k, v). insert k v) kvs m)"
  by (induction kvs arbitrary: m) (auto simp: invar_insert)

text \<open>After inserting a list of bindings the last one for a key is found.\<close>

lemma get_fold:
  "invar m \<Longrightarrow> get (fold (\<lambda>(k, v). insert k v) kvs m) j =
     (case map_of (rev kvs) j of None \<Rightarrow> get m j | Some v \<Rightarrow> Some v)"
proof (induction kvs arbitrary: m)
  case Nil
  then show ?case by simp
next
  case (Cons kv kvs)
  obtain k v where kv: "kv = (k, v)" by fastforce
  from Cons.prems have "invar (insert k v m)" by (rule invar_insert)
  from Cons.IH [OF this] Cons.prems show ?case
    by (auto simp: kv get_insert map_add_def split: option.splits)
qed

lemma keys_fold:
  "invar m \<Longrightarrow> set (keys (fold (\<lambda>(k, v). insert k v) kvs m)) = set (keys m) \<union> fst ` set kvs"
proof -
  assume inv: "invar m"
  have "map_of (rev kvs) j = None \<longleftrightarrow> j \<notin> fst ` set kvs" for j
    by (simp add: map_of_eq_None_iff)
  then show ?thesis
    using inv invar_fold [OF inv, of kvs]
    by (auto simp: set_keys get_fold split: option.splits)
qed

lemma distinct_keys: "invar m \<Longrightarrow> distinct (keys m)"
  using keys_increasing [of m] by (simp add: strict_sorted_iff)

end

section \<open>The association lists implement it\<close>

lemma bt_insert_keys: "set (map fst (bt_insert k v m)) = insert k (set (map fst m))"
proof (induction m)
  case Nil
  then show ?case by simp
next
  case (Cons ab m)
  obtain a b where "ab = (a, b)" by fastforce
  with Cons show ?case by (simp add: insert_commute)
qed

lemma bt_insert_wf: "bt_wf m \<Longrightarrow> bt_wf (bt_insert k v m)"
proof (induction m)
  case Nil
  then show ?case by (simp add: bt_wf_def)
next
  case (Cons ab m)
  obtain a b where ab: "ab = (a, b)" by fastforce
  have keys: "\<forall>x\<in>set (map fst (bt_insert k v m)). x = k \<or> x \<in> set (map fst m)"
    using bt_insert_keys [of k v m] by simp
  from Cons.prems have below: "\<forall>x\<in>set (map fst m). a < x" and wf: "bt_wf m"
    by (simp_all add: ab bt_wf_def)
  have "a < k \<Longrightarrow> \<forall>x\<in>set (map fst (bt_insert k v m)). a < x"
    using keys below by metis
  moreover have "bt_wf (bt_insert k v m)" using Cons.IH wf by blast
  moreover have "k < a \<Longrightarrow> \<forall>x\<in>set (map fst m). k < x"
    using below by (meson less_trans)
  ultimately show ?case
    using below wf by (cases k a rule: linorder_cases) (simp_all add: ab bt_wf_def)
qed

lemma bt_get_insert: "bt_wf m \<Longrightarrow> bt_get (bt_insert k v m) j = (if j = k then Some v else bt_get m j)"
proof (induction m)
  case Nil
  then show ?case by (simp add: bt_get_def)
next
  case (Cons ab m)
  then show ?case by (cases ab) (auto simp: bt_get_def bt_wf_def)
qed

interpretation btm: ordered_map bt_empty bt_insert bt_get bt_keys bt_wf
proof
  fix k :: 'a and m :: "('a, 'b) btree_map"
  show "bt_get bt_empty k = (None :: 'b option)" by (simp add: bt_get_def bt_empty_def)
  show "set (bt_keys m) = {k. bt_get m k \<noteq> None}"
    by (force simp: bt_keys_def bt_get_def map_of_eq_None_iff)
qed (auto simp: bt_get_insert bt_insert_wf bt_keys_def, auto simp: bt_wf_def bt_empty_def)

lemma bt_collect_wf [simp, intro]: "bt_wf (bt_collect kvs)"
  unfolding bt_collect_def by (rule btm.invar_fold) (rule btm.invar_empty)

lemma bt_get_collect: "bt_get (bt_collect kvs) k = map_of (rev kvs) k"
  by (simp add: bt_collect_def btm.get_fold btm.invar_empty btm.get_empty split: option.splits)

lemma bt_keys_collect: "set (bt_keys (bt_collect kvs)) = fst ` set kvs"
  by (simp add: bt_collect_def btm.keys_fold btm.invar_empty) (simp add: bt_keys_def bt_empty_def)

lemma bt_wf_get: "bt_wf m \<Longrightarrow> (k, v) \<in> set m \<longleftrightarrow> bt_get m k = Some v"
  by (auto simp: bt_get_def bt_wf_def strict_sorted_iff intro: map_of_is_SomeI dest: map_of_SomeD)

lemma bt_entry_wf: "bt_wf m \<Longrightarrow> bt_wf (bt_entry k d f m)"
  by (simp add: bt_entry_def bt_insert_wf)

lemma bt_get_entry:
  "bt_wf m \<Longrightarrow> bt_get (bt_entry k d f m) j =
     (if j = k then Some (f (case bt_get m k of None \<Rightarrow> d | Some v \<Rightarrow> v)) else bt_get m j)"
  by (simp add: bt_entry_def bt_get_insert)

section \<open>Sets\<close>

lemma set_bs_collect [simp]: "set (bs_collect xs) = set xs"
  by (simp add: bs_collect_def)

lemma bs_collect_wf: "bs_wf (bs_collect xs)"
  by (simp add: bs_wf_def bs_collect_def strict_sorted_iff)

lemma length_bs_collect: "length (bs_collect xs) = card (set xs)"
  by (simp add: bs_collect_def length_remdups_card_conv)

lemma distinct_bs_collect [simp]: "distinct (bs_collect xs)"
  by (simp add: bs_collect_def)

lemma bs_collect_sorted_list_of_set: "bs_collect xs = sorted_list_of_set (set xs)"
  by (simp add: bs_collect_def sorted_list_of_set_sort_remdups)

lemma set_bs_insert [simp]: "set (bs_insert x s) = insert x (set s)"
  by (auto simp: bs_insert_def set_insort_key)

lemma bs_insert_wf: "bs_wf s \<Longrightarrow> bs_wf (bs_insert x s)"
  by (auto simp: bs_wf_def bs_insert_def strict_sorted_iff sorted_insort distinct_insort)

end
