(* ===== verification/Ordering.thy ===== *)
theory Ordering
  imports BTree "HOL-Library.Product_Lexorder" "HOL-Library.Multiset"
begin

text \<open>
  \<open>std::cmp::Ordering\<close>, comparators built with \<open>then_with\<close> and \<open>Reverse\<close>, and
  the stable \<open>sort_by\<close>. The locale \<open>total_comparator\<close> is the contract \<open>sort_by\<close>
  documents for its closure (a total order on the values it compares); under it the sort returns
  an ordered permutation that keeps equal elements in place. Every comparator of the sources is an
  interpretation in the theory of its component.
\<close>

datatype ordering = Less | Equal | Greater

fun then_with :: "ordering \<Rightarrow> ordering \<Rightarrow> ordering" where
  "then_with Equal b = b"
| "then_with a b = a"

fun reverse_ordering :: "ordering \<Rightarrow> ordering" where
  "reverse_ordering Less = Greater"
| "reverse_ordering Equal = Equal"
| "reverse_ordering Greater = Less"

definition ord_cmp :: "'a::linorder \<Rightarrow> 'a \<Rightarrow> ordering" where
  "ord_cmp a b = (if a < b then Less else if a = b then Equal else Greater)"

text \<open>\<open>Option\<close>'s derived order: \<open>None\<close> before every \<open>Some\<close>.\<close>

fun option_cmp :: "'a::linorder option \<Rightarrow> 'a option \<Rightarrow> ordering" where
  "option_cmp None None = Equal"
| "option_cmp None (Some b) = Less"
| "option_cmp (Some a) None = Greater"
| "option_cmp (Some a) (Some b) = ord_cmp a b"

fun insert_by :: "('a \<Rightarrow> 'a \<Rightarrow> ordering) \<Rightarrow> 'a \<Rightarrow> 'a list \<Rightarrow> 'a list" where
  "insert_by cmp x [] = [x]"
| "insert_by cmp x (y # ys) = (if cmp x y = Greater then y # insert_by cmp x ys else x # y # ys)"

definition sort_by :: "('a \<Rightarrow> 'a \<Rightarrow> ordering) \<Rightarrow> 'a list \<Rightarrow> 'a list" where
  "sort_by cmp xs = foldr (insert_by cmp) xs []"

lemma sort_by_simps [simp]:
  "sort_by cmp [] = []" "sort_by cmp (x # xs) = insert_by cmp x (sort_by cmp xs)"
  by (simp_all add: sort_by_def)

lemma mset_insert_by [simp]: "mset (insert_by cmp x xs) = add_mset x (mset xs)"
  by (induction xs) auto

lemma mset_sort_by [simp]: "mset (sort_by cmp xs) = mset xs"
  by (induction xs) simp_all

lemma set_sort_by [simp]: "set (sort_by cmp xs) = set xs"
  by (metis mset_sort_by set_mset_mset)

lemma length_sort_by [simp]: "length (sort_by cmp xs) = length xs"
  by (metis mset_sort_by size_mset)

section \<open>The contract of a comparator\<close>

definition cmp_le :: "('a \<Rightarrow> 'a \<Rightarrow> ordering) \<Rightarrow> 'a \<Rightarrow> 'a \<Rightarrow> bool" where
  "cmp_le cmp a b \<longleftrightarrow> cmp a b \<noteq> Greater"

locale total_comparator =
  fixes cmp :: "'a \<Rightarrow> 'a \<Rightarrow> ordering"
  assumes cmp_swap: "cmp b a = reverse_ordering (cmp a b)"
    and cmp_trans: "cmp_le cmp a b \<Longrightarrow> cmp_le cmp b c \<Longrightarrow> cmp_le cmp a c"
begin

lemma cmp_refl: "cmp a a = Equal"
  using cmp_swap [of a a] by (cases "cmp a a") auto

lemma cmp_total: "cmp_le cmp a b \<or> cmp_le cmp b a"
  using cmp_swap [of a b] by (cases "cmp a b") (auto simp: cmp_le_def)

lemma insert_by_sorted:
  "sorted_wrt (cmp_le cmp) xs \<Longrightarrow> sorted_wrt (cmp_le cmp) (insert_by cmp x xs)"
proof (induction xs)
  case Nil
  then show ?case by simp
next
  case (Cons y ys)
  have mem: "set (insert_by cmp x ys) = insert x (set ys)"
    by (metis mset_insert_by set_mset_add_mset_insert set_mset_mset)
  show ?case
  proof (cases "cmp x y = Greater")
    case True
    then have "cmp_le cmp y x" using cmp_total [of x y] by (simp add: cmp_le_def)
    with True Cons show ?thesis by (simp add: mem)
  next
    case False
    then have "cmp_le cmp x y" by (simp add: cmp_le_def)
    with False Cons show ?thesis by (auto intro: cmp_trans)
  qed
qed

lemma sort_by_sorted: "sorted_wrt (cmp_le cmp) (sort_by cmp xs)"
  by (induction xs) (simp_all add: insert_by_sorted)

text \<open>Stability: the elements equal to a given one keep their relative order.\<close>

lemma insert_by_filter:
  "filter (\<lambda>y. cmp a y = Equal) (insert_by cmp x xs) =
     (if cmp a x = Equal then x # filter (\<lambda>y. cmp a y = Equal) xs else filter (\<lambda>y. cmp a y = Equal) xs)"
proof (induction xs)
  case Nil
  then show ?case by simp
next
  case (Cons y ys)
  have key: "cmp a x = Equal \<Longrightarrow> cmp x y = Greater \<Longrightarrow> cmp a y \<noteq> Equal"
  proof
    assume "cmp a x = Equal" "cmp x y = Greater" "cmp a y = Equal"
    then have "cmp_le cmp x a" "cmp_le cmp a y"
      by (simp_all add: cmp_le_def cmp_swap [where b = x and a = a])
    then have "cmp_le cmp x y" by (rule cmp_trans)
    with \<open>cmp x y = Greater\<close> show False by (simp add: cmp_le_def)
  qed
  show ?case
  proof (cases "cmp x y = Greater")
    case True
    with Cons key show ?thesis by (simp del: if_split split: if_split_asm)
  next
    case False
    then show ?thesis by simp
  qed
qed

lemma sort_by_stable: "filter (\<lambda>y. cmp a y = Equal) (sort_by cmp xs) = filter (\<lambda>y. cmp a y = Equal) xs"
  by (induction xs) (simp_all add: insert_by_filter)

lemma sort_by_idem: "sorted_wrt (cmp_le cmp) xs \<Longrightarrow> sort_by cmp xs = xs"
proof (induction xs)
  case Nil
  then show ?case by simp
next
  case (Cons x xs)
  then show ?case by (cases xs) (auto simp: cmp_le_def)
qed

text \<open>On elements told apart by the comparator, the sort forgets the order of the input.\<close>

lemma sorted_unique:
  assumes "sorted_wrt (cmp_le cmp) xs" "sorted_wrt (cmp_le cmp) ys" "mset xs = mset ys"
    and "\<And>a b. a \<in> set xs \<Longrightarrow> b \<in> set xs \<Longrightarrow> cmp a b = Equal \<Longrightarrow> a = b"
  shows "xs = ys"
  using assms
proof (induction xs arbitrary: ys)
  case Nil
  then show ?case by simp
next
  case (Cons x xs)
  have sets: "set (x # xs) = set ys" using Cons.prems(3) by (rule mset_eq_setD)
  then obtain y ys' where ys: "ys = y # ys'" by (cases ys) auto
  have le_self: "cmp_le cmp a a" for a by (simp add: cmp_le_def cmp_refl)
  have "y \<in> set (x # xs)" "x \<in> set (y # ys')" using sets ys by auto
  then have "cmp_le cmp x y" "cmp_le cmp y x"
    using Cons.prems(1,2) le_self by (auto simp: ys)
  then have "cmp x y = Equal" using cmp_swap [of y x] by (cases "cmp x y") (auto simp: cmp_le_def)
  then have "x = y" using Cons.prems(4) sets ys by auto
  with Cons ys show ?case by simp
qed

lemma sort_by_perm:
  assumes "mset xs = mset ys" "\<And>a b. a \<in> set xs \<Longrightarrow> b \<in> set xs \<Longrightarrow> cmp a b = Equal \<Longrightarrow> a = b"
  shows "sort_by cmp xs = sort_by cmp ys"
  by (rule sorted_unique) (use assms sort_by_sorted in auto)

end

section \<open>Building comparators\<close>

lemma total_comparator_ord: "total_comparator (\<lambda>a b. ord_cmp (f a) (f b))"
  by unfold_locales (auto simp: ord_cmp_def cmp_le_def split: if_splits)

lemma total_comparator_option: "total_comparator (\<lambda>a b. option_cmp (f a) (f b))"
proof
  fix a b c
  show "option_cmp (f b) (f a) = reverse_ordering (option_cmp (f a) (f b))"
    by (cases "f a"; cases "f b") (auto simp: ord_cmp_def)
  assume "cmp_le (\<lambda>a b. option_cmp (f a) (f b)) a b" "cmp_le (\<lambda>a b. option_cmp (f a) (f b)) b c"
  then show "cmp_le (\<lambda>a b. option_cmp (f a) (f b)) a c"
    by (cases "f a"; cases "f b"; cases "f c") (auto simp: cmp_le_def ord_cmp_def split: if_splits)
qed

lemma total_comparator_reverse:
  assumes "total_comparator cmp"
  shows "total_comparator (\<lambda>a b. cmp b a)"
proof -
  from assms show ?thesis
    unfolding total_comparator_def cmp_le_def by metis
qed

lemma reverse_ordering_twice [simp]: "reverse_ordering (reverse_ordering o1) = o1"
  by (cases o1) auto

lemma total_comparator_then:
  assumes "total_comparator c1" "total_comparator c2"
  shows "total_comparator (\<lambda>a b. then_with (c1 a b) (c2 a b))"
proof
  fix a b c
  have swap1: "c1 y x = reverse_ordering (c1 x y)" and swap2: "c2 y x = reverse_ordering (c2 x y)" for x y
    by (rule total_comparator.cmp_swap [OF assms(1)], rule total_comparator.cmp_swap [OF assms(2)])
  show "then_with (c1 b a) (c2 b a) = reverse_ordering (then_with (c1 a b) (c2 a b))"
    by (cases "c1 a b") (simp_all add: swap1 [where x = a and y = b] swap2 [where x = a and y = b])
  have le1: "c1 x y \<noteq> Greater \<Longrightarrow> c1 y z \<noteq> Greater \<Longrightarrow> c1 x z \<noteq> Greater"
    and le2: "c2 x y \<noteq> Greater \<Longrightarrow> c2 y z \<noteq> Greater \<Longrightarrow> c2 x z \<noteq> Greater" for x y z
    using assms total_comparator.cmp_trans unfolding cmp_le_def by metis+
  have eq: "c1 x z = Equal \<Longrightarrow> c1 x y \<noteq> Greater \<Longrightarrow> c1 y z \<noteq> Greater \<Longrightarrow> c1 x y = Equal \<and> c1 y z = Equal" for x y z
    using le1 [of y z x] le1 [of z x y] swap1 [where y = z and x = x] swap1 [where y = y and x = x]
      swap1 [where y = z and x = y]
    by (cases "c1 x y"; cases "c1 y z"; simp)
  assume "cmp_le (\<lambda>a b. then_with (c1 a b) (c2 a b)) a b" "cmp_le (\<lambda>a b. then_with (c1 a b) (c2 a b)) b c"
  then have n: "c1 a b \<noteq> Greater" "c1 b c \<noteq> Greater"
    and l: "c1 a b = Equal \<Longrightarrow> c2 a b \<noteq> Greater" "c1 b c = Equal \<Longrightarrow> c2 b c \<noteq> Greater"
    by (cases "c1 a b"; cases "c1 b c"; simp add: cmp_le_def)+
  show "cmp_le (\<lambda>a b. then_with (c1 a b) (c2 a b)) a c"
  proof (cases "c1 a c")
    case Equal
    with eq [OF Equal n] l le2 show ?thesis by (simp add: cmp_le_def)
  qed (use le1 [OF n] in \<open>simp_all add: cmp_le_def\<close>)
qed

lemmas comparator_intros = total_comparator_then total_comparator_reverse [of "\<lambda>a b. ord_cmp (f a) (f b)" for f]
  total_comparator_reverse [of "\<lambda>a b. option_cmp (f a) (f b)" for f]
  total_comparator_ord total_comparator_option

lemma then_with_Equal [simp]: "then_with a b = Equal \<longleftrightarrow> a = Equal \<and> b = Equal"
  by (cases a) simp_all

lemma ord_cmp_Equal [simp]: "ord_cmp a b = Equal \<longleftrightarrow> a = b"
  by (simp add: ord_cmp_def)

lemma ord_cmp_not_Greater: "ord_cmp a b \<noteq> Greater \<longleftrightarrow> a \<le> b"
  by (auto simp: ord_cmp_def)

end
