(* ===== verification/Float64.thy ===== *)
theory Float64
  imports Complex_Main Ordering "HOL-Library.Log_Nat"
begin

text \<open>
  Rust's \<open>f64\<close>: IEEE 754 binary64 with rounding to nearest, ties to even. A value is a
  finite rational, a negative zero, an infinity or a NaN; \<open>f64_round\<close> rounds an exact rational
  to the format (53 significant bits, least exponent \<open>-1074\<close>, overflow at \<open>2 ^ 1024\<close>), and each
  operation computes the exact result and rounds it once. Comparison is \<open>PartialOrd\<close> (false on
  NaN, the zeros equal); \<open>total_cmp\<close> is the total order of the standard, here with a single
  positive NaN. The lemmas used by the components are that rounding is monotone and keeps small
  integers, so that a ratio of counts stays in the unit interval after rounding.
\<close>

datatype f64 = NaN | PosInf | NegInf | NegZero | Fin rat

section \<open>Rounding\<close>

definition round_even :: "rat \<Rightarrow> int" where
  "round_even x =
     (let f = \<lfloor>x\<rfloor>; d = x - of_int f in
      if d < 1 / 2 then f else if 1 / 2 < d then f + 1 else if even f then f else f + 1)"

text \<open>The exponent of a positive rational: the \<open>e\<close> with \<open>2 ^ e \<le> x < 2 ^ (e + 1)\<close>.\<close>

definition expo :: "rat \<Rightarrow> int" where
  "expo x =
     (let (n, d) = quotient_of x;
          e = bitlen n - bitlen d
      in if x < 2 powi e then e - 1 else e)"

definition ulp_exp :: "rat \<Rightarrow> int" where
  "ulp_exp x = max (expo \<bar>x\<bar> - 52) (- 1074)"

definition round_rat :: "rat \<Rightarrow> rat" where
  "round_rat x =
     (if x = 0 then 0 else of_int (round_even (x / 2 powi ulp_exp x)) * 2 powi ulp_exp x)"

definition f64_round :: "rat \<Rightarrow> f64" where
  "f64_round x =
     (let r = round_rat x in
      if 2 ^ 1024 \<le> r then PosInf else if r \<le> - (2 ^ 1024) then NegInf
      else if r = 0 then (if x < 0 then NegZero else Fin 0) else Fin r)"

text \<open>\<open>n as f64\<close>, and a decimal literal \<open>n / d\<close>.\<close>

definition f64_of_nat :: "nat \<Rightarrow> f64" where "f64_of_nat n = f64_round (of_nat n)"
definition f64_of_int :: "int \<Rightarrow> f64" where "f64_of_int n = f64_round (of_int n)"
definition f64_lit :: "int \<Rightarrow> int \<Rightarrow> f64" where "f64_lit n d = f64_round (of_int n / of_int d)"

section \<open>Operations\<close>

fun f64_neg :: "f64 \<Rightarrow> bool" where
  "f64_neg NaN = False"
| "f64_neg PosInf = False"
| "f64_neg NegInf = True"
| "f64_neg NegZero = True"
| "f64_neg (Fin r) = (r < 0)"

fun f64_val :: "f64 \<Rightarrow> rat" where
  "f64_val (Fin r) = r"
| "f64_val _ = 0"

fun is_finite :: "f64 \<Rightarrow> bool" where
  "is_finite (Fin r) = True"
| "is_finite NegZero = True"
| "is_finite _ = False"

fun f64_uminus :: "f64 \<Rightarrow> f64" where
  "f64_uminus NaN = NaN"
| "f64_uminus PosInf = NegInf"
| "f64_uminus NegInf = PosInf"
| "f64_uminus NegZero = Fin 0"
| "f64_uminus (Fin r) = (if r = 0 then NegZero else Fin (- r))"

definition f64_abs :: "f64 \<Rightarrow> f64" where
  "f64_abs a = (if f64_neg a then f64_uminus a else a)"

fun f64_add :: "f64 \<Rightarrow> f64 \<Rightarrow> f64" where
  "f64_add NaN b = NaN"
| "f64_add a NaN = NaN"
| "f64_add PosInf NegInf = NaN"
| "f64_add NegInf PosInf = NaN"
| "f64_add PosInf b = PosInf"
| "f64_add NegInf b = NegInf"
| "f64_add a PosInf = PosInf"
| "f64_add a NegInf = NegInf"
| "f64_add NegZero b = b"
| "f64_add a NegZero = a"
| "f64_add (Fin a) (Fin b) = f64_round (a + b)"

definition f64_sub :: "f64 \<Rightarrow> f64 \<Rightarrow> f64" where
  "f64_sub a b = f64_add a (f64_uminus b)"

definition f64_zero :: "bool \<Rightarrow> f64" where "f64_zero neg = (if neg then NegZero else Fin 0)"
definition f64_inf :: "bool \<Rightarrow> f64" where "f64_inf neg = (if neg then NegInf else PosInf)"

definition f64_mul :: "f64 \<Rightarrow> f64 \<Rightarrow> f64" where
  "f64_mul a b =
     (let neg = (f64_neg a \<noteq> f64_neg b) in
      if a = NaN \<or> b = NaN then NaN
      else if is_finite a \<and> is_finite b
      then (if f64_val a * f64_val b = 0 then f64_zero neg else f64_round (f64_val a * f64_val b))
      else if (is_finite a \<and> f64_val a = 0) \<or> (is_finite b \<and> f64_val b = 0) then NaN
      else f64_inf neg)"

definition f64_div :: "f64 \<Rightarrow> f64 \<Rightarrow> f64" where
  "f64_div a b =
     (let neg = (f64_neg a \<noteq> f64_neg b) in
      if a = NaN \<or> b = NaN then NaN
      else if is_finite a \<and> is_finite b
      then (if f64_val b = 0 then (if f64_val a = 0 then NaN else f64_inf neg)
            else if f64_val a = 0 then f64_zero neg else f64_round (f64_val a / f64_val b))
      else if is_finite b then f64_inf neg
      else if is_finite a then f64_zero neg
      else NaN)"

fun f64_lt :: "f64 \<Rightarrow> f64 \<Rightarrow> bool" where
  "f64_lt NaN b = False"
| "f64_lt a NaN = False"
| "f64_lt a NegInf = False"
| "f64_lt NegInf b = True"
| "f64_lt PosInf b = False"
| "f64_lt a PosInf = True"
| "f64_lt a b = (f64_val a < f64_val b)"

definition f64_eq :: "f64 \<Rightarrow> f64 \<Rightarrow> bool" where
  "f64_eq a b \<longleftrightarrow> a \<noteq> NaN \<and> b \<noteq> NaN \<and> (a = b \<or> (is_finite a \<and> is_finite b \<and> f64_val a = f64_val b))"

definition f64_le :: "f64 \<Rightarrow> f64 \<Rightarrow> bool" where
  "f64_le a b \<longleftrightarrow> f64_lt a b \<or> f64_eq a b"

text \<open>\<open>f64::max\<close> and \<open>f64::min\<close> ignore a NaN; \<open>clamp\<close> keeps it.\<close>

definition f64_max :: "f64 \<Rightarrow> f64 \<Rightarrow> f64" where
  "f64_max a b = (if a = NaN then b else if b = NaN then a else if f64_lt a b then b else a)"
definition f64_min :: "f64 \<Rightarrow> f64 \<Rightarrow> f64" where
  "f64_min a b = (if a = NaN then b else if b = NaN then a else if f64_lt b a then b else a)"
definition f64_clamp :: "f64 \<Rightarrow> f64 \<Rightarrow> f64 \<Rightarrow> f64" where
  "f64_clamp a lo hi = (let x = (if f64_lt a lo then lo else a) in if f64_lt hi x then hi else x)"

text \<open>\<open>iter().sum::<f64>()\<close> folds from \<open>-0.0\<close>.\<close>

definition f64_sum :: "f64 list \<Rightarrow> f64" where
  "f64_sum xs = foldl f64_add NegZero xs"

text \<open>The sort key of \<open>total_cmp\<close>.\<close>

fun total_key :: "f64 \<Rightarrow> nat \<times> rat \<times> nat" where
  "total_key NegInf = (0, 0, 0)"
| "total_key NegZero = (1, 0, 0)"
| "total_key (Fin r) = (1, r, 1)"
| "total_key PosInf = (2, 0, 0)"
| "total_key NaN = (3, 0, 0)"

definition total_cmp :: "f64 \<Rightarrow> f64 \<Rightarrow> ordering" where
  "total_cmp a b = ord_cmp (total_key a) (total_key b)"

lemma total_key_inject [simp]: "total_key a = total_key b \<longleftrightarrow> a = b"
  by (cases a; cases b) auto

definition in_unit :: "f64 \<Rightarrow> bool" where
  "in_unit a \<longleftrightarrow> is_finite a \<and> 0 \<le> f64_val a \<and> f64_val a \<le> 1"

section \<open>Rounding lemmas\<close>

lemma round_even_cases: "round_even x = \<lfloor>x\<rfloor> \<or> round_even x = \<lfloor>x\<rfloor> + 1"
  by (simp add: round_even_def Let_def)

lemma round_even_of_int [simp]: "round_even (of_int n) = n"
  by (simp add: round_even_def)

lemma round_even_mono:
  assumes "x \<le> y"
  shows "round_even x \<le> round_even y"
proof (cases "\<lfloor>x\<rfloor> = \<lfloor>y\<rfloor>")
  case True
  with assms show ?thesis by (auto simp: round_even_def Let_def)
next
  case False
  with floor_mono [OF assms] have "\<lfloor>x\<rfloor> + 1 \<le> \<lfloor>y\<rfloor>" by linarith
  with round_even_cases [of x] round_even_cases [of y] show ?thesis by linarith
qed

lemma floorlog_bounds:
  assumes "0 < n"
  shows "2 powi (int (floorlog 2 n) - 1) \<le> (of_nat n :: rat)" "(of_nat n :: rat) < 2 powi int (floorlog 2 n)"
proof -
  have b: "2 ^ (floorlog 2 n - 1) \<le> n" "n < 2 ^ floorlog 2 n" "0 < floorlog 2 n"
    using assms floorlog_bounds [of n 2] by (auto simp: floorlog_def)
  then have "(2 :: rat) ^ (floorlog 2 n - 1) \<le> of_nat n" "(of_nat n :: rat) < 2 ^ floorlog 2 n"
    by (metis of_nat_le_iff of_nat_numeral of_nat_power, metis of_nat_less_iff of_nat_numeral of_nat_power)
  moreover have "int (floorlog 2 n) - 1 = int (floorlog 2 n - 1)" using b by linarith
  ultimately show "2 powi (int (floorlog 2 n) - 1) \<le> (of_nat n :: rat)" "(of_nat n :: rat) < 2 powi int (floorlog 2 n)"
    by (simp_all only: power_int_of_nat)
qed

lemma powi_2_add: "(2 :: rat) powi (a + b) = 2 powi a * 2 powi b"
  by (simp add: power_int_add)

lemma powi_2_pos [simp]: "0 < (2 :: rat) powi e"
  by simp

lemma powi_2_mono: "a \<le> b \<Longrightarrow> (2 :: rat) powi a \<le> 2 powi b"
  by (simp add: power_int_increasing)

lemma expo_bounds:
  assumes "0 < x"
  shows "2 powi expo x \<le> x" "x < 2 powi (expo x + 1)"
proof -
  obtain n d where q: "quotient_of x = (n, d)" by fastforce
  from q have d: "0 < d" by (rule quotient_of_denom_pos)
  from q have x: "x = of_int n / of_int d" by (rule quotient_of_div)
  with assms d have n: "0 < n" by (simp add: zero_less_divide_iff)
  define a b where "a = int (floorlog 2 (nat n))" and "b = int (floorlog 2 (nat d))"
  have na: "2 powi (a - 1) \<le> (of_int n :: rat)" "(of_int n :: rat) < 2 powi a"
    using floorlog_bounds [of "nat n"] n by (simp_all add: a_def)
  have db: "2 powi (b - 1) \<le> (of_int d :: rat)" "(of_int d :: rat) < 2 powi b"
    using floorlog_bounds [of "nat d"] d by (simp_all add: b_def)
  have lo: "2 powi (a - b - 1) \<le> x"
  proof -
    have "2 powi (a - b - 1) * (of_int d :: rat) \<le> 2 powi (a - b - 1) * 2 powi b"
      using db by (intro mult_left_mono) simp_all
    also have "\<dots> = 2 powi (a - 1)" by (simp flip: powi_2_add)
    finally show ?thesis using na d by (simp add: x pos_le_divide_eq)
  qed
  have hi: "x < 2 powi (a - b + 1)"
  proof -
    have "2 powi a = 2 powi (a - b + 1) * (2 :: rat) powi (b - 1)" by (simp flip: powi_2_add)
    also have "\<dots> \<le> 2 powi (a - b + 1) * of_int d"
      using db by (intro mult_left_mono) simp_all
    finally show ?thesis using na d by (simp add: x pos_divide_less_eq)
  qed
  have e: "expo x = (if x < 2 powi (a - b) then a - b - 1 else a - b)"
    by (simp add: expo_def q a_def b_def bitlen_def Let_def)
  show "2 powi expo x \<le> x" "x < 2 powi (expo x + 1)"
    using lo hi by (simp_all add: e)
qed

lemma expo_le:
  assumes "0 < x" "x < 2 powi (k + 1)"
  shows "expo x \<le> k"
proof (rule ccontr)
  assume "\<not> expo x \<le> k"
  then have "2 powi (k + 1) \<le> (2 :: rat) powi expo x" by (intro powi_2_mono) simp
  with expo_bounds(1) [OF assms(1)] assms(2) show False by linarith
qed

lemma expo_mono: "0 < x \<Longrightarrow> x \<le> y \<Longrightarrow> expo x \<le> expo y"
  using expo_bounds(2) [of y] by (intro expo_le) auto

lemma round_even_uminus: "round_even (- x) = - round_even x"
proof (cases "x = of_int \<lfloor>x\<rfloor>")
  case True
  then show ?thesis by (metis of_int_minus round_even_of_int)
next
  case False
  then have "\<lfloor>- x\<rfloor> = - \<lfloor>x\<rfloor> - 1"
    using floor_correct [of x] by (intro floor_unique) (auto simp: less_le)
  then show ?thesis by (auto simp: round_even_def Let_def)
qed

lemma round_rat_uminus [simp]: "round_rat (- x) = - round_rat x"
  by (simp add: round_rat_def ulp_exp_def round_even_uminus)

lemma round_rat_0 [simp]: "round_rat 0 = 0"
  by (simp add: round_rat_def)

lemma round_rat_exact:
  assumes "x = of_int m * 2 powi ulp_exp x"
  shows "round_rat x = x"
proof -
  from assms have "x / 2 powi ulp_exp x = of_int m" by (metis nonzero_mult_div_cancel_right powi_2_pos less_irrefl)
  with assms show ?thesis by (simp add: round_rat_def)
qed

lemma powi_2_split: "q \<le> k \<Longrightarrow> (2 :: rat) powi k = of_int (2 ^ nat (k - q)) * 2 powi q"
proof -
  assume "q \<le> k"
  then have "(2 :: rat) powi (k - q) = of_int (2 ^ nat (k - q))" by (simp add: power_int_def)
  moreover have "(2 :: rat) powi k = 2 powi (k - q) * 2 powi q" by (simp flip: powi_2_add)
  ultimately show ?thesis by simp
qed

lemma round_rat_le_pow:
  assumes "0 < x" "x \<le> 2 powi k" "ulp_exp x \<le> k"
  shows "round_rat x \<le> 2 powi k"
proof -
  let ?q = "ulp_exp x"
  note k = powi_2_split [OF assms(3)]
  have "x / 2 powi ?q \<le> of_int (2 ^ nat (k - ?q))"
    using assms(2) by (simp add: pos_divide_le_eq k)
  from round_even_mono [OF this] have "round_even (x / 2 powi ?q) \<le> 2 ^ nat (k - ?q)"
    by (simp only: round_even_of_int)
  then have "(of_int (round_even (x / 2 powi ?q)) :: rat) \<le> of_int (2 ^ nat (k - ?q))"
    by (simp only: of_int_le_iff)
  with assms(1) show ?thesis unfolding k by (simp add: round_rat_def)
qed

lemma round_rat_ge_pow:
  assumes "2 powi k \<le> x" "ulp_exp x \<le> k"
  shows "2 powi k \<le> round_rat x"
proof -
  let ?q = "ulp_exp x"
  note k = powi_2_split [OF assms(2)]
  have x: "0 < x" using assms(1) powi_2_pos [of k] by linarith
  have "of_int (2 ^ nat (k - ?q)) \<le> x / 2 powi ?q"
    using assms(1) by (simp add: pos_le_divide_eq k)
  from round_even_mono [OF this] have "2 ^ nat (k - ?q) \<le> round_even (x / 2 powi ?q)"
    by (simp only: round_even_of_int)
  then have "(of_int (2 ^ nat (k - ?q)) :: rat) \<le> of_int (round_even (x / 2 powi ?q))"
    by (simp only: of_int_le_iff)
  with x show ?thesis unfolding k by (simp add: round_rat_def)
qed

lemma round_rat_nonneg:
  assumes "0 \<le> x"
  shows "0 \<le> round_rat x"
proof -
  have "0 \<le> x / 2 powi ulp_exp x" using assms by simp
  from round_even_mono [of 0, OF this] show ?thesis
    using round_even_of_int [of 0] by (simp add: round_rat_def)
qed

lemma round_rat_mono_pos:
  assumes "0 < x" "x \<le> y"
  shows "round_rat x \<le> round_rat y"
proof (cases "ulp_exp x = ulp_exp y")
  case True
  from assms have "x / 2 powi ulp_exp x \<le> y / 2 powi ulp_exp x"
    by (intro divide_right_mono) simp_all
  from round_even_mono [OF this] assms True show ?thesis by (simp add: round_rat_def)
next
  case False
  let ?k = "expo y"
  have "expo x \<le> ?k" using assms by (rule expo_mono)
  with False assms have q: "ulp_exp y \<le> ?k" "ulp_exp x \<le> ?k" "expo x + 1 \<le> ?k"
    by (auto simp: ulp_exp_def)
  have "x \<le> 2 powi ?k"
    using expo_bounds(2) [OF assms(1)] powi_2_mono [OF q(3)] by linarith
  then have "round_rat x \<le> 2 powi ?k" using assms q by (intro round_rat_le_pow) auto
  also have "\<dots> \<le> round_rat y" using assms q expo_bounds(1) [of y] by (intro round_rat_ge_pow) auto
  finally show ?thesis .
qed

lemma round_rat_mono:
  assumes "x \<le> y"
  shows "round_rat x \<le> round_rat y"
proof (cases "0 < x \<or> 0 \<le> y")
  case True
  then show ?thesis
    using assms round_rat_mono_pos [of x y] round_rat_nonneg [of y] round_rat_nonneg [of "- x"]
    by (cases "0 < x") auto
next
  case False
  with assms round_rat_mono_pos [of "- y" "- x"] show ?thesis by simp
qed

lemma round_rat_int:
  assumes "\<bar>n\<bar> < 2 ^ 53"
  shows "round_rat (of_int n) = of_int n"
proof (cases "n = 0")
  case False
  have "\<bar>of_int n\<bar> < (2 :: rat) ^ 53"
    using assms by (metis of_int_abs of_int_less_iff of_int_numeral of_int_power)
  then have "expo \<bar>of_int n\<bar> \<le> 52" using False by (intro expo_le) (simp_all add: power_int_def)
  then have q: "ulp_exp (of_int n) \<le> 0" by (simp add: ulp_exp_def)
  have "(of_int n :: rat) = of_int (n * 2 ^ nat (- ulp_exp (of_int n))) * 2 powi ulp_exp (of_int n)"
    using powi_2_split [OF q] by simp
  then show ?thesis by (rule round_rat_exact)
qed simp

lemma round_rat_1 [simp]: "round_rat 1 = 1"
  using round_rat_int [of 1] by simp

lemma round_rat_in_unit: "0 \<le> x \<Longrightarrow> x \<le> 1 \<Longrightarrow> 0 \<le> round_rat x \<and> round_rat x \<le> 1"
  using round_rat_mono [of x 1] by (simp add: round_rat_nonneg)

section \<open>Consequences for the operations\<close>

lemma f64_val_round: "is_finite (f64_round x) \<Longrightarrow> f64_val (f64_round x) = round_rat x"
  by (auto simp: f64_round_def Let_def split: if_splits)

lemma f64_round_finite: "\<bar>round_rat x\<bar> < 2 ^ 1024 \<Longrightarrow> is_finite (f64_round x)"
  by (auto simp: f64_round_def Let_def)

lemma f64_round_unit: "0 \<le> x \<Longrightarrow> x \<le> 1 \<Longrightarrow> in_unit (f64_round x)"
proof -
  assume "0 \<le> x" "x \<le> 1"
  then have r: "0 \<le> round_rat x" "round_rat x \<le> 1" using round_rat_in_unit by auto
  have "(1 :: rat) < 2 ^ 1024" by (rule one_less_power) simp_all
  with r show ?thesis
    using f64_round_finite [of x] f64_val_round [of x] by (simp add: in_unit_def)
qed

lemma f64_of_nat_small:
  assumes "n < 2 ^ 53"
  shows "f64_of_nat n = Fin (of_nat n)"
proof -
  have r: "round_rat (of_nat n) = of_nat n"
    using round_rat_int [of "int n"] assms by (simp add: nat_less_iff)
  have "(of_nat n :: rat) < 2 ^ 53" using assms by (metis of_nat_less_iff of_nat_numeral of_nat_power)
  also have "\<dots> \<le> 2 ^ 1024" by (rule power_increasing) simp_all
  finally have b: "(of_nat n :: rat) < 2 ^ 1024" .
  have "- (2 ^ 1024) < (0 :: rat)" by simp
  also have "0 \<le> (of_nat n :: rat)" by simp
  finally show ?thesis using b r by (auto simp: f64_of_nat_def f64_round_def Let_def)
qed

text \<open>The ratio of two counts \<open>a \<le> b\<close>, computed in \<open>f64\<close>, is in the unit interval.\<close>

lemma f64_count_finite:
  assumes "n < 2 ^ 64"
  shows "is_finite (f64_of_nat n)" "f64_val (f64_of_nat n) = round_rat (of_nat n)"
proof -
  have "(of_nat n :: rat) \<le> 2 powi 64"
    using assms by (simp add: power_int_def)
  moreover have "round_rat ((2 :: rat) ^ 64) \<le> 2 powi 64"
  proof (rule round_rat_le_pow)
    have "expo ((2 :: rat) ^ 64) \<le> 64" by (rule expo_le) (simp_all add: power_int_def)
    then show "ulp_exp ((2 :: rat) ^ 64) \<le> 64" by (simp add: ulp_exp_def)
  qed (simp_all add: power_int_def)
  ultimately have "round_rat (of_nat n) \<le> 2 ^ 64"
    using round_rat_mono [of "of_nat n" "2 ^ 64"] by (simp add: power_int_def)
  also have "(2 :: rat) ^ 64 < 2 ^ 1024" by (rule power_strict_increasing) simp_all
  finally have "\<bar>round_rat (of_nat n)\<bar> < 2 ^ 1024" using round_rat_nonneg [of "of_nat n"] by simp
  then show "is_finite (f64_of_nat n)" unfolding f64_of_nat_def by (rule f64_round_finite)
  then show "f64_val (f64_of_nat n) = round_rat (of_nat n)" unfolding f64_of_nat_def by (rule f64_val_round)
qed

lemma round_rat_nat_pos: "0 < n \<Longrightarrow> 1 \<le> round_rat (of_nat n)"
  using round_rat_mono [of 1 "of_nat n"] by simp

lemma f64_ratio_unit:
  assumes "a \<le> b" "0 < b" "b < 2 ^ 64"
  shows "in_unit (f64_div (f64_of_nat a) (f64_of_nat b))"
proof -
  have fa: "is_finite (f64_of_nat a)" "f64_val (f64_of_nat a) = round_rat (of_nat a)"
    and fb: "is_finite (f64_of_nat b)" "f64_val (f64_of_nat b) = round_rat (of_nat b)"
    using f64_count_finite assms by auto
  have pos: "1 \<le> round_rat (of_nat b)" using assms by (simp add: round_rat_nat_pos)
  have le: "round_rat (of_nat a) \<le> round_rat (of_nat b)" using assms by (intro round_rat_mono) simp
  have u: "in_unit (f64_round (round_rat (of_nat a) / round_rat (of_nat b)))"
    using pos le round_rat_nonneg [of "of_nat a"] by (intro f64_round_unit) (auto simp: divide_le_eq)
  have nn: "f64_of_nat a \<noteq> NaN" "f64_of_nat b \<noteq> NaN" using fa fb by auto
  show ?thesis using pos u nn fa fb
    by (auto simp: f64_div_def Let_def f64_zero_def in_unit_def)
qed

lemma f64_clamp_unit: "a \<noteq> NaN \<Longrightarrow> in_unit (f64_clamp a (Fin 0) (Fin 1))"
  by (cases a) (auto simp: f64_clamp_def in_unit_def Let_def)

lemma total_comparator_total_cmp: "total_comparator (\<lambda>a b. total_cmp (f a) (f b))"
  unfolding total_cmp_def by (rule total_comparator_ord)

end
