(* ===== verification/Model.thy ===== *)
theory Model
  imports Float64
begin

text \<open>
  The data of \<open>model.rs\<close> the search pipeline works on: the enumerations, the bounded values
  \<open>Rank\<close> and \<open>RankingScore\<close>, and the structs that flow through parsing, routing,
  normalisation, canonicalisation, deduplication, ranking and diversity. Field names carry a prefix
  per struct; constructors shared by several enums carry a prefix per enum.

  A parsed \<open>Url\<close> is represented by its serialisation: equality, order and hashing of
  \<open>url::Url\<close> are those of the serialised string.
\<close>

type_synonym url = rstr

definition SCHEMA_VERSION :: rstr where "SCHEMA_VERSION = lit ''1''"

section \<open>Bounded values\<close>

type_synonym rank = u32
type_synonym score = f64

datatype ValueInvariantError = Inv_Rank | Inv_RankingScore

definition rank_new :: "u32 \<Rightarrow> ValueInvariantError + rank" where
  "rank_new value = (if value = 0 then Err Inv_Rank else Ok value)"

definition rank_first :: rank where "rank_first = 1"
definition rank_max :: rank where "rank_max = - 1"

definition score_new :: "f64 \<Rightarrow> ValueInvariantError + score" where
  "score_new value =
     (if is_finite value \<and> f64_le (Fin 0) value \<and> f64_le value (Fin 1) then Ok value
      else Err Inv_RankingScore)"

definition bounded :: "f64 \<Rightarrow> score" where
  "bounded value = (if is_finite value then f64_clamp value (Fin 0) (Fin 1) else Fin 0)"

lemma in_unit_iff: "in_unit a \<longleftrightarrow> is_finite a \<and> f64_le (Fin 0) a \<and> f64_le a (Fin 1)"
  by (cases a) (auto simp: in_unit_def f64_le_def f64_eq_def)

lemma score_new_Ok: "score_new v = Ok s \<longleftrightarrow> s = v \<and> in_unit v"
  by (auto simp: score_new_def in_unit_iff)

lemma bounded_unit [simp]: "in_unit (bounded v)"
  by (cases v) (auto simp: bounded_def f64_clamp_def in_unit_def Let_def)

lemma bounded_id: "in_unit v \<Longrightarrow> bounded v = v"
  by (cases v) (auto simp: bounded_def f64_clamp_def in_unit_def Let_def)

section \<open>Enumerations\<close>

datatype SearchStatus = Search_Success | Search_PartialSuccess | Search_Failure

fun search_status_as_str :: "SearchStatus \<Rightarrow> string" where
  "search_status_as_str Search_Success = ''success''"
| "search_status_as_str Search_PartialSuccess = ''partial_success''"
| "search_status_as_str Search_Failure = ''failure''"

datatype ResultStatus = Visible | RelegatedByDiversity

datatype Category =
    Cat_General | Cat_Technical | Cat_Code | Cat_Documentation | Cat_News | Cat_Academic
  | Cat_Commercial | Cat_Forum | Cat_Social | Cat_Media | Cat_Navigation

fun category_index :: "Category \<Rightarrow> nat" where
  "category_index Cat_General = 0"
| "category_index Cat_Technical = 1"
| "category_index Cat_Code = 2"
| "category_index Cat_Documentation = 3"
| "category_index Cat_News = 4"
| "category_index Cat_Academic = 5"
| "category_index Cat_Commercial = 6"
| "category_index Cat_Forum = 7"
| "category_index Cat_Social = 8"
| "category_index Cat_Media = 9"
| "category_index Cat_Navigation = 10"

lemma category_index_inject: "category_index a = category_index b \<Longrightarrow> a = b"
  by (cases a; cases b) simp_all

text \<open>The derived \<open>Ord\<close> follows the order of the declaration.\<close>

instantiation Category :: linorder
begin
definition less_eq_Category :: "Category \<Rightarrow> Category \<Rightarrow> bool" where
  "less_eq_Category a b \<longleftrightarrow> category_index a \<le> category_index b"
definition less_Category :: "Category \<Rightarrow> Category \<Rightarrow> bool" where
  "less_Category a b \<longleftrightarrow> category_index a < category_index b"
instance
  by intro_classes (auto simp: less_eq_Category_def less_Category_def intro: category_index_inject)
end

datatype ResultType =
    Rt_Organic | Rt_News | Rt_Media | Rt_Document | Rt_Code | Rt_Forum | Rt_Social
  | Rt_Commercial | Rt_Navigation | Rt_Other

fun result_type_index :: "ResultType \<Rightarrow> nat" where
  "result_type_index Rt_Organic = 0"
| "result_type_index Rt_News = 1"
| "result_type_index Rt_Media = 2"
| "result_type_index Rt_Document = 3"
| "result_type_index Rt_Code = 4"
| "result_type_index Rt_Forum = 5"
| "result_type_index Rt_Social = 6"
| "result_type_index Rt_Commercial = 7"
| "result_type_index Rt_Navigation = 8"
| "result_type_index Rt_Other = 9"

lemma result_type_index_inject: "result_type_index a = result_type_index b \<Longrightarrow> a = b"
  by (cases a; cases b) simp_all

instantiation ResultType :: linorder
begin
definition less_eq_ResultType :: "ResultType \<Rightarrow> ResultType \<Rightarrow> bool" where
  "less_eq_ResultType a b \<longleftrightarrow> result_type_index a \<le> result_type_index b"
definition less_ResultType :: "ResultType \<Rightarrow> ResultType \<Rightarrow> bool" where
  "less_ResultType a b \<longleftrightarrow> result_type_index a < result_type_index b"
instance
  by intro_classes (auto simp: less_eq_ResultType_def less_ResultType_def intro: result_type_index_inject)
end

datatype ProviderExecutionStatus = Exec_Success | Exec_Partial | Exec_Failure

datatype ProviderErrorKind =
    Pe_Timeout | Pe_RateLimit | Pe_Auth | Pe_Network | Pe_InvalidResponse | Pe_ParserError
  | Pe_Quota | Pe_Unavailable

datatype FieldProvenance = Reported | Derived

datatype CanonicalizationStatus = Can_Complete | Can_Degraded

datatype CanonicalTransformation =
    LowercaseScheme | LowercaseHost | IdnToPunycode | RemoveDefaultPort | AddRootPath
  | NormalizePercentHex | RemoveTrackingParameter rstr | RemoveEmptyFragment

datatype DuplicateStatus = ConfirmedDuplicate | PossibleDuplicate | Distinct

datatype MergeReason = OriginalUrlExact | CanonicalUrlExact

datatype TieBreakReason = CombinedScore | TitleMatch | StableOrder

text \<open>The errors of \<open>storage.rs\<close>; only \<open>Operation\<close> comes from a running statement.\<close>

datatype StorageError =
    Se_Open | Operation | Se_Corrupt rstr | Se_IncompatibleVersion i64 i64 | Se_LockContention
  | Se_Filesystem rstr | Se_DiskFull u64 u64 | Se_PermissionDenied

section \<open>Structs\<close>

record query_warning =
  qw_code :: rstr
  qw_operator :: "rstr option"
  qw_value :: "rstr option"
  qw_message :: rstr

record degradation =
  deg_code :: rstr
  deg_component :: rstr
  deg_message :: rstr

record query =
  q_schema_version :: rstr
  q_raw_query :: rstr
  q_normalized_query :: rstr
  q_quoted_terms :: "rstr list"
  q_excluded_terms :: "rstr list"
  q_domains :: "rstr list"
  q_excluded_domains :: "rstr list"
  q_file_types :: "rstr list"
  q_language :: "rstr option"
  q_region :: "rstr option"
  q_date_from :: "rstr option"
  q_date_to :: "rstr option"
  q_warnings :: "query_warning list"

record classification =
  cl_schema_version :: rstr
  cl_primary_category :: Category
  cl_secondary_categories :: "Category list"
  cl_confidence :: f64
  cl_confidence_by_category :: "(Category \<times> f64) list"
  cl_reasons :: "rstr list"

record provider_capabilities =
  cap_schema_version :: rstr
  cap_pagination :: bool
  cap_language :: bool
  cap_region :: bool
  cap_time_range :: bool
  cap_site_filter :: bool
  cap_file_filter :: bool
  cap_news :: bool
  cap_code :: bool
  cap_docs :: bool
  cap_academic :: bool
  cap_authentication :: bool
  cap_estimated_cost :: "u64 option"

record provider_error =
  pe_schema_version :: rstr
  pe_provider :: rstr
  pe_kind :: ProviderErrorKind
  pe_message :: rstr
  pe_retry_after_ms :: "u64 option"

record composite_error =
  ce_code :: rstr
  ce_message :: rstr
  ce_providers :: "rstr list"
  ce_recoverable :: bool

record global_budget_snapshot =
  gb_max_provider_calls :: u32
  gb_remaining_provider_calls :: u32
  gb_deadline_ms :: u64

record search_plan =
  sp_schema_version :: rstr
  sp_query :: query
  sp_classification :: classification
  sp_selected_providers :: "rstr list"
  sp_provider_priority :: "rstr list"
  sp_provider_budget_requests :: "(rstr \<times> u32) list"
  sp_provider_budgets :: "(rstr \<times> u32) list"
  sp_global_budget :: global_budget_snapshot
  sp_ranking_reference_time :: rstr
  sp_fallback_policy :: rstr
  sp_expansion_policy :: rstr
  sp_stop_conditions :: "rstr list"
  sp_debug_reasons :: "rstr list"

record provider_item =
  pi_title :: "rstr option"
  pi_url :: rstr
  pi_provider_rank :: "rank option"
  pi_snippet :: "rstr option"
  pi_result_type :: "ResultType option"
  pi_published_at :: "rstr option"
  pi_author :: "rstr option"
  pi_language :: "rstr option"
  pi_file_type :: "rstr option"
  pi_thumbnail :: "rstr option"
  pi_metadata :: "(rstr \<times> rstr) list"

record provider_result =
  pr_schema_version :: rstr
  pr_provider :: rstr
  pr_status :: ProviderExecutionStatus
  pr_results :: "provider_item list"
  pr_accepted_filters :: "rstr list"
  pr_ignored_filters :: "rstr list"
  pr_approximated_filters :: "rstr list"
  pr_errors :: "provider_error list"

record normalized_result =
  nr_schema_version :: rstr
  nr_title :: "rstr option"
  nr_raw_url :: rstr
  nr_url :: url
  nr_provider :: rstr
  nr_provider_rank :: "rank option"
  nr_snippet :: "rstr option"
  nr_result_type :: ResultType
  nr_published_at :: "rstr option"
  nr_author :: "rstr option"
  nr_language :: "rstr option"
  nr_file_type :: "rstr option"
  nr_thumbnail :: "rstr option"
  nr_metadata :: "(rstr \<times> rstr) list"
  nr_provenance :: "(rstr \<times> FieldProvenance) list"
  nr_degradations :: "degradation list"

record canonical_result =
  cr_schema_version :: rstr
  cr_title :: "rstr option"
  cr_original_url :: url
  cr_canonical_url :: url
  cr_provider :: rstr
  cr_provider_rank :: "rank option"
  cr_snippet :: "rstr option"
  cr_result_type :: ResultType
  cr_published_at :: "rstr option"
  cr_author :: "rstr option"
  cr_language :: "rstr option"
  cr_file_type :: "rstr option"
  cr_thumbnail :: "rstr option"
  cr_metadata :: "(rstr \<times> rstr) list"
  cr_provenance :: "(rstr \<times> FieldProvenance) list"
  cr_transformations :: "CanonicalTransformation list"
  cr_canonicalization_status :: CanonicalizationStatus
  cr_degradations :: "degradation list"

record deduplicated_result =
  dr_schema_version :: rstr
  dr_title :: "rstr option"
  dr_original_url :: url
  dr_canonical_url :: url
  dr_original_urls :: "url list"
  dr_providers :: "rstr list"
  dr_representative_provider :: rstr
  dr_provider_ranks :: "(rstr \<times> rank option) list"
  dr_snippet :: "rstr option"
  dr_alternate_snippets :: "rstr list"
  dr_result_type :: ResultType
  dr_published_at :: "rstr option"
  dr_author :: "rstr option"
  dr_language :: "rstr option"
  dr_file_type :: "rstr option"
  dr_thumbnail :: "rstr option"
  dr_metadata :: "(rstr \<times> rstr) list"
  dr_observed_dates :: "rstr list"
  dr_duplicate_status :: DuplicateStatus
  dr_merge_reason :: "MergeReason option"
  dr_possible_duplicate_with :: "url list"

record ranking_explanation =
  re_ranking_policy :: rstr
  re_rrf :: score
  re_title_match :: score
  re_snippet_match :: score
  re_freshness :: score
  re_provider_agreement :: score
  re_combined_score :: score
  re_tie_break :: TieBreakReason

record ranked_result =
  rr_result :: deduplicated_result
  rr_score :: score
  rr_title_match :: score
  rr_stable_order :: nat
  rr_explanation :: ranking_explanation

record search_result =
  sr_schema_version :: rstr
  sr_rank :: rank
  sr_title :: "rstr option"
  sr_original_url :: url
  sr_canonical_url :: url
  sr_domain :: rstr
  sr_snippet :: "rstr option"
  sr_providers :: "rstr list"
  sr_published_at :: "rstr option"
  sr_status :: ResultStatus

datatype RelevanceAssessmentStatus = NotImplemented | Assessed | InsufficientEvidence

record relevance_metrics =
  rm_status :: RelevanceAssessmentStatus
  rm_relevant_primary :: "u32 option"
  rm_relevant_expansion :: "u32 option"
  rm_unique_relevant_primary :: "u32 option"
  rm_unique_relevant_expansion :: "u32 option"
  rm_possibly_relevant_primary :: "u32 option"
  rm_possibly_relevant_expansion :: "u32 option"
  rm_not_relevant_primary :: "u32 option"
  rm_not_relevant_expansion :: "u32 option"
  rm_unknown_primary :: "u32 option"
  rm_unknown_expansion :: "u32 option"
  rm_expansion_relevant_ratio :: "f64 option"
  rm_raw_to_relevant_expansion_ratio :: "f64 option"
  rm_expansion_confirmed_noise_rate :: "f64 option"
  rm_expansion_noise_rate :: "f64 option"

definition relevance_metrics_default :: relevance_metrics where
  "relevance_metrics_default = \<lparr> rm_status = NotImplemented,
     rm_relevant_primary = None, rm_relevant_expansion = None,
     rm_unique_relevant_primary = None, rm_unique_relevant_expansion = None,
     rm_possibly_relevant_primary = None, rm_possibly_relevant_expansion = None,
     rm_not_relevant_primary = None, rm_not_relevant_expansion = None,
     rm_unknown_primary = None, rm_unknown_expansion = None,
     rm_expansion_relevant_ratio = None, rm_raw_to_relevant_expansion_ratio = None,
     rm_expansion_confirmed_noise_rate = None, rm_expansion_noise_rate = None \<rparr>"

record complementarity_metrics =
  cm_schema_version :: rstr
  cm_found_primary :: u32
  cm_found_expansion :: u32
  cm_overlap_confirmed :: u32
  cm_overlap_possible :: u32
  cm_unique_primary :: u32
  cm_unique_expansion :: u32
  cm_primary_unique_domains :: u32
  cm_expansion_unique_domains :: u32
  cm_final_unique_domains :: u32
  cm_expansion_new_domains :: u32
  cm_expansion_overlap_ratio :: "f64 option"
  cm_expansion_unique_ratio :: "f64 option"
  cm_relevance :: relevance_metrics

record search_response =
  rs_schema_version :: rstr
  rs_query :: rstr
  rs_status :: SearchStatus
  rs_results :: "search_result list"
  rs_providers_used :: "rstr list"
  rs_providers_failed :: "rstr list"
  rs_providers_partial :: "rstr list"
  rs_errors :: "composite_error list"
  rs_degradations :: "degradation list"
  rs_elapsed_ms :: u64
  rs_complementarity :: "complementarity_metrics option"
  rs_total_results :: "u64 option"
  rs_page :: "u32 option"
  rs_page_size :: "u32 option"

end
