(* ===== verification/Circuit.thy ===== *)
theory Circuit
  imports Model BTree
begin

text \<open>
  The persistent provider circuit breaker: \<open>circuit.rs\<close> with the \<open>provider_circuit\<close>
  table of \<open>storage.rs\<close>. A breaker is its policy, the in-memory records by provider, the
  table when persistence is configured, and whether the mutex around the records is poisoned
  (every method then falls back as the source does). Whether SQLite executes a statement is an
  argument \<open>io\<close> of the operations that write or read the table: a failed write is ignored,
  a failed load starts the breaker empty. Logging is not modelled.

  \<open>history_record\<close> is the abstract contract: what the breaker knows of a provider is its
  trailing run of failures. The refinement lemma shows the code keeps exactly that.
\<close>

section \<open>The persisted table\<close>

record stored_circuit_record =
  scr_provider :: rstr
  scr_consecutive_failures :: u32
  scr_opened_at :: "i64 option"
  scr_open_until :: "i64 option"
  scr_updated_at :: i64

text \<open>A row as SQLite holds it: the failure count is an \<open>INTEGER\<close> column.\<close>

record circuit_row =
  row_consecutive_failures :: int
  row_opened_at :: "i64 option"
  row_open_until :: "i64 option"
  row_updated_at :: i64

type_synonym circuit_table = "(rstr, circuit_row) btree_map"

definition circuit_put ::
    "bool \<Rightarrow> stored_circuit_record \<Rightarrow> circuit_table \<Rightarrow> (StorageError + unit) \<times> circuit_table" where
  "circuit_put io r t =
     (if io then (Ok (), bt_insert (scr_provider r)
        \<lparr>row_consecutive_failures = uint (scr_consecutive_failures r), row_opened_at = scr_opened_at r,
         row_open_until = scr_open_until r, row_updated_at = scr_updated_at r\<rparr> t)
      else (Err Operation, t))"

definition circuit_load :: "bool \<Rightarrow> circuit_table \<Rightarrow> StorageError + stored_circuit_record list" where
  "circuit_load io t =
     (if io then Ok (map (\<lambda>(p, row).
        \<lparr>scr_provider = p, scr_consecutive_failures = word_of_int (max 0 (row_consecutive_failures row)),
         scr_opened_at = row_opened_at row, scr_open_until = row_open_until row,
         scr_updated_at = row_updated_at row\<rparr>) t)
      else Err Operation)"

definition circuit_clear :: "bool \<Rightarrow> circuit_table \<Rightarrow> (StorageError + u64) \<times> circuit_table" where
  "circuit_clear io t = (if io then (Ok (of_nat (length t)), bt_empty) else (Err Operation, t))"

section \<open>The breaker\<close>

record circuit_policy =
  enabled :: bool
  failure_threshold :: u32
  open_seconds :: u64

definition circuit_policy_default :: circuit_policy where
  "circuit_policy_default = \<lparr>enabled = True, failure_threshold = 3, open_seconds = 60\<rparr>"

definition circuit_policy_validate :: "circuit_policy \<Rightarrow> string + unit" where
  "circuit_policy_validate p =
     (if \<not> (1 \<le> failure_threshold p \<and> failure_threshold p \<le> 100)
      then Err ''circuit_breaker.failure_threshold must be between 1 and 100''
      else if \<not> (1 \<le> open_seconds p \<and> open_seconds p \<le> 3600)
      then Err ''circuit_breaker.open_seconds must be between 1 and 3600''
      else Ok ())"

datatype CircuitState = Closed | Open | HalfOpen

fun allows_call_state :: "CircuitState \<Rightarrow> bool" where
  "allows_call_state Closed = True"
| "allows_call_state Open = False"
| "allows_call_state HalfOpen = True"

record circuit_record =
  consecutive_failures :: u32
  opened_at :: "i64 option"
  open_until :: "i64 option"

definition circuit_record_default :: circuit_record where
  "circuit_record_default = \<lparr>consecutive_failures = 0, opened_at = None, open_until = None\<rparr>"

record circuit_snapshot =
  cs_provider :: rstr
  cs_state :: CircuitState
  cs_consecutive_failures :: u32
  cs_open_until :: "i64 option"

record provider_circuit =
  policy :: circuit_policy
  storage :: "circuit_table option"
  records :: "(rstr, circuit_record) btree_map"
  poisoned :: bool

definition circuit_new :: "circuit_policy \<Rightarrow> provider_circuit" where
  "circuit_new p = \<lparr>policy = p, storage = None, records = bt_empty, poisoned = False\<rparr>"

definition restored :: "bool \<Rightarrow> circuit_policy \<Rightarrow> circuit_table option \<Rightarrow> provider_circuit" where
  "restored io p st =
     \<lparr>policy = p, storage = st,
      records = (case st of None \<Rightarrow> bt_empty
        | Some t \<Rightarrow> (case circuit_load io t of Err _ \<Rightarrow> bt_empty
            | Ok rows \<Rightarrow> bt_collect (map (\<lambda>row. (scr_provider row,
                \<lparr>consecutive_failures = scr_consecutive_failures row,
                 opened_at = scr_opened_at row, open_until = scr_open_until row\<rparr>)) rows))),
      poisoned = False\<rparr>"

definition circuit_state :: "provider_circuit \<Rightarrow> rstr \<Rightarrow> i64 \<Rightarrow> CircuitState" where
  "circuit_state c provider now =
     (if \<not> enabled (policy c) then Closed
      else if poisoned c then Closed
      else case Option.bind (bt_get (records c) provider) open_until of
        Some until \<Rightarrow> if now < until then Open else HalfOpen
      | None \<Rightarrow> Closed)"

definition allows_call :: "provider_circuit \<Rightarrow> rstr \<Rightarrow> i64 \<Rightarrow> bool" where
  "allows_call c provider now = allows_call_state (circuit_state c provider now)"

definition circuit_update :: "circuit_policy \<Rightarrow> bool \<Rightarrow> i64 \<Rightarrow> circuit_record \<Rightarrow> circuit_record" where
  "circuit_update p success now r =
     (if success then circuit_record_default
      else let r1 = r\<lparr>consecutive_failures := saturating_add (consecutive_failures r) 1\<rparr> in
        if failure_threshold p \<le> consecutive_failures r1
        then r1\<lparr>opened_at := Some now,
                open_until := Some (i64_saturating_add now (u64_as_i64 (open_seconds p)))\<rparr>
        else r1)"

definition record_outcome :: "bool \<Rightarrow> provider_circuit \<Rightarrow> rstr \<Rightarrow> bool \<Rightarrow> i64 \<Rightarrow> provider_circuit" where
  "record_outcome io c provider success now =
     (if \<not> enabled (policy c) then c
      else if poisoned c then c
      else let recs = bt_entry provider circuit_record_default (circuit_update (policy c) success now) (records c);
               updated = (case bt_get recs provider of None \<Rightarrow> circuit_record_default | Some r \<Rightarrow> r);
               c1 = c\<lparr>records := recs\<rparr>
           in case storage c1 of None \<Rightarrow> c1
              | Some t \<Rightarrow> c1\<lparr>storage := Some (snd (circuit_put io
                  \<lparr>scr_provider = provider, scr_consecutive_failures = consecutive_failures updated,
                   scr_opened_at = opened_at updated, scr_open_until = open_until updated,
                   scr_updated_at = now\<rparr> t))\<rparr>)"

definition snapshots :: "provider_circuit \<Rightarrow> i64 \<Rightarrow> circuit_snapshot list" where
  "snapshots c now =
     (if poisoned c then []
      else map (\<lambda>(provider, r).
        \<lparr>cs_provider = provider,
         cs_state = (if \<not> enabled (policy c) then Closed
           else case open_until r of
             Some until \<Rightarrow> if now < until then Open else HalfOpen
           | None \<Rightarrow> Closed),
         cs_consecutive_failures = consecutive_failures r, cs_open_until = open_until r\<rparr>)
        (records c))"

definition reset :: "bool \<Rightarrow> provider_circuit \<Rightarrow> provider_circuit" where
  "reset io c =
     (let c1 = (if poisoned c then c else c\<lparr>records := bt_empty\<rparr>)
      in case storage c1 of None \<Rightarrow> c1
         | Some t \<Rightarrow> c1\<lparr>storage := Some (snd (circuit_clear io t))\<rparr>)"

section \<open>Runs and the abstract contract\<close>

text \<open>
  An event is one recorded call outcome, with the fate of its write to SQLite. What the contract
  remembers of a provider is the run of failures since its last success, latest first.
\<close>

record event =
  ev_io :: bool
  ev_provider :: rstr
  ev_success :: bool
  ev_now :: i64

definition circuit_step :: "provider_circuit \<Rightarrow> event \<Rightarrow> provider_circuit" where
  "circuit_step c e = record_outcome (ev_io e) c (ev_provider e) (ev_success e) (ev_now e)"

definition circuit_run :: "provider_circuit \<Rightarrow> event list \<Rightarrow> provider_circuit" where
  "circuit_run c es = foldl circuit_step c es"

definition trailing_failures :: "rstr \<Rightarrow> event list \<Rightarrow> event list" where
  "trailing_failures q es = takeWhile (\<lambda>e. \<not> ev_success e) (rev (filter (\<lambda>e. ev_provider e = q) es))"

definition failure_record :: "circuit_policy \<Rightarrow> event list \<Rightarrow> circuit_record" where
  "failure_record p fs =
     (case fs of [] \<Rightarrow> circuit_record_default
      | e # _ \<Rightarrow> let tripped = unat (failure_threshold p) \<le> length fs in
          \<lparr>consecutive_failures = sat32 (length fs),
           opened_at = (if tripped then Some (ev_now e) else None),
           open_until = (if tripped
              then Some (i64_saturating_add (ev_now e) (u64_as_i64 (open_seconds p))) else None)\<rparr>)"

definition history_record :: "circuit_policy \<Rightarrow> rstr \<Rightarrow> event list \<Rightarrow> circuit_record option" where
  "history_record p q es =
     (if \<exists>e\<in>set es. ev_provider e = q then Some (failure_record p (trailing_failures q es)) else None)"

lemma circuit_run_simps [simp]:
  "circuit_run c [] = c" "circuit_run c (es @ [e]) = circuit_step (circuit_run c es) e"
  by (simp_all add: circuit_run_def)

lemma step_frame [simp]:
  "policy (circuit_step c e) = policy c" "poisoned (circuit_step c e) = poisoned c"
  by (auto simp: circuit_step_def record_outcome_def Let_def split: option.splits)

lemma run_frame [simp]:
  "policy (circuit_run c es) = policy c" "poisoned (circuit_run c es) = poisoned c"
  by (induction es rule: rev_induct) simp_all

lemma step_records:
  assumes "enabled (policy c)" "\<not> poisoned c"
  shows "records (circuit_step c e) =
    bt_entry (ev_provider e) circuit_record_default (circuit_update (policy c) (ev_success e) (ev_now e)) (records c)"
  using assms by (simp add: circuit_step_def record_outcome_def Let_def split: option.splits)

lemma step_wf: "bt_wf (records c) \<Longrightarrow> bt_wf (records (circuit_step c e))"
  by (auto simp: circuit_step_def record_outcome_def Let_def bt_entry_wf split: option.splits)

lemma run_wf: "bt_wf (records c) \<Longrightarrow> bt_wf (records (circuit_run c es))"
  by (induction es rule: rev_induct) (simp_all add: step_wf)

text \<open>One failure more: the update of the code is the contract's record of the longer run.\<close>

lemma update_failure_record:
  assumes "\<not> ev_success e"
  shows "circuit_update p False (ev_now e) (failure_record p fs) = failure_record p (e # fs)"
proof -
  have cf: "consecutive_failures (failure_record p fs) = sat32 (length fs)"
    by (simp add: failure_record_def circuit_record_default_def Let_def split: list.splits)
  have trip: "failure_threshold p \<le> sat32 (Suc (length fs))
      \<longleftrightarrow> unat (failure_threshold p) \<le> Suc (length fs)"
    using unat_less_32 [of "failure_threshold p"]
    by (auto simp: word_le_nat_alt unat_sat32)
  have keep: "\<not> unat (failure_threshold p) \<le> Suc (length fs) \<Longrightarrow>
      failure_record p fs = \<lparr>consecutive_failures = sat32 (length fs),
        opened_at = None, open_until = None\<rparr>"
    by (auto simp: failure_record_def circuit_record_default_def Let_def split: list.splits)
  show ?thesis
  proof (cases "unat (failure_threshold p) \<le> Suc (length fs)")
    case True
    then show ?thesis
      by (simp add: circuit_update_def Let_def cf saturating_add_sat32 trip)
        (simp add: failure_record_def Let_def cf)
  next
    case False
    then show ?thesis
      by (simp add: circuit_update_def Let_def cf saturating_add_sat32 trip keep)
        (simp add: failure_record_def Let_def)
  qed
qed

lemma trailing_failures_snoc:
  "trailing_failures q (es @ [e]) =
     (if ev_provider e \<noteq> q then trailing_failures q es
      else if ev_success e then [] else e # trailing_failures q es)"
  by (simp add: trailing_failures_def)

lemma history_record_snoc:
  "history_record p q (es @ [e]) =
     (if ev_provider e \<noteq> q then history_record p q es
      else Some (circuit_update p (ev_success e) (ev_now e)
        (case history_record p q es of None \<Rightarrow> circuit_record_default | Some r \<Rightarrow> r)))"
proof (cases "ev_provider e = q")
  case False
  then show ?thesis by (auto simp: history_record_def trailing_failures_snoc)
next
  case q: True
  have unseen: "\<not> (\<exists>e\<in>set es. ev_provider e = q) \<Longrightarrow> trailing_failures q es = []"
    by (simp add: trailing_failures_def filter_empty_conv [THEN iffD2])
  have prev: "(case history_record p q es of None \<Rightarrow> circuit_record_default | Some r \<Rightarrow> r)
      = failure_record p (trailing_failures q es)"
    using unseen by (auto simp: history_record_def failure_record_def [of p "[]"])
  have now: "history_record p q (es @ [e]) = Some (failure_record p (trailing_failures q (es @ [e])))"
    by (auto simp: history_record_def q)
  show ?thesis
  proof (cases "ev_success e")
    case True
    then show ?thesis
      by (simp add: q prev now trailing_failures_snoc circuit_update_def failure_record_def [of p "[]"])
  next
    case False
    with update_failure_record [OF False, of p] show ?thesis
      by (simp add: q prev now trailing_failures_snoc)
  qed
qed

lemma run_refines_history:
  assumes "enabled (policy c)" "\<not> poisoned c" "records c = bt_empty"
  shows "bt_get (records (circuit_run c es)) q = history_record (policy c) q es"
proof (induction es rule: rev_induct)
  case Nil
  then show ?case using assms by (simp add: history_record_def btm.get_empty)
next
  case (snoc e es)
  have wf: "bt_wf (records (circuit_run c es))"
    using assms(3) by (intro run_wf) (simp add: btm.invar_empty)
  have recs: "records (circuit_step (circuit_run c es) e) =
      bt_entry (ev_provider e) circuit_record_default
        (circuit_update (policy c) (ev_success e) (ev_now e)) (records (circuit_run c es))"
    using assms(1,2) step_records [of "circuit_run c es" e] by simp
  show ?case
    unfolding circuit_run_simps recs history_record_snoc bt_get_entry [OF wf]
    by (auto simp: snoc.IH split: option.splits)
qed

section \<open>Persistence\<close>

text \<open>
  The table mirrors the records when every row, read back as \<open>restored\<close> reads it, is the
  record of its provider.
\<close>

definition row_record :: "circuit_row \<Rightarrow> circuit_record" where
  "row_record row = \<lparr>consecutive_failures = word_of_int (max 0 (row_consecutive_failures row)),
     opened_at = row_opened_at row, open_until = row_open_until row\<rparr>"

definition mirrors :: "circuit_table \<Rightarrow> (rstr, circuit_record) btree_map \<Rightarrow> bool" where
  "mirrors t recs \<longleftrightarrow> bt_wf t \<and> recs = map (\<lambda>(k, row). (k, row_record row)) t"

lemma bt_insert_map_values:
  "map (\<lambda>(k, v). (k, f v)) (bt_insert k v m) = bt_insert k (f v) (map (\<lambda>(k, v). (k, f v)) m)"
  by (induction m) auto

lemma fold_insert_sorted:
  "bt_wf (xs @ ys) \<Longrightarrow> fold (\<lambda>(k, v). bt_insert k v) ys xs = xs @ ys"
proof (induction ys arbitrary: xs)
  case Nil
  then show ?case by simp
next
  case (Cons kv ys)
  obtain k v where kv: "kv = (k, v)" by fastforce
  have "bt_wf (xs @ [(k, v)]) \<Longrightarrow> bt_insert k v xs = xs @ [(k, v)]" for xs
    by (induction xs) (auto simp: bt_wf_def)
  moreover have "bt_wf (xs @ [(k, v)])"
    using Cons.prems by (auto simp: kv bt_wf_def sorted_wrt_append)
  ultimately have "bt_insert k v xs = xs @ [(k, v)]" .
  with Cons.IH [of "xs @ [(k, v)]"] Cons.prems show ?case by (simp add: kv)
qed

lemma bt_collect_sorted: "bt_wf m \<Longrightarrow> bt_collect m = m"
  using fold_insert_sorted [of "[]" m] by (simp add: bt_collect_def bt_empty_def)

lemma mirrors_wf: "mirrors t recs \<Longrightarrow> bt_wf recs"
  by (auto simp: mirrors_def bt_wf_def comp_def case_prod_unfold)

lemma restored_mirror: "mirrors t recs \<Longrightarrow> records (restored True p (Some t)) = recs"
proof -
  assume m: "mirrors t recs"
  then have "bt_collect (map (\<lambda>(k, row). (k, row_record row)) t) = recs"
    using mirrors_wf [OF m] by (simp add: mirrors_def bt_collect_sorted)
  then show ?thesis
    by (simp add: restored_def circuit_load_def comp_def case_prod_unfold row_record_def)
qed

lemma mirrors_put:
  assumes m: "mirrors t recs" and u: "bt_get (bt_entry q d f recs) q = Some r"
  shows "mirrors (snd (circuit_put True \<lparr>scr_provider = q, scr_consecutive_failures = consecutive_failures r,
    scr_opened_at = opened_at r, scr_open_until = open_until r, scr_updated_at = now\<rparr> t)) (bt_entry q d f recs)"
proof -
  let ?row = "\<lparr>row_consecutive_failures = uint (consecutive_failures r), row_opened_at = opened_at r,
    row_open_until = open_until r, row_updated_at = now\<rparr>"
  have row: "row_record ?row = r" by (simp add: row_record_def)
  have "bt_entry q d f recs = bt_insert q r recs"
    using u bt_get_insert [OF mirrors_wf [OF m]] by (simp add: bt_entry_def)
  with m show ?thesis
    by (simp add: mirrors_def circuit_put_def bt_insert_wf bt_insert_map_values row)
qed

lemma step_mirrors:
  assumes "storage c = Some t" "mirrors t (records c)" "ev_io e"
  shows "\<exists>t'. storage (circuit_step c e) = Some t' \<and> mirrors t' (records (circuit_step c e))"
proof (cases "enabled (policy c) \<and> \<not> poisoned c")
  case False
  with assms show ?thesis by (auto simp: circuit_step_def record_outcome_def)
next
  case True
  let ?recs = "bt_entry (ev_provider e) circuit_record_default
    (circuit_update (policy c) (ev_success e) (ev_now e)) (records c)"
  obtain r where r: "bt_get ?recs (ev_provider e) = Some r"
    using bt_get_entry [OF mirrors_wf [OF assms(2)]] by simp
  from mirrors_put [OF assms(2) r, of "ev_now e"] True assms(1,3) r show ?thesis
    by (simp add: circuit_step_def record_outcome_def Let_def)
qed

lemma run_mirrors:
  assumes "storage c = Some t" "mirrors t (records c)" "\<forall>e\<in>set es. ev_io e"
  shows "\<exists>t'. storage (circuit_run c es) = Some t' \<and> mirrors t' (records (circuit_run c es))"
  using assms(3)
proof (induction es rule: rev_induct)
  case Nil
  then show ?case using assms by simp
next
  case (snoc e es)
  then show ?case using step_mirrors [of "circuit_run c es" _ e] by auto
qed

section \<open>Properties\<close>

text \<open>
  C8. The circuit breaker implements its contract. After any sequence of call outcomes (whatever
  the fate of the writes), an enabled breaker refuses a provider exactly while the cooldown of its
  last failure runs and its trailing run of failures has reached the threshold; it probes
  (half-open) once that cooldown is over, and is closed otherwise. A success or the outcomes of
  other providers change nothing for it.
\<close>

theorem circuit_state_contract:
  assumes "enabled p"
  shows "circuit_state (circuit_run (circuit_new p) es) q now =
    (case trailing_failures q es of
       [] \<Rightarrow> Closed
     | e # fs \<Rightarrow>
         if length (e # fs) < unat (failure_threshold p) then Closed
         else if now < i64_saturating_add (ev_now e) (u64_as_i64 (open_seconds p)) then Open
         else HalfOpen)"
proof -
  have "bt_get (records (circuit_run (circuit_new p) es)) q = history_record p q es"
    using run_refines_history [of "circuit_new p" es q] assms by (simp add: circuit_new_def)
  moreover have "trailing_failures q es \<noteq> [] \<Longrightarrow> \<exists>e\<in>set es. ev_provider e = q"
    by (metis (mono_tags, lifting) filter_False rev.simps(1) takeWhile.simps(1) trailing_failures_def)
  ultimately show ?thesis
    using assms
    by (cases "trailing_failures q es")
      (auto simp: circuit_state_def circuit_new_def history_record_def failure_record_def
        circuit_record_default_def Let_def)
qed

theorem circuit_state_contract_witness:
  "enabled circuit_policy_default
   \<and> circuit_state (circuit_run (circuit_new circuit_policy_default)
       (map (\<lambda>t. \<lparr>ev_io = True, ev_provider = [1], ev_success = False, ev_now = t\<rparr>) [10, 20, 30])) [1] 89 = Open
   \<and> circuit_state (circuit_run (circuit_new circuit_policy_default)
       (map (\<lambda>t. \<lparr>ev_io = True, ev_provider = [1], ev_success = False, ev_now = t\<rparr>) [10, 20, 30])) [1] 90 = HalfOpen"
proof -
  have en: "enabled circuit_policy_default" by (simp add: circuit_policy_default_def)
  show ?thesis
    unfolding circuit_state_contract [OF en]
    by (simp add: trailing_failures_def circuit_policy_default_def i64_saturating_add_def
        i64_clamp_def i64_min_def i64_max_def u64_as_i64_def)
qed

text \<open>
  The breaker survives a restart: a breaker whose writes all reached SQLite and the one a new
  process restores from the table have the same records, so they give every provider the same
  state at every time.
\<close>

theorem circuit_survives_restart:
  assumes "\<forall>e\<in>set es. ev_io e"
  shows "let c = circuit_run (restored True p (Some bt_empty)) es;
             c' = restored True p (storage c)
         in records c' = records c \<and> circuit_state c' q now = circuit_state c q now"
proof -
  let ?c0 = "restored True p (Some bt_empty)"
  have "mirrors bt_empty (records ?c0)"
    by (simp add: mirrors_def restored_def circuit_load_def bt_empty_def bt_collect_def bt_wf_def)
  then obtain t where t: "storage (circuit_run ?c0 es) = Some t" "mirrors t (records (circuit_run ?c0 es))"
    using run_mirrors [of ?c0 bt_empty es] assms by (auto simp: restored_def)
  then have "records (restored True p (storage (circuit_run ?c0 es))) = records (circuit_run ?c0 es)"
    by (simp add: restored_mirror)
  then show ?thesis
    by (simp add: Let_def circuit_state_def) (simp add: restored_def)
qed

theorem circuit_survives_restart_witness:
  "let c = circuit_run (restored True circuit_policy_default (Some bt_empty))
         [\<lparr>ev_io = True, ev_provider = [7], ev_success = False, ev_now = 5\<rparr>];
       c' = restored True circuit_policy_default (storage c)
   in records c' = records c \<and> circuit_state c' [7] 6 = circuit_state c [7] 6"
  by (rule circuit_survives_restart) simp

text \<open>
  The public view agrees with the gate: in a breaker reached from a new one, the snapshot list
  has one entry per recorded provider, in order and without repetitions, and the state it shows is
  the state \<open>circuit_state\<close> uses to admit or refuse a call.
\<close>

theorem snapshots_agree:
  "let c = circuit_run (circuit_new p) es in
     sorted_wrt (<) (map cs_provider (snapshots c now))
   \<and> list_all (\<lambda>s. cs_state s = circuit_state c (cs_provider s) now) (snapshots c now)"
proof -
  let ?c = "circuit_run (circuit_new p) es"
  have wf: "bt_wf (records ?c)"
    by (rule run_wf) (simp add: circuit_new_def btm.invar_empty)
  have np: "\<not> poisoned ?c" by (simp add: circuit_new_def)
  have "map cs_provider (snapshots ?c now) = map fst (records ?c)"
    using np by (simp add: snapshots_def comp_def case_prod_unfold)
  moreover have "cs_state s = circuit_state ?c (cs_provider s) now" if "s \<in> set (snapshots ?c now)" for s
    using that np bt_wf_get [OF wf] by (auto simp: snapshots_def circuit_state_def)
  ultimately show ?thesis
    using wf by (simp add: Let_def bt_wf_def list_all_iff)
qed

end
