(* ===== verification/Security.thy ===== *)
theory Security
  imports Prelude
begin

text \<open>
  The outbound address policy of \<open>security.rs\<close>: which URLs, host names and resolved IP
  addresses AMATL may contact. Addresses are those of \<open>std::net\<close>, at their widths, with the
  predicates of the standard library the source calls. The \<open>url\<close> crate is a parameter: the
  record \<open>url_api\<close> holds the functions of \<open>Url\<close> the sources call, over an arbitrary
  type of parsed URLs.
\<close>

section \<open>Addresses\<close>

datatype ipv4 = V4 u8 u8 u8 u8
datatype ipv6 = V6 u16 u16 u16 u16 u16 u16 u16 u16
datatype IpAddr = IpV4 ipv4 | IpV6 ipv6

fun v4_is_private :: "ipv4 \<Rightarrow> bool" where
  "v4_is_private (V4 a b c d) \<longleftrightarrow> a = 10 \<or> (a = 172 \<and> 16 \<le> b \<and> b \<le> 31) \<or> (a = 192 \<and> b = 168)"
fun v4_is_loopback :: "ipv4 \<Rightarrow> bool" where
  "v4_is_loopback (V4 a b c d) \<longleftrightarrow> a = 127"
fun v4_is_link_local :: "ipv4 \<Rightarrow> bool" where
  "v4_is_link_local (V4 a b c d) \<longleftrightarrow> a = 169 \<and> b = 254"
fun v4_is_broadcast :: "ipv4 \<Rightarrow> bool" where
  "v4_is_broadcast (V4 a b c d) \<longleftrightarrow> a = 255 \<and> b = 255 \<and> c = 255 \<and> d = 255"
fun v4_is_documentation :: "ipv4 \<Rightarrow> bool" where
  "v4_is_documentation (V4 a b c d) \<longleftrightarrow> (a = 192 \<and> b = 0 \<and> c = 2)
     \<or> (a = 198 \<and> b = 51 \<and> c = 100) \<or> (a = 203 \<and> b = 0 \<and> c = 113)"
fun v4_is_unspecified :: "ipv4 \<Rightarrow> bool" where
  "v4_is_unspecified (V4 a b c d) \<longleftrightarrow> a = 0 \<and> b = 0 \<and> c = 0 \<and> d = 0"
fun v4_is_multicast :: "ipv4 \<Rightarrow> bool" where
  "v4_is_multicast (V4 a b c d) \<longleftrightarrow> 224 \<le> a \<and> a \<le> 239"

fun to_ipv4_mapped :: "ipv6 \<Rightarrow> ipv4 option" where
  "to_ipv4_mapped (V6 s0 s1 s2 s3 s4 s5 ab cd) =
     (if s0 = 0 \<and> s1 = 0 \<and> s2 = 0 \<and> s3 = 0 \<and> s4 = 0 \<and> s5 = 0xffff
      then Some (V4 (ucast (drop_bit 8 ab)) (ucast ab) (ucast (drop_bit 8 cd)) (ucast cd)) else None)"
fun v6_is_loopback :: "ipv6 \<Rightarrow> bool" where
  "v6_is_loopback (V6 s0 s1 s2 s3 s4 s5 s6 s7) \<longleftrightarrow>
     s0 = 0 \<and> s1 = 0 \<and> s2 = 0 \<and> s3 = 0 \<and> s4 = 0 \<and> s5 = 0 \<and> s6 = 0 \<and> s7 = 1"
fun v6_is_unspecified :: "ipv6 \<Rightarrow> bool" where
  "v6_is_unspecified (V6 s0 s1 s2 s3 s4 s5 s6 s7) \<longleftrightarrow>
     s0 = 0 \<and> s1 = 0 \<and> s2 = 0 \<and> s3 = 0 \<and> s4 = 0 \<and> s5 = 0 \<and> s6 = 0 \<and> s7 = 0"
fun v6_is_multicast :: "ipv6 \<Rightarrow> bool" where
  "v6_is_multicast (V6 s0 s1 s2 s3 s4 s5 s6 s7) \<longleftrightarrow> s0 AND 0xff00 = 0xff00"

fun public_v4 :: "ipv4 \<Rightarrow> bool" where
  "public_v4 (V4 a b c d) \<longleftrightarrow> \<not> (v4_is_private (V4 a b c d)
     \<or> v4_is_loopback (V4 a b c d)
     \<or> v4_is_link_local (V4 a b c d)
     \<or> v4_is_broadcast (V4 a b c d)
     \<or> v4_is_documentation (V4 a b c d)
     \<or> v4_is_unspecified (V4 a b c d)
     \<or> v4_is_multicast (V4 a b c d)
     \<or> a = 0
     \<or> 240 \<le> a
     \<or> (a = 100 \<and> 64 \<le> b \<and> b \<le> 127)
     \<or> (a = 192 \<and> b = 0 \<and> c = 0)
     \<or> (a = 198 \<and> 18 \<le> b \<and> b \<le> 19))"

fun public_v6 :: "ipv6 \<Rightarrow> bool" where
  "public_v6 (V6 s0 s1 s2 s3 s4 s5 s6 s7) \<longleftrightarrow>
     (case to_ipv4_mapped (V6 s0 s1 s2 s3 s4 s5 s6 s7) of
        Some mapped \<Rightarrow> public_v4 mapped
      | None \<Rightarrow> \<not> (v6_is_loopback (V6 s0 s1 s2 s3 s4 s5 s6 s7)
          \<or> v6_is_unspecified (V6 s0 s1 s2 s3 s4 s5 s6 s7)
          \<or> v6_is_multicast (V6 s0 s1 s2 s3 s4 s5 s6 s7)
          \<or> s0 AND 0xfe00 = 0xfc00
          \<or> s0 AND 0xffc0 = 0xfe80
          \<or> (s0 = 0x2001 \<and> s1 = 0x0db8)))"

fun is_public_ip :: "IpAddr \<Rightarrow> bool" where
  "is_public_ip (IpV4 address) = public_v4 address"
| "is_public_ip (IpV6 address) = public_v6 address"

definition validate_resolved_addresses :: "IpAddr list \<Rightarrow> string + unit" where
  "validate_resolved_addresses addresses =
     (if addresses = [] then Err ''dns_empty''
      else if list_ex (\<lambda>address. \<not> is_public_ip address) addresses then Err ''address_blocked''
      else Ok ())"

section \<open>Host names and URLs\<close>

definition blocked_suffixes :: "string list" where
  "blocked_suffixes = [''.localhost'', ''.local'', ''.localdomain'', ''.internal'', ''.intranet'',
     ''.lan'', ''.home'']"

definition blocked_hostname :: "rstr \<Rightarrow> bool" where
  "blocked_hostname h =
     (let host = to_ascii_lowercase (trim_end_matches (\<lambda>c. c = 46) h) in
      46 \<notin> set host \<or> host = lit ''localhost''
      \<or> list_ex (\<lambda>suffix. ends_with host (lit suffix)) blocked_suffixes)"

datatype host = Domain rstr | Ipv4 ipv4 | Ipv6 ipv6

record 'u url_api =
  url_parse :: "rstr \<Rightarrow> 'u option"
  url_as_str :: "'u \<Rightarrow> rstr"
  url_scheme :: "'u \<Rightarrow> rstr"
  url_username :: "'u \<Rightarrow> rstr"
  url_password :: "'u \<Rightarrow> rstr option"
  url_host :: "'u \<Rightarrow> host option"
  url_host_str :: "'u \<Rightarrow> rstr option"
  url_query :: "'u \<Rightarrow> rstr option"
  url_fragment :: "'u \<Rightarrow> rstr option"
  url_set_query :: "rstr option \<Rightarrow> 'u \<Rightarrow> 'u"
  url_set_fragment :: "rstr option \<Rightarrow> 'u \<Rightarrow> 'u"

definition validate_deep_url :: "'u url_api \<Rightarrow> 'u \<Rightarrow> string + unit" where
  "validate_deep_url api url =
     (if \<not> (url_scheme api url = lit ''http'' \<or> url_scheme api url = lit ''https'')
      then Err ''scheme_not_allowed''
      else if url_username api url \<noteq> [] \<or> url_password api url \<noteq> None
      then Err ''embedded_credentials''
      else case url_host api url of
        None \<Rightarrow> Err ''missing_host''
      | Some (Domain domain) \<Rightarrow> if blocked_hostname domain then Err ''host_blocked'' else Ok ()
      | Some (Ipv4 address) \<Rightarrow> if \<not> is_public_ip (IpV4 address) then Err ''address_blocked'' else Ok ()
      | Some (Ipv6 address) \<Rightarrow> if \<not> is_public_ip (IpV6 address) then Err ''address_blocked'' else Ok ())"

definition validate_search_url :: "'u url_api \<Rightarrow> rstr \<Rightarrow> string + 'u" where
  "validate_search_url api raw =
     (case url_parse api raw of
        None \<Rightarrow> Err ''invalid_url''
      | Some url \<Rightarrow> (case validate_deep_url api url of Err e \<Rightarrow> Err e | Ok _ \<Rightarrow> Ok url))"

section \<open>The address policy as a list of CIDR blocks\<close>

text \<open>
  The specification the octet tests implement: an address as a 32-bit number, and the blocks
  (network, prefix length) no outbound connection may reach.
\<close>

fun v4_value :: "ipv4 \<Rightarrow> nat" where
  "v4_value (V4 a b c d) = unat a * 2 ^ 24 + unat b * 2 ^ 16 + unat c * 2 ^ 8 + unat d"

definition in_block :: "nat \<Rightarrow> ipv4 \<times> nat \<Rightarrow> bool" where
  "in_block n blk = (n div 2 ^ (32 - snd blk) = v4_value (fst blk) div 2 ^ (32 - snd blk))"

definition blocked_v4 :: "(ipv4 \<times> nat) list" where
  "blocked_v4 = [(V4 0 0 0 0, 8), (V4 10 0 0 0, 8), (V4 100 64 0 0, 10), (V4 127 0 0 0, 8),
     (V4 169 254 0 0, 16), (V4 172 16 0 0, 12), (V4 192 0 0 0, 24), (V4 192 0 2 0, 24),
     (V4 192 168 0 0, 16), (V4 198 18 0 0, 15), (V4 198 51 100 0, 24), (V4 203 0 113 0, 24),
     (V4 224 0 0 0, 4), (V4 240 0 0 0, 4)]"

lemma unat_less_8: "unat w < 256" for w :: u8
  using unsigned_less [of w, where 'a = nat] by simp

lemma u8_eq_iff: "w = k \<longleftrightarrow> unat w = unat k" for w k :: u8
  by (simp add: word_unat_eq_iff)

lemma octet_div:
  fixes a b c d :: nat
  assumes "a < 256" "b < 256" "c < 256" "d < 256"
  shows "(a * 16777216 + b * 65536 + c * 256 + d) div 16777216 = a"
    and "(a * 16777216 + b * 65536 + c * 256 + d) div 65536 = a * 256 + b"
    and "(a * 16777216 + b * 65536 + c * 256 + d) div 256 = a * 65536 + b * 256 + c"
    and "(a * 16777216 + b * 65536 + c * 256 + d) div 268435456 = a div 16"
    and "(a * 16777216 + b * 65536 + c * 256 + d) div 4194304 = a * 4 + b div 64"
    and "(a * 16777216 + b * 65536 + c * 256 + d) div 1048576 = a * 16 + b div 16"
    and "(a * 16777216 + b * 65536 + c * 256 + d) div 131072 = a * 128 + b div 2"
  using assms by linarith+

lemma octet_block1:
  fixes a :: nat
  assumes "a < 256"
  shows "a div 16 = 14 \<longleftrightarrow> 224 \<le> a \<and> a \<le> 239" and "a div 16 = 15 \<longleftrightarrow> 240 \<le> a"
  using assms by linarith+

lemma digit_eq:
  fixes a k x y m :: nat
  assumes "x < m" "y < m"
  shows "a * m + x = k * m + y \<longleftrightarrow> a = k \<and> x = y"
  using assms
  by (metis add.right_neutral div_less div_mult_self3 mod_less mod_mult_self3 not_less0)

lemma octet_block2:
  fixes a b :: nat
  assumes "a < 256" "b < 256"
  shows "a * 256 + b = 43518 \<longleftrightarrow> a = 169 \<and> b = 254"
    and "a * 256 + b = 49320 \<longleftrightarrow> a = 192 \<and> b = 168"
    and "a * 4 + b div 64 = 401 \<longleftrightarrow> a = 100 \<and> 64 \<le> b \<and> b \<le> 127"
    and "a * 16 + b div 16 = 2753 \<longleftrightarrow> a = 172 \<and> 16 \<le> b \<and> b \<le> 31"
    and "a * 128 + b div 2 = 25353 \<longleftrightarrow> a = 198 \<and> 18 \<le> b \<and> b \<le> 19"
proof -
  have "b div 64 = 1 \<longleftrightarrow> 64 \<le> b \<and> b \<le> 127" "b div 16 = 1 \<longleftrightarrow> 16 \<le> b \<and> b \<le> 31"
    "b div 2 = 9 \<longleftrightarrow> 18 \<le> b \<and> b \<le> 19" by linarith+
  then show "a * 256 + b = 43518 \<longleftrightarrow> a = 169 \<and> b = 254"
    and "a * 256 + b = 49320 \<longleftrightarrow> a = 192 \<and> b = 168"
    and "a * 4 + b div 64 = 401 \<longleftrightarrow> a = 100 \<and> 64 \<le> b \<and> b \<le> 127"
    and "a * 16 + b div 16 = 2753 \<longleftrightarrow> a = 172 \<and> 16 \<le> b \<and> b \<le> 31"
    and "a * 128 + b div 2 = 25353 \<longleftrightarrow> a = 198 \<and> 18 \<le> b \<and> b \<le> 19"
    using assms digit_eq [of b 256 254 a 169] digit_eq [of b 256 168 a 192]
      digit_eq [of "b div 64" 4 1 a 100] digit_eq [of "b div 16" 16 1 a 172]
      digit_eq [of "b div 2" 128 9 a 198]
    by (simp_all add: less_mult_imp_div_less)
qed

lemma octet_block3:
  fixes a b c :: nat
  assumes "a < 256" "b < 256" "c < 256"
  shows "a * 65536 + b * 256 + c = 12582912 \<longleftrightarrow> a = 192 \<and> b = 0 \<and> c = 0"
    and "a * 65536 + b * 256 + c = 12582914 \<longleftrightarrow> a = 192 \<and> b = 0 \<and> c = 2"
    and "a * 65536 + b * 256 + c = 12989284 \<longleftrightarrow> a = 198 \<and> b = 51 \<and> c = 100"
    and "a * 65536 + b * 256 + c = 13303921 \<longleftrightarrow> a = 203 \<and> b = 0 \<and> c = 113"
proof -
  have split: "a * 65536 + b * 256 + c = (k * 256 + l) * 256 + m \<longleftrightarrow> a = k \<and> b = l \<and> c = m"
    if "l < 256" "m < 256" for k l m :: nat
    using assms that digit_eq [of c 256 m "a * 256 + b" "k * 256 + l"] digit_eq [of b 256 l a k]
    by (simp add: algebra_simps)
  show "a * 65536 + b * 256 + c = 12582912 \<longleftrightarrow> a = 192 \<and> b = 0 \<and> c = 0"
    and "a * 65536 + b * 256 + c = 12582914 \<longleftrightarrow> a = 192 \<and> b = 0 \<and> c = 2"
    and "a * 65536 + b * 256 + c = 12989284 \<longleftrightarrow> a = 198 \<and> b = 51 \<and> c = 100"
    and "a * 65536 + b * 256 + c = 13303921 \<longleftrightarrow> a = 203 \<and> b = 0 \<and> c = 113"
    using split [of 0 0 192] split [of 0 2 192] split [of 51 100 198] split [of 0 113 203]
    by simp_all
qed

lemma in_block_octets:
  "list_ex (in_block (v4_value (V4 a b c d))) blocked_v4 \<longleftrightarrow>
     unat a = 0 \<or> unat a = 10 \<or> (unat a = 100 \<and> 64 \<le> unat b \<and> unat b \<le> 127) \<or> unat a = 127
   \<or> (unat a = 169 \<and> unat b = 254) \<or> (unat a = 172 \<and> 16 \<le> unat b \<and> unat b \<le> 31)
   \<or> (unat a = 192 \<and> unat b = 0 \<and> unat c = 0) \<or> (unat a = 192 \<and> unat b = 0 \<and> unat c = 2)
   \<or> (unat a = 192 \<and> unat b = 168) \<or> (unat a = 198 \<and> 18 \<le> unat b \<and> unat b \<le> 19)
   \<or> (unat a = 198 \<and> unat b = 51 \<and> unat c = 100) \<or> (unat a = 203 \<and> unat b = 0 \<and> unat c = 113)
   \<or> (224 \<le> unat a \<and> unat a \<le> 239) \<or> 240 \<le> unat a"
  by (simp add: blocked_v4_def in_block_def octet_div octet_block1 octet_block2 octet_block3 unat_less_8)

lemma public_v4_blocks: "public_v4 a \<longleftrightarrow> \<not> list_ex (in_block (v4_value a)) blocked_v4"
proof (cases a)
  case (V4 a b c d)
  show ?thesis
    unfolding V4 in_block_octets public_v4.simps v4_is_private.simps v4_is_loopback.simps
      v4_is_link_local.simps v4_is_broadcast.simps v4_is_documentation.simps
      v4_is_unspecified.simps v4_is_multicast.simps u8_eq_iff word_le_nat_alt
    by (rule arg_cong [of _ _ Not], rule iffI; elim disjE; simp)
qed

section \<open>IPv6\<close>

fun v6_value :: "ipv6 \<Rightarrow> nat" where
  "v6_value (V6 s0 s1 s2 s3 s4 s5 s6 s7) =
     horner_sum unat (2 ^ 16) [s7, s6, s5, s4, s3, s2, s1, s0]"

lemma unat_less_16: "unat w < 65536" for w :: u16
  using unsigned_less [of w, where 'a = nat] by simp

lemma u16_eq_iff: "w = k \<longleftrightarrow> unat w = unat k" for w k :: u16
  by (simp add: word_unat_eq_iff)

text \<open>Masking off the low \<open>n\<close> bits compares the remaining prefix.\<close>

lemma prefix_mask_eq:
  fixes s k :: "'a::len word"
  assumes "push_bit n (drop_bit n k) = k"
  shows "s AND NOT (mask n) = k \<longleftrightarrow> unat s div 2 ^ n = unat k div 2 ^ n"
proof -
  have clear: "s AND NOT (mask n) = push_bit n (drop_bit n s)"
    by (rule bit_eqI) (auto simp: bit_simps)
  have drop: "drop_bit n (push_bit n (drop_bit n s)) = drop_bit n s"
    by (rule bit_eqI) (auto simp: bit_simps dest: bit_imp_le_length)
  have "s AND NOT (mask n) = k \<longleftrightarrow> drop_bit n s = drop_bit n k"
    unfolding clear using assms drop by metis
  also have "\<dots> \<longleftrightarrow> unat (drop_bit n s) = unat (drop_bit n k)"
    by (simp add: word_unat_eq_iff)
  also have "\<dots> \<longleftrightarrow> unat s div 2 ^ n = unat k div 2 ^ n"
    unfolding unat_drop_bit_eq by (simp add: drop_bit_eq_div)
  finally show ?thesis .
qed

lemma and_mask_u16:
  fixes s :: u16
  shows "s AND 0xff00 = 0xff00 \<longleftrightarrow> unat s div 256 = 255"
    and "s AND 0xfe00 = 0xfc00 \<longleftrightarrow> unat s div 512 = 126"
    and "s AND 0xffc0 = 0xfe80 \<longleftrightarrow> unat s div 64 = 1018"
proof -
  have m: "(0xff00 :: u16) = NOT (mask 8)" "(0xfe00 :: u16) = NOT (mask 9)" "(0xffc0 :: u16) = NOT (mask 6)"
    by (simp_all add: mask_eq_exp_minus_1)
  show "s AND 0xff00 = 0xff00 \<longleftrightarrow> unat s div 256 = 255"
    using prefix_mask_eq [of 8 "0xff00 :: u16" s] unfolding m(1) [symmetric] by simp
  show "s AND 0xfe00 = 0xfc00 \<longleftrightarrow> unat s div 512 = 126"
    using prefix_mask_eq [of 9 "0xfc00 :: u16" s] unfolding m(2) [symmetric] by simp
  show "s AND 0xffc0 = 0xfe80 \<longleftrightarrow> unat s div 64 = 1018"
    using prefix_mask_eq [of 6 "0xfe80 :: u16" s] unfolding m(3) [symmetric] by simp
qed

definition in_block6 :: "nat \<Rightarrow> ipv6 \<times> nat \<Rightarrow> bool" where
  "in_block6 n blk = (n div 2 ^ (128 - snd blk) = v6_value (fst blk) div 2 ^ (128 - snd blk))"

definition blocked_v6 :: "(ipv6 \<times> nat) list" where
  "blocked_v6 = [(V6 0 0 0 0 0 0 0 1, 128), (V6 0 0 0 0 0 0 0 0, 128), (V6 0xff00 0 0 0 0 0 0 0, 8),
     (V6 0xfc00 0 0 0 0 0 0 0, 7), (V6 0xfe80 0 0 0 0 0 0 0, 10), (V6 0x2001 0x0db8 0 0 0 0 0 0, 32)]"

lemma segment_div:
  fixes x t :: nat
  assumes "t < 2 ^ k"
  shows "(x * 2 ^ k + t) div 2 ^ (k + j) = x div 2 ^ j"
  using assms by (simp add: power_add div_mult2_eq)

lemma v6_value_head:
  "\<exists>t < 2 ^ 96. v6_value (V6 s0 s1 s2 s3 s4 s5 s6 s7) = (unat s0 * 65536 + unat s1) * 2 ^ 96 + t"
proof -
  let ?t = "unat s7 + 65536 * (unat s6 + 65536 * (unat s5 + 65536 * (unat s4 + 65536 *
    (unat s3 + 65536 * unat s2))))"
  have "?t < 2 ^ 96"
    using unat_less_16 [of s2] unat_less_16 [of s3] unat_less_16 [of s4] unat_less_16 [of s5]
      unat_less_16 [of s6] unat_less_16 [of s7] by simp
  moreover have "v6_value (V6 s0 s1 s2 s3 s4 s5 s6 s7) = (unat s0 * 65536 + unat s1) * 2 ^ 96 + ?t"
    by simp
  ultimately show ?thesis by blast
qed

lemma v6_value_prefixes:
  "v6_value (V6 s0 s1 s2 s3 s4 s5 s6 s7) div 2 ^ 96 = unat s0 * 65536 + unat s1"
  "v6_value (V6 s0 s1 s2 s3 s4 s5 s6 s7) div 2 ^ 118 = unat s0 div 64"
  "v6_value (V6 s0 s1 s2 s3 s4 s5 s6 s7) div 2 ^ 120 = unat s0 div 256"
  "v6_value (V6 s0 s1 s2 s3 s4 s5 s6 s7) div 2 ^ 121 = unat s0 div 512"
proof -
  let ?v = "v6_value (V6 s0 s1 s2 s3 s4 s5 s6 s7)"
  obtain t where t: "t < 2 ^ 96" "?v = (unat s0 * 65536 + unat s1) * 2 ^ 96 + t"
    using v6_value_head by blast
  have at: "?v div 2 ^ (96 + j) = (unat s0 * 65536 + unat s1) div 2 ^ j" for j
    unfolding t(2) by (rule segment_div [OF t(1)])
  have s0: "(unat s0 * 65536 + unat s1) div 2 ^ (16 + j) = unat s0 div 2 ^ j" for j
    using segment_div [of "unat s1" 16 "unat s0" j] unat_less_16 [of s1] by simp
  show "?v div 2 ^ 96 = unat s0 * 65536 + unat s1" using at [of 0] by simp
  show "?v div 2 ^ 118 = unat s0 div 64" using at [of 22] s0 [of 6] by simp
  show "?v div 2 ^ 120 = unat s0 div 256" using at [of 24] s0 [of 8] by simp
  show "?v div 2 ^ 121 = unat s0 div 512" using at [of 25] s0 [of 9] by simp
qed

lemma v6_value_small:
  "v6_value (V6 s0 s1 s2 s3 s4 s5 s6 s7) = 0 \<longleftrightarrow> v6_is_unspecified (V6 s0 s1 s2 s3 s4 s5 s6 s7)"
  "v6_value (V6 s0 s1 s2 s3 s4 s5 s6 s7) = 1 \<longleftrightarrow> v6_is_loopback (V6 s0 s1 s2 s3 s4 s5 s6 s7)"
proof -
  show "v6_value (V6 s0 s1 s2 s3 s4 s5 s6 s7) = 0 \<longleftrightarrow> v6_is_unspecified (V6 s0 s1 s2 s3 s4 s5 s6 s7)"
    by (auto simp: unat_0_iff)
  let ?w = "unat s6 + 65536 * (unat s5 + 65536 * (unat s4 + 65536 *
    (unat s3 + 65536 * (unat s2 + 65536 * (unat s1 + 65536 * unat s0)))))"
  have "v6_value (V6 s0 s1 s2 s3 s4 s5 s6 s7) = ?w * 65536 + unat s7" by simp
  then have "v6_value (V6 s0 s1 s2 s3 s4 s5 s6 s7) = 1 \<longleftrightarrow> ?w * 65536 + unat s7 = 0 * 65536 + 1"
    by (simp only: mult_zero_left add_0)
  also have "\<dots> \<longleftrightarrow> ?w = 0 \<and> unat s7 = 1"
    by (rule digit_eq) (use unat_less_16 [of s7] in simp_all)
  finally have "v6_value (V6 s0 s1 s2 s3 s4 s5 s6 s7) = 1 \<longleftrightarrow> ?w = 0 \<and> unat s7 = 1" .
  then show "v6_value (V6 s0 s1 s2 s3 s4 s5 s6 s7) = 1 \<longleftrightarrow> v6_is_loopback (V6 s0 s1 s2 s3 s4 s5 s6 s7)"
    unfolding v6_is_loopback.simps u16_eq_iff by (simp del: v6_value.simps) blast
qed

lemma in_block6_segments:
  "list_ex (in_block6 (v6_value (V6 s0 s1 s2 s3 s4 s5 s6 s7))) blocked_v6 \<longleftrightarrow>
     v6_is_loopback (V6 s0 s1 s2 s3 s4 s5 s6 s7) \<or> v6_is_unspecified (V6 s0 s1 s2 s3 s4 s5 s6 s7)
   \<or> v6_is_multicast (V6 s0 s1 s2 s3 s4 s5 s6 s7) \<or> s0 AND 0xfe00 = 0xfc00 \<or> s0 AND 0xffc0 = 0xfe80
   \<or> (s0 = 0x2001 \<and> s1 = 0x0db8)"
proof -
  let ?a = "V6 s0 s1 s2 s3 s4 s5 s6 s7"
  have doc: "unat s0 * 65536 + unat s1 = 536939960 \<longleftrightarrow> s0 = 0x2001 \<and> s1 = 0x0db8"
    using digit_eq [of "unat s1" 65536 3512 "unat s0" 8193] unat_less_16 [of s1]
    by (simp add: u16_eq_iff)
  have nets: "v6_value (V6 0 0 0 0 0 0 0 1) = 1" "v6_value (V6 0 0 0 0 0 0 0 0) = 0"
    "v6_value (V6 0xff00 0 0 0 0 0 0 0) div 2 ^ 120 = 255"
    "v6_value (V6 0xfc00 0 0 0 0 0 0 0) div 2 ^ 121 = 126"
    "v6_value (V6 0xfe80 0 0 0 0 0 0 0) div 2 ^ 118 = 1018"
    "v6_value (V6 0x2001 0x0db8 0 0 0 0 0 0) div 2 ^ 96 = 536939960"
    unfolding v6_value_prefixes by simp_all
  show ?thesis
    unfolding blocked_v6_def list_ex_iff list.set in_block6_def fst_conv snd_conv
      v6_is_multicast.simps and_mask_u16
    using v6_value_small [of s0 s1 s2 s3 s4 s5 s6 s7] v6_value_prefixes [of s0 s1 s2 s3 s4 s5 s6 s7] doc nets
    by (simp del: v6_value.simps v6_is_loopback.simps v6_is_unspecified.simps One_nat_def)
qed

lemma public_v6_blocks:
  "public_v6 a \<longleftrightarrow> (case to_ipv4_mapped a of
     Some m \<Rightarrow> public_v4 m | None \<Rightarrow> \<not> list_ex (in_block6 (v6_value a)) blocked_v6)"
proof (cases a)
  case (V6 s0 s1 s2 s3 s4 s5 s6 s7)
  show ?thesis unfolding V6 in_block6_segments public_v6.simps ..
qed

lemma validate_resolved_ok:
  "validate_resolved_addresses xs = Ok () \<longleftrightarrow> xs \<noteq> [] \<and> list_all is_public_ip xs"
  by (auto simp: validate_resolved_addresses_def list_ex_iff list_all_iff)

section \<open>Host names\<close>

lemma trim_end_dot [simp]: "trim_end_matches (\<lambda>c. c = 46) (h @ [46]) = trim_end_matches (\<lambda>c. c = 46) h"
  by (simp add: trim_end_matches_def)

lemma lower_fixed: "list_all (\<lambda>c. \<not> is_ascii_upper c) s \<Longrightarrow> to_ascii_lowercase s = s"
  by (induction s) (auto simp: to_ascii_lowercase_def ascii_lower_def)

lemma trim_end_no_dot: "s \<noteq> [] \<Longrightarrow> last s \<noteq> 46 \<Longrightarrow> trim_end_matches (\<lambda>c. c = 46) s = s"
  by (cases s rule: rev_cases) (auto simp: trim_end_matches_def)

lemma suffix_shape:
  "x \<in> set blocked_suffixes \<Longrightarrow> lit x \<noteq> [] \<and> last (lit x) \<noteq> 46 \<and> list_all (\<lambda>c. \<not> is_ascii_upper c) (lit x)"
  by (auto simp: blocked_suffixes_def is_ascii_upper_def)

lemma blocked_suffix_host:
  assumes "x \<in> set blocked_suffixes"
  shows "blocked_hostname (h @ lit x)"
proof -
  note shape = suffix_shape [OF assms]
  have "trim_end_matches (\<lambda>c. c = 46) (h @ lit x) = h @ lit x"
    using shape by (intro trim_end_no_dot) auto
  moreover have "to_ascii_lowercase (h @ lit x) = to_ascii_lowercase h @ lit x"
    using lower_fixed [of "lit x"] shape by (simp add: to_ascii_lowercase_def)
  ultimately show ?thesis
    using assms by (auto simp: blocked_hostname_def Let_def list_ex_iff ends_with_iff)
qed

lemma map_ascii_lower_eq_dot: "ascii_lower c = 46 \<longleftrightarrow> c = 46"
  by (auto simp: ascii_lower_def is_ascii_upper_def)

lemma trim_end_lower:
  "trim_end_matches (\<lambda>c. c = 46) (to_ascii_lowercase h) = to_ascii_lowercase (trim_end_matches (\<lambda>c. c = 46) h)"
  by (simp add: trim_end_matches_def to_ascii_lowercase_def rev_map dropWhile_map comp_def
      map_ascii_lower_eq_dot)

section \<open>Properties\<close>

text \<open>
  C6. The resolved-address gate is exactly the documented block catalogue: a DNS answer passes
  when it is not empty and every address of it lies outside all blocked networks, where an
  IPv4-mapped IPv6 address counts as the IPv4 address it carries. One private address in the
  answer is enough to refuse it.
\<close>

theorem resolved_addresses_policy:
  "validate_resolved_addresses xs = Ok () \<longleftrightarrow> xs \<noteq> [] \<and> list_all (\<lambda>a.
     case a of
       IpV4 v \<Rightarrow> \<not> list_ex (in_block (v4_value v)) blocked_v4
     | IpV6 v \<Rightarrow> (case to_ipv4_mapped v of
           Some m \<Rightarrow> \<not> list_ex (in_block (v4_value m)) blocked_v4
         | None \<Rightarrow> \<not> list_ex (in_block6 (v6_value v)) blocked_v6)) xs"
proof -
  have "is_public_ip a \<longleftrightarrow> (case a of
       IpV4 v \<Rightarrow> \<not> list_ex (in_block (v4_value v)) blocked_v4
     | IpV6 v \<Rightarrow> (case to_ipv4_mapped v of
           Some m \<Rightarrow> \<not> list_ex (in_block (v4_value m)) blocked_v4
         | None \<Rightarrow> \<not> list_ex (in_block6 (v6_value v)) blocked_v6))" for a
    by (cases a) (simp_all add: public_v4_blocks public_v6_blocks split: option.splits)
  then show ?thesis
    by (simp add: validate_resolved_ok list_all_iff)
qed

text \<open>
  C5. The URL gate admits nothing else: an accepted search URL parsed, has scheme http or https,
  carries no credentials, and names either a public address or a host name that is dotted and not
  under a local suffix.
\<close>

theorem accepted_url_is_safe:
  assumes "validate_search_url api raw = Ok url"
  shows "url_parse api raw = Some url
    \<and> url_scheme api url \<in> {lit ''http'', lit ''https''}
    \<and> url_username api url = [] \<and> url_password api url = None
    \<and> (case url_host api url of
         None \<Rightarrow> False
       | Some (Domain d) \<Rightarrow>
           46 \<in> set (to_ascii_lowercase (trim_end_matches (\<lambda>c. c = 46) d))
           \<and> list_all (\<lambda>x. \<not> ends_with (to_ascii_lowercase (trim_end_matches (\<lambda>c. c = 46) d)) (lit x))
               [''.localhost'', ''.local'', ''.localdomain'', ''.internal'', ''.intranet'', ''.lan'', ''.home'']
       | Some (Ipv4 v) \<Rightarrow> \<not> list_ex (in_block (v4_value v)) blocked_v4
       | Some (Ipv6 v) \<Rightarrow> (case to_ipv4_mapped v of
             Some m \<Rightarrow> \<not> list_ex (in_block (v4_value m)) blocked_v4
           | None \<Rightarrow> \<not> list_ex (in_block6 (v6_value v)) blocked_v6))"
proof -
  have host: "\<not> blocked_hostname d \<longleftrightarrow> 46 \<in> set (to_ascii_lowercase (trim_end_matches (\<lambda>c. c = 46) d))
      \<and> to_ascii_lowercase (trim_end_matches (\<lambda>c. c = 46) d) \<noteq> lit ''localhost''
      \<and> list_all (\<lambda>x. \<not> ends_with (to_ascii_lowercase (trim_end_matches (\<lambda>c. c = 46) d)) (lit x)) blocked_suffixes" for d
    by (auto simp: blocked_hostname_def Let_def list_ex_iff list_all_iff simp del: lit_simps)
  from assms show ?thesis
    unfolding blocked_suffixes_def [symmetric]
    by (auto simp: validate_search_url_def validate_deep_url_def public_v4_blocks public_v6_blocks host
        split: option.splits sum.splits if_splits host.splits simp del: lit_simps)
qed

definition example_api :: "(rstr \<times> rstr \<times> rstr option \<times> host) url_api" where
  "example_api =
     \<lparr>url_parse = (\<lambda>s. Some (lit ''https'', [], None, Domain s)), url_as_str = (\<lambda>(a, b, c, d). a),
      url_scheme = (\<lambda>(a, b, c, d). a), url_username = (\<lambda>(a, b, c, d). b),
      url_password = (\<lambda>(a, b, c, d). c), url_host = (\<lambda>(a, b, c, d). Some d),
      url_host_str = (\<lambda>(a, b, c, d). case d of Domain h \<Rightarrow> Some h | _ \<Rightarrow> None),
      url_query = (\<lambda>_. None), url_fragment = (\<lambda>_. None),
      url_set_query = (\<lambda>_ u. u), url_set_fragment = (\<lambda>_ u. u)\<rparr>"

theorem accepted_url_is_safe_witness:
  "validate_search_url example_api (lit ''a.org'') = Ok (lit ''https'', [], None, Domain (lit ''a.org''))
   \<and> 46 \<in> set (to_ascii_lowercase (trim_end_matches (\<lambda>c. c = 46) (lit ''a.org'')))"
proof -
  have ok: "validate_search_url example_api (lit ''a.org'') = Ok (lit ''https'', [], None, Domain (lit ''a.org''))"
    by (simp add: validate_search_url_def validate_deep_url_def example_api_def blocked_hostname_def
        blocked_suffixes_def rstr_simps)
  from ok accepted_url_is_safe [OF ok] show ?thesis
    by (simp add: example_api_def)
qed

text \<open>
  The host-name block list cannot be evaded by letter case or trailing dots, and covers every
  subdomain of a local suffix: case folding or appending a dot never changes the verdict, and any
  name ending in one of the blocked suffixes is blocked.
\<close>

theorem blocked_hostname_robust:
  "blocked_hostname (h @ [46]) = blocked_hostname h
   \<and> blocked_hostname (to_ascii_lowercase h) = blocked_hostname h
   \<and> list_all (\<lambda>x. blocked_hostname (h @ lit x)) blocked_suffixes"
  by (simp add: blocked_suffix_host list_all_iff)
    (simp add: blocked_hostname_def trim_end_lower)

end
