(* ===== verification/Query_Parse.thy ===== *)
theory Query_Parse
  imports Model
begin

text \<open>
  The query language of \<open>query.rs\<close>: quoting-aware tokenisation, the validators of the filter
  operators, and \<open>parse_query\<close>, which folds the tokens into a \<open>Query\<close>, resolves
  included-and-excluded domains and inverted date ranges, and keeps every rejected filter as literal
  text with a warning.
\<close>

section \<open>Tokens\<close>

text \<open>The loop of \<open>tokenize\<close>: \<open>current\<close> is the token being collected.\<close>

fun tokenize_loop :: "rstr \<Rightarrow> bool \<Rightarrow> rstr \<Rightarrow> rstr list" where
  "tokenize_loop current quoted [] = (if current \<noteq> [] then [current] else [])"
| "tokenize_loop current quoted (c # cs) =
     (if c = 34 then tokenize_loop (current @ [c]) (\<not> quoted) cs
      else if is_whitespace c \<and> \<not> quoted
      then (if current \<noteq> [] then current # tokenize_loop [] quoted cs else tokenize_loop [] quoted cs)
      else tokenize_loop (current @ [c]) quoted cs)"

definition tokenize :: "rstr \<Rightarrow> rstr list" where
  "tokenize input = tokenize_loop [] False input"

section \<open>Validators\<close>

definition valid_domain :: "rstr \<Rightarrow> bool" where
  "valid_domain v \<longleftrightarrow> v \<noteq> [] \<and> \<not> (47 \<in> set v \<or> 58 \<in> set v) \<and> 46 \<in> set v"

definition valid_file_type :: "rstr \<Rightarrow> bool" where
  "valid_file_type v \<longleftrightarrow>
     (let w = trim_start_matches (\<lambda>c. c = 46) v in
      w \<noteq> [] \<and> byte_len w \<le> 16 \<and> list_all is_ascii_alphanumeric w)"

definition valid_language :: "rstr \<Rightarrow> bool" where
  "valid_language v \<longleftrightarrow> 2 \<le> byte_len v \<and> byte_len v \<le> 15 \<and>
     list_all (\<lambda>c. is_ascii_alphabetic c \<or> c = 45) v"

definition valid_region :: "rstr \<Rightarrow> bool" where
  "valid_region v \<longleftrightarrow> byte_len v = 2 \<and> list_all is_ascii_alphabetic v"

definition days_in_month :: "nat \<Rightarrow> nat \<Rightarrow> nat option" where
  "days_in_month year month =
     (let leap = year mod 4 = 0 \<and> (year mod 100 \<noteq> 0 \<or> year mod 400 = 0) in
      if month \<in> {1, 3, 5, 7, 8, 10, 12} then Some 31
      else if month \<in> {4, 6, 9, 11} then Some 30
      else if month = 2 then (if leap then Some 29 else Some 28)
      else None)"

definition valid_date :: "rstr \<Rightarrow> bool" where
  "valid_date v =
     (case split_on (\<lambda>c. c = 45) v of
        [y, m, d] \<Rightarrow>
          byte_len y = 4 \<and> byte_len m = 2 \<and> byte_len d = 2
          \<and> list_all (list_all is_ascii_digit) [y, m, d]
          \<and> (case (parse_u32 y, parse_u32 m, parse_u32 d) of
               (Some year, Some month, Some day) \<Rightarrow>
                 (case days_in_month year month of None \<Rightarrow> False | Some max_day \<Rightarrow> 1 \<le> day \<and> day \<le> max_day)
             | _ \<Rightarrow> False)
      | _ \<Rightarrow> False)"

section \<open>Parsing\<close>

datatype QueryParseError = Empty

definition push_unique :: "'a list \<Rightarrow> 'a \<Rightarrow> 'a list" where
  "push_unique values v = (if v \<in> set values then values else values @ [v])"

text \<open>\<open>replace_filter\<close> returns the new filter and the warnings with the one it may add.\<close>

definition replace_filter ::
  "rstr option \<Rightarrow> rstr \<Rightarrow> string \<Rightarrow> string \<Rightarrow> query_warning list \<Rightarrow> rstr option \<times> query_warning list" where
  "replace_filter target v code operator warnings =
     (Some v,
      if target \<noteq> None
      then warnings @ [\<lparr> qw_code = lit code, qw_operator = Some (lit operator), qw_value = Some v,
                        qw_message = lit ''last valid filter wins'' \<rparr>]
      else warnings)"

definition known_operators :: "string list" where
  "known_operators = [''site'', ''-site'', ''filetype'', ''lang'', ''region'', ''after'', ''before'', ''exact'']"

text \<open>
  The body of the token loop, on the query and the free-text tokens collected so far:
  \<open>match_operator\<close> is its \<open>match\<close>, \<open>parse_token\<close> splits off the operator and its value first.
\<close>

definition match_operator :: "query \<Rightarrow> rstr list \<Rightarrow> rstr \<Rightarrow> rstr \<Rightarrow> rstr \<Rightarrow> query \<times> rstr list" where
  "match_operator q free token operator original_value =
     (if operator = lit ''site'' \<and> valid_domain original_value
      then (q\<lparr> q_domains := push_unique (q_domains q) (to_ascii_lowercase original_value) \<rparr>, free)
      else if operator = lit ''-site'' \<and> valid_domain original_value
      then (q\<lparr> q_excluded_domains := push_unique (q_excluded_domains q) (to_ascii_lowercase original_value) \<rparr>, free)
      else if operator = lit ''filetype'' \<and> valid_file_type original_value
      then (q\<lparr> q_file_types := push_unique (q_file_types q)
                 (to_ascii_lowercase (trim_start_matches (\<lambda>c. c = 46) original_value)) \<rparr>, free)
      else if operator = lit ''lang'' \<and> valid_language original_value
      then (let (l, w) = replace_filter (q_language q) (to_ascii_lowercase original_value)
                  ''repeated_language_filter'' ''lang'' (q_warnings q)
            in (q\<lparr> q_language := l, q_warnings := w \<rparr>, free))
      else if operator = lit ''region'' \<and> valid_region original_value
      then (let (r, w) = replace_filter (q_region q) (to_ascii_uppercase original_value)
                  ''repeated_region_filter'' ''region'' (q_warnings q)
            in (q\<lparr> q_region := r, q_warnings := w \<rparr>, free))
      else if operator = lit ''after'' \<and> valid_date original_value
      then (q\<lparr> q_date_from := Some original_value \<rparr>, free)
      else if operator = lit ''before'' \<and> valid_date original_value
      then (q\<lparr> q_date_to := Some original_value \<rparr>, free)
      else if operator = lit ''exact'' \<and> original_value \<noteq> []
      then (q\<lparr> q_quoted_terms := q_quoted_terms q @ [trim_matches (\<lambda>c. c = 34) original_value] \<rparr>, free)
      else if operator \<noteq> [] \<and> operator \<in> set (map lit known_operators)
      then (q\<lparr> q_warnings := q_warnings q @ [\<lparr> qw_code = lit ''invalid_filter_value'',
                 qw_operator = Some operator, qw_value = Some original_value,
                 qw_message = lit ''filter was treated as literal text'' \<rparr>] \<rparr>, free @ [token])
      else if starts_with token [45] \<and> 1 < byte_len token
      then (q\<lparr> q_excluded_terms := q_excluded_terms q @ [drop 1 token] \<rparr>, free)
      else if starts_with token [34] \<and> ends_with token [34] \<and> 2 < byte_len token
      then (q\<lparr> q_quoted_terms := q_quoted_terms q @ [trim_matches (\<lambda>c. c = 34) token] \<rparr>, free)
      else (q, free @ [token]))"

definition parse_token :: "query \<times> rstr list \<Rightarrow> rstr \<Rightarrow> query \<times> rstr list" where
  "parse_token st token =
     match_operator (fst st) (snd st) token
       (case split_once 58 (to_ascii_lowercase token) of None \<Rightarrow> [] | Some (a, b) \<Rightarrow> a)
       (case split_once 58 token of None \<Rightarrow> [] | Some (a, b) \<Rightarrow> b)"

definition query_new :: "rstr \<Rightarrow> query" where
  "query_new raw = \<lparr> q_schema_version = SCHEMA_VERSION, q_raw_query = raw, q_normalized_query = [],
     q_quoted_terms = [], q_excluded_terms = [], q_domains = [], q_excluded_domains = [],
     q_file_types = [], q_language = None, q_region = None, q_date_from = None, q_date_to = None,
     q_warnings = [] \<rparr>"

text \<open>The \<open>retain\<close> over the included domains, with the warnings its closure pushes.\<close>

definition retain_domains :: "query \<Rightarrow> query" where
  "retain_domains q = q\<lparr>
     q_domains := filter (\<lambda>d. d \<notin> set (q_excluded_domains q)) (q_domains q),
     q_warnings := q_warnings q @
       map (\<lambda>d. \<lparr> qw_code = lit ''domain_included_and_excluded'', qw_operator = Some (lit ''site''),
                  qw_value = Some d, qw_message = lit ''domain exclusion takes precedence'' \<rparr>)
           (filter (\<lambda>d. d \<in> set (q_excluded_domains q)) (q_domains q)) \<rparr>"

definition check_date_range :: "query \<Rightarrow> query" where
  "check_date_range q =
     (case (q_date_from q, q_date_to q) of
        (Some from, Some until) \<Rightarrow>
          if until \<le> from
          then q\<lparr> q_date_from := None, q_date_to := None,
                 q_warnings := q_warnings q @ [\<lparr> qw_code = lit ''invalid_date_range'', qw_operator = None,
                   qw_value = None, qw_message = lit ''after must be earlier than before'' \<rparr>] \<rparr>
          else q
      | _ \<Rightarrow> q)"

definition parse_query :: "rstr \<Rightarrow> QueryParseError + query" where
  "parse_query raw =
     (if trim raw = [] then Err Empty
      else let (q, free) = foldl parse_token (query_new raw, []) (tokenize raw)
           in Ok ((check_date_range (retain_domains q))\<lparr> q_normalized_query := join_with [32] free \<rparr>))"


section \<open>What a parsed query guarantees\<close>

definition ok_domain :: "rstr \<Rightarrow> bool" where
  "ok_domain d \<longleftrightarrow> valid_domain d \<and> to_ascii_lowercase d = d"

definition ok_file_type :: "rstr \<Rightarrow> bool" where
  "ok_file_type t \<longleftrightarrow> 1 \<le> length t \<and> length t \<le> 16 \<and> list_all (\<lambda>c. is_ascii_lower c \<or> is_ascii_digit c) t"

definition ok_language :: "rstr \<Rightarrow> bool" where
  "ok_language l \<longleftrightarrow> 2 \<le> length l \<and> length l \<le> 15 \<and> list_all (\<lambda>c. is_ascii_lower c \<or> c = 45) l"

definition ok_region :: "rstr \<Rightarrow> bool" where
  "ok_region r \<longleftrightarrow> length r = 2 \<and> list_all is_ascii_upper r"

text \<open>The invariant of the token loop, and what the two closing steps add to it.\<close>

definition filters_ok :: "query \<Rightarrow> bool" where
  "filters_ok q \<longleftrightarrow>
     distinct (q_domains q) \<and> distinct (q_excluded_domains q) \<and> distinct (q_file_types q)
     \<and> list_all ok_domain (q_domains q) \<and> list_all ok_domain (q_excluded_domains q)
     \<and> list_all ok_file_type (q_file_types q)
     \<and> pred_option ok_language (q_language q) \<and> pred_option ok_region (q_region q)
     \<and> pred_option valid_date (q_date_from q) \<and> pred_option valid_date (q_date_to q)"

definition query_ok :: "query \<Rightarrow> bool" where
  "query_ok q \<longleftrightarrow> filters_ok q
     \<and> set (q_domains q) \<inter> set (q_excluded_domains q) = {}
     \<and> (case (q_date_from q, q_date_to q) of (Some from, Some until) \<Rightarrow> from < until | _ \<Rightarrow> True)"

lemma lowercase_mem: "\<not> (65 \<le> k \<and> k \<le> 90) \<Longrightarrow> \<not> (97 \<le> k \<and> k \<le> 122) \<Longrightarrow> k \<in> set (to_ascii_lowercase v) \<longleftrightarrow> k \<in> set v"
  by (induction v) (auto simp: to_ascii_lowercase_def ascii_lower_def is_ascii_upper_def)

lemma ok_domain_lowercase: "valid_domain v \<Longrightarrow> ok_domain (to_ascii_lowercase v)"
  by (auto simp: ok_domain_def valid_domain_def lowercase_mem) (simp add: to_ascii_lowercase_def)

lemma byte_len_alphanumeric: "list_all is_ascii_alphanumeric v \<Longrightarrow> byte_len v = length v"
  by (rule byte_len_ascii) (auto simp: is_ascii_str_def list_all_iff ascii_class_defs)

lemma ok_file_type_lowercase:
  "valid_file_type v \<Longrightarrow> ok_file_type (to_ascii_lowercase (trim_start_matches (\<lambda>c. c = 46) v))"
  by (auto simp: valid_file_type_def ok_file_type_def Let_def byte_len_alphanumeric Suc_le_eq to_ascii_lowercase_def)
    (auto simp: list_all_iff ascii_lower_def ascii_class_defs)

lemma ok_language_lowercase: "valid_language v \<Longrightarrow> ok_language (to_ascii_lowercase v)"
proof -
  assume v: "valid_language v"
  then have "byte_len v = length v"
    by (intro byte_len_ascii) (auto simp: is_ascii_str_def valid_language_def list_all_iff ascii_class_defs)
  with v show ?thesis
    by (auto simp: valid_language_def ok_language_def to_ascii_lowercase_def list_all_iff ascii_lower_def ascii_class_defs)
qed

lemma ok_region_uppercase: "valid_region v \<Longrightarrow> ok_region (to_ascii_uppercase v)"
proof -
  assume v: "valid_region v"
  then have "byte_len v = length v"
    by (intro byte_len_ascii) (auto simp: is_ascii_str_def valid_region_def list_all_iff ascii_class_defs)
  with v show ?thesis
    by (auto simp: valid_region_def ok_region_def to_ascii_uppercase_def list_all_iff ascii_upper_def ascii_class_defs)
qed

lemma push_unique_distinct: "distinct xs \<Longrightarrow> distinct (push_unique xs v)"
  by (simp add: push_unique_def)

lemma push_unique_all: "list_all P xs \<Longrightarrow> P v \<Longrightarrow> list_all P (push_unique xs v)"
  by (simp add: push_unique_def)

text \<open>Each field update of the token loop keeps the invariant.\<close>

lemma filters_ok_update:
  "filters_ok q \<Longrightarrow> valid_domain v \<Longrightarrow>
     filters_ok (q\<lparr>q_domains := push_unique (q_domains q) (to_ascii_lowercase v)\<rparr>)"
  "filters_ok q \<Longrightarrow> valid_domain v \<Longrightarrow>
     filters_ok (q\<lparr>q_excluded_domains := push_unique (q_excluded_domains q) (to_ascii_lowercase v)\<rparr>)"
  "filters_ok q \<Longrightarrow> valid_file_type v \<Longrightarrow>
     filters_ok (q\<lparr>q_file_types := push_unique (q_file_types q)
       (to_ascii_lowercase (trim_start_matches (\<lambda>c. c = 46) v))\<rparr>)"
  "filters_ok q \<Longrightarrow> valid_language v \<Longrightarrow>
     filters_ok (q\<lparr>q_language := Some (to_ascii_lowercase v)\<rparr>)"
  "filters_ok q \<Longrightarrow> valid_region v \<Longrightarrow>
     filters_ok (q\<lparr>q_region := Some (to_ascii_uppercase v)\<rparr>)"
  "filters_ok q \<Longrightarrow> valid_date v \<Longrightarrow> filters_ok (q\<lparr>q_date_from := Some v\<rparr>)"
  "filters_ok q \<Longrightarrow> valid_date v \<Longrightarrow> filters_ok (q\<lparr>q_date_to := Some v\<rparr>)"
  "filters_ok (q\<lparr>q_quoted_terms := ts\<rparr>) = filters_ok q"
  "filters_ok (q\<lparr>q_excluded_terms := ts\<rparr>) = filters_ok q"
  "filters_ok (q\<lparr>q_warnings := w\<rparr>) = filters_ok q"
  by (simp_all add: filters_ok_def push_unique_distinct push_unique_all ok_domain_lowercase
      ok_file_type_lowercase ok_language_lowercase ok_region_uppercase)

lemma if_fstI: "(c \<Longrightarrow> P (fst x)) \<Longrightarrow> (\<not> c \<Longrightarrow> P (fst y)) \<Longrightarrow> P (fst (if c then x else y))"
  by simp

lemma match_operator_filters:
  assumes "filters_ok q"
  shows "filters_ok (fst (match_operator q free token operator v))"
  unfolding match_operator_def replace_filter_def prod.case Let_def
  by (intro if_fstI [where P = filters_ok])
    (simp_all only: fst_conv filters_ok_update assms)

lemma parse_token_filters: "filters_ok (fst st) \<Longrightarrow> filters_ok (fst (parse_token st token))"
  by (simp add: parse_token_def match_operator_filters)

lemma parse_token_raw: "q_raw_query (fst (parse_token st token)) = q_raw_query (fst st)"
  unfolding parse_token_def match_operator_def replace_filter_def prod.case Let_def
  by (intro if_fstI [where P = "\<lambda>q. q_raw_query q = q_raw_query (fst st)"]) simp_all

lemma query_new_ok: "filters_ok (query_new raw)"
  by (simp add: query_new_def filters_ok_def)

lemma parse_tokens_inv:
  defines "st \<equiv> \<lambda>raw. foldl parse_token (query_new raw, []) (tokenize raw)"
  shows "filters_ok (fst (st raw)) \<and> q_raw_query (fst (st raw)) = raw"
  unfolding st_def
  by (rule foldl_invariant) (simp_all add: parse_token_filters parse_token_raw query_new_ok, simp add: query_new_def)

lemma retain_domains_ok: "filters_ok q \<Longrightarrow> filters_ok (retain_domains q)"
  by (auto simp: filters_ok_def retain_domains_def list_all_iff)

lemma check_date_range_ok:
  "filters_ok q \<Longrightarrow> set (q_domains q) \<inter> set (q_excluded_domains q) = {} \<Longrightarrow> query_ok (check_date_range q)"
  by (auto simp: query_ok_def check_date_range_def filters_ok_def not_le split: option.splits)

lemma retain_domains_disjoint:
  "set (q_domains (retain_domains q)) \<inter> set (q_excluded_domains (retain_domains q)) = {}"
  by (auto simp: retain_domains_def)

lemma query_ok_normalized [simp]: "query_ok (q\<lparr>q_normalized_query := n\<rparr>) = query_ok q"
  by (simp add: query_ok_def filters_ok_def)

lemma check_raw [simp]: "q_raw_query (check_date_range (retain_domains q)) = q_raw_query q"
  by (simp add: check_date_range_def retain_domains_def split: option.splits)

text \<open>
  C28. Parsing fails exactly on queries of white space only; otherwise the raw text is kept, domains
  are valid, lower case, without repetition and disjoint from the excluded ones, file types are one
  to sixteen lower-case alphanumerics, the language and region have their normal form, and the
  dates are calendar dates with \<open>after\<close> before \<open>before\<close>.
\<close>

theorem parse_query_contract:
  "case parse_query raw of
     Err e \<Rightarrow> list_all is_whitespace raw
   | Ok q \<Rightarrow> \<not> list_all is_whitespace raw \<and> q_raw_query q = raw \<and> query_ok q"
proof (cases "trim raw = []")
  case True
  then show ?thesis by (simp add: parse_query_def trim_empty_iff list_all_iff)
next
  case False
  obtain q free where st: "foldl parse_token (query_new raw, []) (tokenize raw) = (q, free)"
    by (meson surj_pair)
  from parse_tokens_inv [of raw] have "filters_ok q" "q_raw_query q = raw" by (simp_all add: st)
  with False show ?thesis
    by (simp add: parse_query_def st trim_empty_iff list_all_iff check_date_range_ok
        retain_domains_ok retain_domains_disjoint)
qed

section \<open>Tokenisation\<close>

text \<open>The specification: white space outside double quotes is dropped and separates tokens.\<close>

fun strip_spaces :: "bool \<Rightarrow> rstr \<Rightarrow> rstr" where
  "strip_spaces quoted [] = []"
| "strip_spaces quoted (c # cs) =
     (if c = 34 then c # strip_spaces (\<not> quoted) cs
      else if is_whitespace c \<and> \<not> quoted then strip_spaces quoted cs
      else c # strip_spaces quoted cs)"

fun end_quoted :: "bool \<Rightarrow> rstr \<Rightarrow> bool" where
  "end_quoted quoted [] = quoted"
| "end_quoted quoted (c # cs) = end_quoted (if c = 34 then \<not> quoted else quoted) cs"

fun tokens_ok :: "rstr list \<Rightarrow> bool" where
  "tokens_ok [] = True"
| "tokens_ok (t # ts) \<longleftrightarrow> t \<noteq> [] \<and> strip_spaces False t = t \<and> (ts \<noteq> [] \<longrightarrow> \<not> end_quoted False t) \<and> tokens_ok ts"

lemma quote_not_space [simp]: "\<not> is_whitespace 34"
  by (simp add: is_whitespace_def)

lemma strip_spaces_append: "strip_spaces q (s @ t) = strip_spaces q s @ strip_spaces (end_quoted q s) t"
  by (induction q s rule: strip_spaces.induct) auto

lemma end_quoted_append: "end_quoted q (s @ t) = end_quoted (end_quoted q s) t"
  by (induction q s rule: end_quoted.induct) auto

lemma strip_spaces_length: "length (strip_spaces q s) \<le> length s"
  by (induction q s rule: strip_spaces.induct) auto

lemma concat_tokenize_loop: "concat (tokenize_loop cur quoted cs) = cur @ strip_spaces quoted cs"
  by (induction cur quoted cs rule: tokenize_loop.induct) auto

lemma tokenize_loop_ok:
  assumes "strip_spaces False cur = cur" "end_quoted False cur = quoted"
  shows "tokens_ok (tokenize_loop cur quoted cs)"
  using assms
  by (induction cur quoted cs rule: tokenize_loop.induct) (auto simp: strip_spaces_append end_quoted_append)

lemma tokenize_loop_token:
  "strip_spaces quoted t = t \<Longrightarrow>
     tokenize_loop cur quoted (t @ rest) = tokenize_loop (cur @ t) (end_quoted quoted t) rest"
proof (induction t arbitrary: cur quoted)
  case (Cons c t)
  have "\<not> (c \<noteq> 34 \<and> is_whitespace c \<and> \<not> quoted)"
    using Cons.prems strip_spaces_length [of quoted t] by (auto split: if_splits)
  with Cons show ?case by (auto split: if_splits)
qed simp

lemma tokenize_join: "tokens_ok ts \<Longrightarrow> tokenize_loop [] False (join_with [32] ts) = ts"
proof (induction ts)
  case (Cons w ts)
  show ?case
  proof (cases ts)
    case Nil
    with Cons.prems show ?thesis using tokenize_loop_token [of False w "[]" "[]"] by simp
  next
    case (Cons v vs)
    with Cons.prems Cons.IH show ?thesis
      using tokenize_loop_token [of False w "[]" "32 # join_with [32] ts"] by (simp add: is_whitespace_def)
  qed
qed simp

text \<open>
  Tokenisation loses nothing but separating white space: the tokens concatenate to the input
  without its white space outside quotes, no token is empty or contains such white space, and joining
  the tokens with single spaces and tokenising again gives the same tokens.
\<close>

theorem tokenize_correct:
  "concat (tokenize s) = strip_spaces False s
   \<and> tokens_ok (tokenize s)
   \<and> tokenize (join_with [32] (tokenize s)) = tokenize s"
  using concat_tokenize_loop [of "[]" False s] tokenize_loop_ok [of "[]" False s]
  by (simp add: tokenize_def tokenize_join)

section \<open>Dates\<close>

definition date_of :: "rstr \<Rightarrow> nat \<times> nat \<times> nat" where
  "date_of v = (case split_on (\<lambda>c. c = 45) v of
     [y, m, d] \<Rightarrow> (the (parse_u32 y), the (parse_u32 m), the (parse_u32 d)) | _ \<Rightarrow> (0, 0, 0))"

definition digit_of :: "rchar \<Rightarrow> nat" where
  "digit_of c = c - 48"

abbreviation horner :: "nat \<Rightarrow> rstr \<Rightarrow> nat" where
  "horner \<equiv> foldl (\<lambda>acc c. acc * 10 + digit_of c)"

definition digits_num :: "rstr \<Rightarrow> nat" where
  "digits_num s = horner 0 s"

lemma digit_of_less: "is_ascii_digit c \<Longrightarrow> digit_of c < 10"
  by (auto simp: digit_of_def is_ascii_digit_def)

lemma digit_value_10: "is_ascii_digit c \<Longrightarrow> digit_value 10 c = Some (digit_of c)"
  using digit_of_less [of c] by (simp add: digit_value_def digit_of_def)

lemma digit_of_lt_iff: "is_ascii_digit c \<Longrightarrow> is_ascii_digit d \<Longrightarrow> digit_of c < digit_of d \<longleftrightarrow> c < d"
  by (auto simp: digit_of_def is_ascii_digit_def)

lemma digit_of_eq_iff: "is_ascii_digit c \<Longrightarrow> is_ascii_digit d \<Longrightarrow> digit_of c = digit_of d \<longleftrightarrow> c = d"
  by (auto simp: digit_of_def is_ascii_digit_def)

lemma digits_value_digits: "list_all is_ascii_digit s \<Longrightarrow> digits_value 10 acc s = Some (horner acc s)"
  by (induction s arbitrary: acc) (simp_all add: digit_value_10)

lemma digits_num_bound: "list_all is_ascii_digit s \<Longrightarrow> horner acc s < (acc + 1) * 10 ^ length s"
proof (induction s arbitrary: acc)
  case (Cons c s)
  then have "acc * 10 + digit_of c + 1 \<le> (acc + 1) * 10" using digit_of_less [of c] by simp
  then have "(acc * 10 + digit_of c + 1) * 10 ^ length s \<le> (acc + 1) * 10 * 10 ^ length s" by (rule mult_le_mono1)
  moreover have "horner (acc * 10 + digit_of c) s < (acc * 10 + digit_of c + 1) * 10 ^ length s"
    using Cons by simp
  ultimately show ?case by (simp only: foldl_Cons list.size power_Suc add_0_right add_Suc_right mult.assoc)
qed simp

lemma parse_u32_digits:
  assumes "list_all is_ascii_digit s" "s \<noteq> []" "length s \<le> 4"
  shows "parse_u32 s = Some (digits_num s)"
proof -
  have "digits_num s < 1 * 10 ^ length s" using digits_num_bound [OF assms(1), of 0] by (simp add: digits_num_def)
  also have "\<dots> \<le> 1 * 10 ^ 4" using assms(3) by (intro mult_le_mono2 power_increasing) simp_all
  finally have b: "digits_num s < 4294967296" by simp
  obtain c cs where s: "s = c # cs" "c \<noteq> 43"
    using assms by (cases s) (auto simp: is_ascii_digit_def)
  have "digits_value 10 0 s = Some (digits_num s)"
    using assms(1) by (simp add: digits_value_digits digits_num_def)
  with b show ?thesis by (simp add: u32_from_str_radix_def s)
qed

lemma digit_step_less:
  fixes x y c d :: nat
  assumes "c < 10" "d < 10"
  shows "x * 10 + c < y * 10 + d \<longleftrightarrow> x < y \<or> (x = y \<and> c < d)"
    "x * 10 + c = y * 10 + d \<longleftrightarrow> x = y \<and> c = d"
  using assms by (cases x y rule: linorder_cases; linarith)+

lemma digits_lex:
  "length a = length b \<Longrightarrow> list_all is_ascii_digit a \<Longrightarrow> list_all is_ascii_digit b \<Longrightarrow>
     horner x a < horner y b \<longleftrightarrow> x < y \<or> (x = y \<and> a < b)"
proof (induction a b arbitrary: x y rule: list_induct2)
  case (Cons c a d b)
  then have c: "is_ascii_digit c" and d: "is_ascii_digit d" by simp_all
  have "horner x (c # a) < horner y (d # b)
      \<longleftrightarrow> x * 10 + digit_of c < y * 10 + digit_of d \<or> (x * 10 + digit_of c = y * 10 + digit_of d \<and> a < b)"
    using Cons by simp
  also have "\<dots> \<longleftrightarrow> x < y \<or> (x = y \<and> c # a < d # b)"
    unfolding digit_step_less [OF digit_of_less [OF c] digit_of_less [OF d]]
    using digit_of_lt_iff [OF c d] digit_of_eq_iff [OF c d] by (auto simp: Cons_less_Cons)
  finally show ?case .
qed simp

lemma digits_num_less:
  "length a = length b \<Longrightarrow> list_all is_ascii_digit a \<Longrightarrow> list_all is_ascii_digit b \<Longrightarrow>
     digits_num a < digits_num b \<longleftrightarrow> a < b"
  by (simp add: digits_num_def digits_lex)

lemma digits_num_le:
  "length a = length b \<Longrightarrow> list_all is_ascii_digit a \<Longrightarrow> list_all is_ascii_digit b \<Longrightarrow>
     digits_num a \<le> digits_num b \<longleftrightarrow> a \<le> b"
  by (metis digits_num_less linorder_not_less)

lemma lex_append:
  fixes a b c d :: "nat list"
  shows "length a = length b \<Longrightarrow> a @ c < b @ d \<longleftrightarrow> a < b \<or> (a = b \<and> c < d)"
  by (induction a b rule: list_induct2) (auto simp: Cons_less_Cons)

lemma join_split_on: "join_with [k] (split_on (\<lambda>c. c = k) v) = v"
proof (induction v)
  case (Cons c v)
  obtain w ws where "split_on (\<lambda>c. c = k) v = w # ws" by (meson list.exhaust split_on_nonempty)
  with Cons show ?case by (cases ws) auto
qed simp

lemma valid_dateE:
  assumes "valid_date v"
  obtains y m d where "v = y @ 45 # m @ 45 # d" "length y = 4" "length m = 2" "length d = 2"
    "list_all is_ascii_digit y" "list_all is_ascii_digit m" "list_all is_ascii_digit d"
    "date_of v = (digits_num y, digits_num m, digits_num d)"
proof -
  from assms obtain y m d where sp: "split_on (\<lambda>c. c = 45) v = [y, m, d]"
    and b: "byte_len y = 4" "byte_len m = 2" "byte_len d = 2"
    and dg: "list_all is_ascii_digit y" "list_all is_ascii_digit m" "list_all is_ascii_digit d"
    unfolding valid_date_def by (auto split: list.splits)
  have len: "byte_len s = length s" if "list_all is_ascii_digit s" for s
    using that by (intro byte_len_alphanumeric) (auto simp: list_all_iff is_ascii_alphanumeric_def)
  have v: "v = y @ 45 # m @ 45 # d" using join_split_on [of 45 v] by (simp add: sp)
  have l: "length y = 4" "length m = 2" "length d = 2" using b dg by (simp_all add: len)
  then have "y \<noteq> []" "m \<noteq> []" "d \<noteq> []" by auto
  with dg l have "date_of v = (digits_num y, digits_num m, digits_num d)"
    by (simp add: date_of_def sp parse_u32_digits)
  with that v l dg show thesis by blast
qed

text \<open>
  On accepted dates the string comparison the parser uses to reject an inverted range is the
  calendar comparison of year, month and day.
\<close>

theorem date_order:
  assumes "valid_date a" "valid_date b"
  shows "a < b \<longleftrightarrow> date_of a < date_of b"
proof -
  from assms(1) obtain y m d where a: "a = y @ 45 # m @ 45 # d" "length y = 4" "length m = 2" "length d = 2"
    "list_all is_ascii_digit y" "list_all is_ascii_digit m" "list_all is_ascii_digit d"
    "date_of a = (digits_num y, digits_num m, digits_num d)" by (rule valid_dateE)
  from assms(2) obtain y' m' d' where b: "b = y' @ 45 # m' @ 45 # d'" "length y' = 4" "length m' = 2" "length d' = 2"
    "list_all is_ascii_digit y'" "list_all is_ascii_digit m'" "list_all is_ascii_digit d'"
    "date_of b = (digits_num y', digits_num m', digits_num d')" by (rule valid_dateE)
  have "a < b \<longleftrightarrow> y < y' \<or> (y = y' \<and> (m < m' \<or> (m = m' \<and> d < d')))"
    using a b by (simp add: lex_append Cons_less_Cons)
  also have "\<dots> \<longleftrightarrow> date_of a < date_of b"
    using a b by (auto simp: digits_num_less digits_num_le)
  finally show ?thesis .
qed

theorem date_order_witness:
  "valid_date (lit ''2024-02-29'') \<and> valid_date (lit ''2024-03-01'')
   \<and> (lit ''2024-02-29'' < lit ''2024-03-01'' \<longleftrightarrow> date_of (lit ''2024-02-29'') < date_of (lit ''2024-03-01''))"
proof -
  have a: "valid_date (lit ''2024-02-29'')" and b: "valid_date (lit ''2024-03-01'')"
    by (simp_all add: valid_date_def u32_from_str_radix_def digit_value_def days_in_month_def ascii_class_defs len_utf8_def)
  with date_order [OF a b] show ?thesis by blast
qed

end
