(* ===== verification/Planning.thy ===== *)
theory Planning
  imports Model Budget
begin

text \<open>
  \<open>planning.rs\<close>: turning a routing recommendation into a search plan. Each recommended provider
  reserves one call of the search budget; the plan keeps the providers that got one. The wall clock
  (\<open>OffsetDateTime::now_utc\<close>, already formatted) is the argument \<open>now\<close>.
\<close>

record routing_recommendation =
  rec_selected_providers :: "rstr list"
  rec_provider_budget_requests :: "(rstr \<times> u32) list"
  rec_debug_reasons :: "rstr list"

definition global_snapshot :: "budget \<Rightarrow> global_budget_snapshot" where
  "global_snapshot b = \<lparr> gb_max_provider_calls = max_provider_calls b,
     gb_remaining_provider_calls = remaining_provider_calls b, gb_deadline_ms = budget_deadline_ms b \<rparr>"

text \<open>The reservation loop.\<close>

fun reserve_each :: "rstr list \<Rightarrow> (rstr, u32) btree_map \<Rightarrow> budget \<Rightarrow> (rstr, u32) btree_map \<times> budget" where
  "reserve_each [] budgets b = (budgets, b)"
| "reserve_each (p # ps) budgets b =
     (case reserve_provider b of
        (Ok _, b') \<Rightarrow> reserve_each ps (bt_insert p 1 budgets) b'
      | (Err _, b') \<Rightarrow> reserve_each ps budgets b')"

definition stop_conditions :: "rstr list" where
  "stop_conditions = map lit [''time_exhausted'', ''deadline_near'', ''provider_limit'',
     ''coverage_target_reached'', ''marginal_gain_low'', ''providers_exhausted'']"

definition build_search_plan ::
  "rstr \<Rightarrow> query \<Rightarrow> classification \<Rightarrow> routing_recommendation \<Rightarrow> budget \<Rightarrow> search_plan \<times> budget" where
  "build_search_plan now q cls recommendation budget =
     (let (provider_budgets, budget') = reserve_each (rec_selected_providers recommendation) bt_empty budget;
          selected = filter (bt_contains_key provider_budgets) (rec_selected_providers recommendation)
      in (\<lparr> sp_schema_version = SCHEMA_VERSION, sp_query = q, sp_classification = cls,
            sp_selected_providers = selected, sp_provider_priority = selected,
            sp_provider_budget_requests = rec_provider_budget_requests recommendation,
            sp_provider_budgets = provider_budgets, sp_global_budget = global_snapshot budget',
            sp_ranking_reference_time = now, sp_fallback_policy = lit ''bootstrap_static'',
            sp_expansion_policy = lit ''search_policy_v1'', sp_stop_conditions = stop_conditions,
            sp_debug_reasons = rec_debug_reasons recommendation \<rparr>, budget'))"

lemma reserve_each_exhausted: "remaining_provider_calls b = 0 \<Longrightarrow> reserve_each ps m b = (m, b)"
  by (induction ps) (simp_all add: reserve_provider_def)

text \<open>The loop hands one unit to each of the first providers and leaves the rest of the budget alone.\<close>

lemma reserve_each_spec:
  assumes "bt_wf m"
  shows "bt_wf (fst (reserve_each ps m b))
    \<and> (\<forall>p. bt_contains_key (fst (reserve_each ps m b)) p
        \<longleftrightarrow> bt_contains_key m p \<or> p \<in> set (take (unat (remaining_provider_calls b)) ps))
    \<and> unat (remaining_provider_calls (snd (reserve_each ps m b))) = unat (remaining_provider_calls b) - length ps
    \<and> max_provider_calls (snd (reserve_each ps m b)) = max_provider_calls b
    \<and> budget_deadline_ms (snd (reserve_each ps m b)) = budget_deadline_ms b"
  using assms
proof (induction ps m b rule: reserve_each.induct)
  case (2 p ps m b)
  show ?case
  proof (cases "remaining_provider_calls b = 0")
    case True
    with "2.prems" show ?thesis by (simp add: reserve_each_exhausted reserve_provider_def)
  next
    case False
    let ?b = "b\<lparr>remaining_provider_calls := remaining_provider_calls b - 1\<rparr>"
    have r: "reserve_provider b = (Ok (), ?b)" using False by (simp add: reserve_provider_def)
    have n: "unat (remaining_provider_calls b) = Suc (unat (remaining_provider_calls b - 1))"
      using False by (simp add: rust_int unat_gt_0)
    note IH = "2.IH"(2) [OF r [symmetric] refl bt_insert_wf [OF "2.prems"]]
    show ?thesis
      using IH by (auto simp: r n bt_contains_key_def bt_get_insert [OF "2.prems"])
  qed
qed simp

text \<open>
  A plan selects exactly the recommended providers among the first ones the remaining calls pay
  for, in the recommended order, and charges the budget one call per recommendation until it is
  exhausted; limits and deadline are unchanged and the plan reports the budget after the charge.
\<close>

theorem plan_within_budget:
  fixes b :: budget and r :: routing_recommendation and now :: rstr and q :: query and cls :: classification
  defines "plan \<equiv> fst (build_search_plan now q cls r b)"
    and "b' \<equiv> snd (build_search_plan now q cls r b)"
    and "calls \<equiv> unat (remaining_provider_calls b)"
  shows "sp_selected_providers plan
      = filter (\<lambda>p. p \<in> set (take calls (rec_selected_providers r))) (rec_selected_providers r)
    \<and> card (set (sp_selected_providers plan)) \<le> calls - unat (remaining_provider_calls b')
    \<and> unat (remaining_provider_calls b') = calls - length (rec_selected_providers r)
    \<and> sp_global_budget plan = global_snapshot b'
    \<and> max_provider_calls b' = max_provider_calls b \<and> budget_deadline_ms b' = budget_deadline_ms b"
proof -
  let ?ps = "rec_selected_providers r"
  have wf: "bt_wf (bt_empty :: (rstr, u32) btree_map)" by (simp add: bt_wf_def bt_empty_def)
  note spec = reserve_each_spec [OF wf, of ?ps b]
  have sel: "sp_selected_providers plan = filter (\<lambda>p. p \<in> set (take calls ?ps)) ?ps"
    using spec by (auto simp: plan_def calls_def build_search_plan_def Let_def split_beta
        bt_contains_key_def bt_get_def bt_empty_def intro!: filter_cong)
  have rem: "unat (remaining_provider_calls b') = calls - length ?ps"
    using spec by (simp add: b'_def calls_def build_search_plan_def Let_def split_beta)
  have "card (set (sp_selected_providers plan)) \<le> card (set (take calls ?ps))"
    unfolding sel by (intro card_mono) auto
  also have "\<dots> \<le> min calls (length ?ps)" using card_length [of "take calls ?ps"] by (simp add: min.commute)
  finally have "card (set (sp_selected_providers plan)) \<le> calls - unat (remaining_provider_calls b')"
    using rem by linarith
  with sel rem spec show ?thesis
    by (simp add: plan_def b'_def build_search_plan_def Let_def split_beta)
qed

end
