(* ===== verification/Text.thy ===== *)
theory Text
  imports Model
begin

text \<open>
  \<open>text.rs\<close>: the text normalisations behind matching and title similarity. The Unicode tables
  are parameters, the record \<open>unicode\<close>: compatibility normalisation (the crate
  \<open>unicode-normalization\<close>) and the Unicode character database behind
  \<open>char::to_lowercase\<close>, \<open>str::to_lowercase\<close> and \<open>char::is_alphanumeric\<close>. The confusable table is the
  source's own, in its order.
\<close>

record unicode =
  uc_nfkc :: "rstr \<Rightarrow> rstr"
  uc_to_lowercase :: "rchar \<Rightarrow> rstr"
  uc_str_to_lowercase :: "rstr \<Rightarrow> rstr"
  uc_is_alphanumeric :: "rchar \<Rightarrow> bool"

definition collapse_whitespace :: "rstr \<Rightarrow> rstr" where
  "collapse_whitespace s = join_with [32] (split_whitespace s)"

definition fold_char :: "unicode \<Rightarrow> rchar \<Rightarrow> rstr" where
  "fold_char uc c =
     (if c = 223 \<or> c = 7838 then lit ''ss'' else if c = 962 then [963] else uc_to_lowercase uc c)"

definition normalized_text :: "unicode \<Rightarrow> rstr \<Rightarrow> rstr" where
  "normalized_text uc v = collapse_whitespace (concat (map (fold_char uc) (uc_nfkc uc v)))"

definition confusables :: "(rchar \<times> string) list" where
  "confusables = [
    (1072, ''a''), (1040, ''a''), (1077, ''e''), (1045, ''e''), (1086, ''o''), (1054, ''o''),
    (1088, ''p''), (1056, ''p''), (1089, ''c''), (1057, ''c''), (1091, ''y''), (1059, ''y''),
    (1093, ''x''), (1061, ''x''), (1110, ''i''), (1030, ''i''), (1112, ''j''), (1032, ''j''),
    (1109, ''s''), (1029, ''s''), (1141, ''v''), (1140, ''v''), (1121, ''w''), (1120, ''w''),
    (1211, ''h''), (1210, ''h''), (1281, ''d''), (1280, ''d''), (1307, ''q''), (1306, ''q''),
    (1090, ''t''), (1058, ''t''), (1068, ''b''), (1100, ''b''), (913, ''a''), (914, ''b''),
    (917, ''e''), (918, ''z''), (919, ''h''), (921, ''i''), (922, ''k''), (924, ''m''),
    (925, ''n''), (927, ''o''), (929, ''p''), (932, ''t''), (933, ''y''), (935, ''x''),
    (945, ''a''), (949, ''e''), (953, ''i''), (954, ''k''), (957, ''v''), (959, ''o''),
    (961, ''p''), (964, ''t''), (965, ''u''), (967, ''x''), (593, ''a''), (592, ''a''),
    (594, ''a''), (7424, ''a''), (7425, ''a''), (665, ''b''), (7428, ''c''), (392, ''c''),
    (597, ''c''), (663, ''c''), (7429, ''d''), (7431, ''e''), (603, ''e''), (604, ''e''),
    (42800, ''f''), (610, ''g''), (668, ''h''), (618, ''i''), (617, ''i''), (7434, ''j''),
    (7435, ''k''), (671, ''l''), (8572, ''l''), (448, ''l''), (449, ''l''), (7437, ''m''),
    (628, ''n''), (7439, ''o''), (7448, ''p''), (491, ''q''), (640, ''r''), (42801, ''s''),
    (7451, ''t''), (7452, ''u''), (7456, ''v''), (7457, ''w''), (655, ''y''), (7458, ''z''),
    (656, ''z''), (8560, ''i''), (8544, ''i''), (8561, ''ii''), (8545, ''ii''), (8562, ''iii''),
    (8546, ''iii''), (8563, ''iv''), (8547, ''iv''), (8564, ''v''), (8548, ''v''),
    (8565, ''vi''), (8549, ''vi''), (8566, ''vii''), (8550, ''vii''), (8567, ''viii''),
    (8551, ''viii''), (8568, ''ix''), (8552, ''ix''), (8569, ''x''), (8553, ''x''),
    (8570, ''xi''), (8554, ''xi''), (8571, ''xii''), (8555, ''xii''), (8573, ''c''),
    (8557, ''c''), (8574, ''d''), (8558, ''d''), (8575, ''m''), (8559, ''m''), (737, ''l''),
    (688, ''h''), (696, ''y''), (7511, ''t''), (7512, ''u''), (7515, ''v''), (7491, ''a''),
    (7495, ''b''), (7580, ''c''), (7496, ''d''), (7497, ''e''), (7584, ''f''), (7501, ''g''),
    (7522, ''i''), (690, ''j''), (7503, ''k''), (7504, ''m''), (8319, ''n''), (7506, ''o''),
    (7510, ''p''), (691, ''r''), (738, ''s''), (695, ''w''), (739, ''x''), (7611, ''z''),
    (451, ''i'')]"

definition fold_confusable_char :: "rchar \<Rightarrow> string option" where
  "fold_confusable_char c = map_of confusables c"

definition fold_confusable :: "unicode \<Rightarrow> rchar \<Rightarrow> rstr" where
  "fold_confusable uc c =
     (if c = 223 \<or> c = 7838 then lit ''ss'' else if c = 962 then [963]
      else case fold_confusable_char c of Some folded \<Rightarrow> lit folded | None \<Rightarrow> uc_to_lowercase uc c)"

definition normalized_confusable_text :: "unicode \<Rightarrow> rstr \<Rightarrow> rstr" where
  "normalized_confusable_text uc v = collapse_whitespace (concat (map (fold_confusable uc) (uc_nfkc uc v)))"

text \<open>The nonempty pieces between characters that are not alphanumeric.\<close>

definition alnum_pieces :: "unicode \<Rightarrow> rstr \<Rightarrow> rstr list" where
  "alnum_pieces uc s = filter (\<lambda>w. w \<noteq> []) (split_on (\<lambda>c. \<not> uc_is_alphanumeric uc c) s)"

definition tokens :: "unicode \<Rightarrow> rstr \<Rightarrow> rstr btree_set" where
  "tokens uc v = bs_collect (alnum_pieces uc (normalized_text uc v))"

section \<open>Lemmas\<close>

lemma alnum_pieces_spec: "w \<in> set (alnum_pieces uc s) \<Longrightarrow> w \<noteq> [] \<and> list_all (uc_is_alphanumeric uc) w"
  by (auto simp: alnum_pieces_def list_all_iff dest: split_on_pieces)

lemma split_whitespace_pieces:
  "w \<in> set (split_whitespace s) \<Longrightarrow> w \<noteq> [] \<and> list_all (\<lambda>c. \<not> is_whitespace c) w"
  by (auto simp: split_whitespace_def list_all_iff dest: split_on_pieces)

lemma split_on_piece: "list_all (\<lambda>c. \<not> p c) w \<Longrightarrow> split_on p w = [w]"
  by (induction w) auto

lemma split_on_sep: "list_all (\<lambda>c. \<not> p c) w \<Longrightarrow> p d \<Longrightarrow> split_on p (w @ d # s) = w # split_on p s"
  by (induction w) auto

lemma split_whitespace_join:
  "list_all (\<lambda>w. w \<noteq> [] \<and> list_all (\<lambda>c. \<not> is_whitespace c) w) ws \<Longrightarrow> split_whitespace (join_with [32] ws) = ws"
proof (induction ws)
  case Nil
  then show ?case by (simp add: split_whitespace_def)
next
  case (Cons w ws)
  have "is_whitespace 32" by (simp add: is_whitespace_def)
  with Cons show ?case
    by (cases ws) (simp_all add: split_whitespace_def split_on_piece split_on_sep)
qed

text \<open>Collapsing white space is idempotent: the words of the result are the words of the input.\<close>

lemma split_collapse: "split_whitespace (collapse_whitespace s) = split_whitespace s"
  unfolding collapse_whitespace_def
  by (rule split_whitespace_join) (auto simp: list_all_iff dest!: split_whitespace_pieces)

lemma collapse_idem: "collapse_whitespace (collapse_whitespace s) = collapse_whitespace s"
  using split_collapse [of s] by (simp add: collapse_whitespace_def)

end
