(* ===== verification/Canonical.thy ===== *)
theory Canonical
  imports Model Security
begin

text \<open>
  \<open>canonical.rs\<close>: the conservative canonicalisation of result URLs, with the audit list of the
  transformations it applied. The \<open>url\<close> crate is the parameter \<open>api\<close>; what idempotence
  relies on of it is the predicate \<open>url_laws\<close>.
\<close>

section \<open>Percent escapes\<close>

fun has_malformed_bytes :: "nat list \<Rightarrow> bool" where
  "has_malformed_bytes [] = False"
| "has_malformed_bytes (b # bs) =
     ((b = 37 \<and> \<not> (case bs of h1 # h2 # _ \<Rightarrow> is_ascii_hexdigit h1 \<and> is_ascii_hexdigit h2 | _ \<Rightarrow> False))
      \<or> has_malformed_bytes bs)"

definition has_malformed_percent_encoding :: "rstr \<Rightarrow> bool" where
  "has_malformed_percent_encoding v = has_malformed_bytes (as_bytes v)"

fun normalize_hex_bytes :: "nat list \<Rightarrow> rstr" where
  "normalize_hex_bytes (b # h1 # h2 # bs) =
     (if b = 37 \<and> is_ascii_hexdigit h1 \<and> is_ascii_hexdigit h2
      then 37 # ascii_upper h1 # ascii_upper h2 # normalize_hex_bytes bs
      else b # normalize_hex_bytes (h1 # h2 # bs))"
| "normalize_hex_bytes bs = bs"

definition normalize_percent_hex :: "rstr \<Rightarrow> rstr" where
  "normalize_percent_hex v = normalize_hex_bytes (as_bytes v)"

section \<open>The structural transformations\<close>

definition authority_of :: "rstr \<Rightarrow> rstr" where
  "authority_of rest = takeWhile (\<lambda>c. c \<noteq> 47 \<and> c \<noteq> 63 \<and> c \<noteq> 35) rest"

definition raw_host :: "rstr \<Rightarrow> rstr option" where
  "raw_host raw =
     (case split_once_str (lit ''://'') raw of
        None \<Rightarrow> None
      | Some (_, rest) \<Rightarrow>
          (let authority = authority_of rest;
               host_port = (case rsplit_once 64 authority of None \<Rightarrow> authority | Some (_, h) \<Rightarrow> h)
           in if starts_with host_port [91] then None
              else Some (case rsplit_once 58 host_port of None \<Rightarrow> host_port | Some (h, _) \<Rightarrow> h)))"

definition has_default_port :: "rstr \<Rightarrow> rstr \<Rightarrow> bool" where
  "has_default_port raw scheme =
     (case split_once_str (lit ''://'') raw of
        None \<Rightarrow> False
      | Some (_, rest) \<Rightarrow>
          (scheme = lit ''http'' \<and> ends_with (authority_of rest) (lit '':80''))
          \<or> (scheme = lit ''https'' \<and> ends_with (authority_of rest) (lit '':443'')))"

definition has_empty_path :: "rstr \<Rightarrow> bool" where
  "has_empty_path raw =
     (case split_once_str (lit ''://'') raw of None \<Rightarrow> False | Some (_, rest) \<Rightarrow> 47 \<notin> set rest)"

definition structural_transformations :: "url url_api \<Rightarrow> rstr \<Rightarrow> url \<Rightarrow> CanonicalTransformation list" where
  "structural_transformations api raw parsed =
     (case split_once 58 raw of
        Some (scheme, _) \<Rightarrow> if scheme \<noteq> to_ascii_lowercase scheme then [LowercaseScheme] else []
      | None \<Rightarrow> [])
     @ (case raw_host raw of
          Some h \<Rightarrow>
            if \<not> is_ascii_str h then [IdnToPunycode]
            else (case url_host_str api parsed of
                    Some host \<Rightarrow> if h \<noteq> host \<and> to_ascii_lowercase h = to_ascii_lowercase host
                                 then [LowercaseHost] else []
                  | None \<Rightarrow> [])
        | None \<Rightarrow> [])
     @ (if has_default_port raw (url_scheme api parsed) then [RemoveDefaultPort] else [])
     @ (if has_empty_path raw then [AddRootPath] else [])"

section \<open>Canonicalisation\<close>

definition TRACKING_KEYS :: "string list" where
  "TRACKING_KEYS = [''fbclid'', ''gclid'', ''msclkid'', ''yclid'', ''_ga'', ''_gl'', ''mc_cid'', ''mc_eid'']"

definition segment_key :: "rstr \<Rightarrow> rstr" where
  "segment_key segment = (case split_once 61 segment of None \<Rightarrow> segment | Some (key, _) \<Rightarrow> key)"

definition is_tracking :: "rstr \<Rightarrow> bool" where
  "is_tracking segment =
     (let lower = to_ascii_lowercase (segment_key segment) in
      starts_with lower (lit ''utm_'') \<or> lower \<in> set (map lit TRACKING_KEYS))"

definition apply_percent ::
  "url url_api \<Rightarrow> url \<times> CanonicalTransformation list \<Rightarrow> url \<times> CanonicalTransformation list" where
  "apply_percent api st =
     (let (u, ts) = st; normalized = normalize_percent_hex u in
      if normalized \<noteq> u
      then (case url_parse api normalized of
              Some n \<Rightarrow> (n, ts @ [NormalizePercentHex]) | None \<Rightarrow> (u, ts))
      else (u, ts))"

definition kept_query :: "rstr \<Rightarrow> rstr option" where
  "kept_query q =
     (let kept = filter (\<lambda>s. \<not> is_tracking s) (split_on (\<lambda>c. c = 38) q) in
      if kept \<noteq> [] then Some (join_with [38] kept) else None)"

definition apply_query ::
  "url url_api \<Rightarrow> url \<times> CanonicalTransformation list \<Rightarrow> url \<times> CanonicalTransformation list" where
  "apply_query api st =
     (let (u, ts) = st in
      case url_query api u of
        None \<Rightarrow> (u, ts)
      | Some q \<Rightarrow> (url_set_query api (kept_query q) u,
          ts @ map (\<lambda>s. RemoveTrackingParameter (segment_key s)) (filter is_tracking (split_on (\<lambda>c. c = 38) q))))"

definition apply_fragment ::
  "url url_api \<Rightarrow> url \<times> CanonicalTransformation list \<Rightarrow> url \<times> CanonicalTransformation list" where
  "apply_fragment api st =
     (let (u, ts) = st in
      if url_fragment api u = Some [] then (url_set_fragment api None u, ts @ [RemoveEmptyFragment]) else (u, ts))"

definition canonicalize :: "url url_api \<Rightarrow> normalized_result \<Rightarrow> canonical_result" where
  "canonicalize api result =
     (let malformed = has_malformed_percent_encoding (nr_raw_url result);
          (u, transformations) = apply_fragment api (apply_query api (apply_percent api
             (nr_url result, structural_transformations api (nr_raw_url result) (nr_url result))))
      in \<lparr> cr_schema_version = SCHEMA_VERSION, cr_title = nr_title result,
           cr_original_url = nr_url result, cr_canonical_url = u, cr_provider = nr_provider result,
           cr_provider_rank = nr_provider_rank result, cr_snippet = nr_snippet result,
           cr_result_type = nr_result_type result, cr_published_at = nr_published_at result,
           cr_author = nr_author result, cr_language = nr_language result,
           cr_file_type = nr_file_type result, cr_thumbnail = nr_thumbnail result,
           cr_metadata = nr_metadata result, cr_provenance = nr_provenance result,
           cr_transformations = transformations,
           cr_canonicalization_status = (if malformed then Can_Degraded else Can_Complete),
           cr_degradations = (if malformed
             then nr_degradations result @ [\<lparr> deg_code = lit ''canonicalization_incomplete'',
                    deg_component = lit ''canonicalization'',
                    deg_message = lit ''malformed percent escape was preserved conservatively'' \<rparr>]
             else nr_degradations result) \<rparr>)"

section \<open>Percent normalisation is a projection\<close>

text \<open>A string is normal when the digits of each of its escapes are upper case.\<close>

fun pct_normal :: "rstr \<Rightarrow> bool" where
  "pct_normal [] = True"
| "pct_normal (c # cs) \<longleftrightarrow>
     (c = 37 \<longrightarrow> (case cs of h1 # h2 # _ \<Rightarrow> is_ascii_hexdigit h1 \<and> is_ascii_hexdigit h2
                    \<longrightarrow> ascii_upper h1 = h1 \<and> ascii_upper h2 = h2 | _ \<Rightarrow> True))
     \<and> pct_normal cs"

lemma hexdigit_upper: "is_ascii_hexdigit h \<Longrightarrow> is_ascii_hexdigit (ascii_upper h) \<and> ascii_upper h \<noteq> 37 \<and> h \<noteq> 37"
  by (auto simp: ascii_class_defs ascii_upper_def)

lemma ascii_upper_idem [simp]: "ascii_upper (ascii_upper h) = ascii_upper h"
  by (auto simp: ascii_upper_def is_ascii_lower_def)

lemma normalize_hex_nonescape_head:
  "c \<noteq> 37 \<Longrightarrow> normalize_hex_bytes (c # cs) = c # normalize_hex_bytes cs"
  by (cases cs; cases "tl cs") auto

lemma normalize_hex_escape_head: "normalize_hex_bytes (37 # cs) = x # r \<Longrightarrow> x = 37"
  by (cases cs; cases "tl cs") (auto split: if_splits)

lemma normalize_hex_normal: "pct_normal (normalize_hex_bytes s)"
proof (induction s rule: normalize_hex_bytes.induct)
  case (1 b h1 h2 bs)
  show ?case
  proof (cases "b = 37 \<and> is_ascii_hexdigit h1 \<and> is_ascii_hexdigit h2")
    case True
    with 1 hexdigit_upper [of h1] hexdigit_upper [of h2] show ?thesis by simp
  next
    case False
    have key: "b = 37 \<Longrightarrow> is_ascii_hexdigit x1 \<Longrightarrow> is_ascii_hexdigit x2 \<Longrightarrow> False"
      if "normalize_hex_bytes (h1 # h2 # bs) = x1 # x2 # r" for x1 x2 r
    proof -
      assume b: "b = 37" and x: "is_ascii_hexdigit x1" "is_ascii_hexdigit x2"
      have "h1 \<noteq> 37"
        using that x hexdigit_upper [of x1] by (metis normalize_hex_escape_head)
      from that [unfolded normalize_hex_nonescape_head [OF this]]
      have n2: "normalize_hex_bytes (h2 # bs) = x2 # r" and h1: "h1 = x1"
        by (simp_all only: list.inject)
      have "h2 \<noteq> 37" using n2 x hexdigit_upper [of x2] by (metis normalize_hex_escape_head)
      from n2 [unfolded normalize_hex_nonescape_head [OF this]] have "h2 = x2"
        by (simp only: list.inject)
      with h1 b x False show False by simp
    qed
    define n where "n = normalize_hex_bytes (h1 # h2 # bs)"
    have "pct_normal (b # n)"
      using key [folded n_def] 1(2) [OF False, folded n_def] by (cases n; cases "tl n") auto
    moreover have "normalize_hex_bytes (b # h1 # h2 # bs) = b # n"
      by (subst normalize_hex_bytes.simps(1)) (simp only: if_not_P [OF False] n_def)
    ultimately show ?thesis by (simp only:)
  qed
qed auto

lemma pct_normal_fixed: "pct_normal s \<Longrightarrow> normalize_hex_bytes s = s"
  by (induction s rule: normalize_hex_bytes.induct) auto

lemma pct_normal_append:
  assumes "\<not> is_ascii_hexdigit d" "d \<noteq> 37"
  shows "pct_normal (a @ d # b) \<longleftrightarrow> pct_normal a \<and> pct_normal b"
proof (induction a)
  case (Cons c a)
  have "(case a @ d # b of h1 # h2 # _ \<Rightarrow> is_ascii_hexdigit h1 \<and> is_ascii_hexdigit h2
           \<longrightarrow> ascii_upper h1 = h1 \<and> ascii_upper h2 = h2 | _ \<Rightarrow> True)
      = (case a of h1 # h2 # _ \<Rightarrow> is_ascii_hexdigit h1 \<and> is_ascii_hexdigit h2
           \<longrightarrow> ascii_upper h1 = h1 \<and> ascii_upper h2 = h2 | _ \<Rightarrow> True)"
    using assms by (cases a; cases "tl a") (auto split: list.splits)
  with Cons show ?case by simp
qed (use assms in auto)


lemma pct_normal_ascii: "is_ascii_str s \<Longrightarrow> is_ascii_str (normalize_hex_bytes s)"
  by (induction s rule: normalize_hex_bytes.induct)
    (auto simp: is_ascii_str_def ascii_upper_def is_ascii_lower_def)

section \<open>What the crate promises\<close>

text \<open>
  The serialisation of a URL is a base without question mark and hash, an optional query without hash,
  and an optional fragment (WHATWG URL, sections on serialising and on the setters). A URL is
  \<open>parsed\<close> when it is its own serialisation.
\<close>

definition before_fragment :: "url \<Rightarrow> rstr" where
  "before_fragment u = (case split_once 35 u of None \<Rightarrow> u | Some (a, _) \<Rightarrow> a)"

definition fragment_part :: "url \<Rightarrow> rstr option" where
  "fragment_part u = map_option snd (split_once 35 u)"

definition url_base :: "url \<Rightarrow> rstr" where
  "url_base u = (case split_once 63 (before_fragment u) of None \<Rightarrow> before_fragment u | Some (a, _) \<Rightarrow> a)"

definition query_part :: "url \<Rightarrow> rstr option" where
  "query_part u = map_option snd (split_once 63 (before_fragment u))"

definition url_text :: "rstr \<Rightarrow> rstr option \<Rightarrow> rstr option \<Rightarrow> url" where
  "url_text b q f = b @ (case q of None \<Rightarrow> [] | Some q \<Rightarrow> 63 # q) @ (case f of None \<Rightarrow> [] | Some f \<Rightarrow> 35 # f)"

definition parsed :: "url url_api \<Rightarrow> url \<Rightarrow> bool" where
  "parsed api u \<longleftrightarrow> url_parse api u = Some u"

text \<open>
  The documented behaviour relied on: a serialised URL parses to itself, is ASCII, stays one when the
  digits of its escapes are upper-cased; the accessors read the parts of the serialisation; the
  setters replace a part, verbatim when the new query uses only characters of the old one.
\<close>

definition url_laws :: "url url_api \<Rightarrow> bool" where
  "url_laws api \<longleftrightarrow>
     (\<forall>s u. url_parse api s = Some u \<longrightarrow> parsed api u)
     \<and> (\<forall>u. parsed api u \<longrightarrow>
          is_ascii_str u \<and> parsed api (normalize_percent_hex u)
          \<and> url_query api u = query_part u \<and> url_fragment api u = fragment_part u
          \<and> url_set_query api None u = url_text (url_base u) None (fragment_part u)
          \<and> parsed api (url_text (url_base u) None (fragment_part u))
          \<and> url_set_fragment api None u = url_text (url_base u) (query_part u) None
          \<and> parsed api (url_text (url_base u) (query_part u) None))
     \<and> (\<forall>u old q. parsed api u \<longrightarrow> query_part u = Some old \<longrightarrow> set q \<subseteq> set old \<longrightarrow>
          url_set_query api (Some q) u = url_text (url_base u) (Some q) (fragment_part u)
          \<and> parsed api (url_text (url_base u) (Some q) (fragment_part u)))"

lemma split_once_append: "d \<notin> set a \<Longrightarrow> split_once d (a @ d # b) = Some (a, b)"
  by (induction a) auto

lemma before_fragment_text: "before_fragment u @ (case fragment_part u of None \<Rightarrow> [] | Some f \<Rightarrow> 35 # f) = u"
  "35 \<notin> set (before_fragment u)"
  using split_once_Some [of 35 u] split_once_None [of 35 u]
  by (cases "split_once 35 u"; force simp: before_fragment_def fragment_part_def)+

lemma url_base_text: "url_base u @ (case query_part u of None \<Rightarrow> [] | Some q \<Rightarrow> 63 # q) = before_fragment u"
  "63 \<notin> set (url_base u)"
  using split_once_Some [of 63 "before_fragment u"] split_once_None [of 63 "before_fragment u"]
  by (cases "split_once 63 (before_fragment u)"; force simp: url_base_def query_part_def)+

lemma url_text_parts: "url_text (url_base u) (query_part u) (fragment_part u) = u"
  by (simp add: url_text_def before_fragment_text(1) url_base_text(1) flip: append_assoc)

lemma before_fragment_set:
  "set (before_fragment u) = set (url_base u) \<union> (case query_part u of None \<Rightarrow> {} | Some q \<Rightarrow> insert 63 (set q))"
  by (subst url_base_text(1) [symmetric]) (auto split: option.split)

lemma base_clean: "63 \<notin> set (url_base u)" "35 \<notin> set (url_base u)"
  using url_base_text(2) before_fragment_text(2) [of u] by (simp_all add: before_fragment_set)

lemma query_clean: "query_part u = Some q \<Longrightarrow> 35 \<notin> set q"
  using before_fragment_text(2) [of u] by (simp add: before_fragment_set)

lemma parts_of_text:
  assumes "63 \<notin> set b" "35 \<notin> set b" "\<And>x. q = Some x \<Longrightarrow> 35 \<notin> set x"
  shows "url_base (url_text b q f) = b" "query_part (url_text b q f) = q" "fragment_part (url_text b q f) = f"
proof -
  let ?p = "b @ (case q of None \<Rightarrow> [] | Some q \<Rightarrow> 63 # q)"
  have p: "35 \<notin> set ?p" using assms by (auto split: option.splits)
  have "split_once 35 (url_text b q f) = (case f of None \<Rightarrow> None | Some f \<Rightarrow> Some (?p, f))"
    using split_once_append [OF p] split_once_None [of 35 ?p] p by (cases f) (auto simp: url_text_def)
  then have f: "fragment_part (url_text b q f) = f" and bf: "before_fragment (url_text b q f) = ?p"
    by (cases f; simp add: fragment_part_def before_fragment_def url_text_def)+
  have sp: "split_once 63 ?p = (case q of None \<Rightarrow> None | Some x \<Rightarrow> Some (b, x))"
    using split_once_append [OF assms(1)] split_once_None [of 63 b] assms(1) by (cases q) auto
  show "url_base (url_text b q f) = b" unfolding url_base_def bf sp by (cases q) simp_all
  show "query_part (url_text b q f) = q" unfolding query_part_def bf sp by (cases q) simp_all
  show "fragment_part (url_text b q f) = f" by (rule f)
qed

section \<open>Idempotence\<close>

lemma split_on_join:
  assumes "ws \<noteq> []" "\<And>w. w \<in> set ws \<Longrightarrow> k \<notin> set w"
  shows "split_on (\<lambda>c. c = k) (join_with [k] ws) = ws"
  using assms
proof (induction ws)
  case (Cons w ws)
  have piece: "split_on (\<lambda>c. c = k) v = [v]" "split_on (\<lambda>c. c = k) (v @ k # r) = v # split_on (\<lambda>c. c = k) r"
    if "k \<notin> set v" for v r using that by (induction v) auto
  from Cons show ?case by (cases ws) (simp_all add: piece)
qed simp

lemma kept_query_fixed: "kept_query q = Some k \<Longrightarrow> kept_query k = Some k"
proof -
  assume "kept_query q = Some k"
  then have ne: "filter (\<lambda>s. \<not> is_tracking s) (split_on (\<lambda>c. c = 38) q) \<noteq> []"
    and k: "k = join_with [38] (filter (\<lambda>s. \<not> is_tracking s) (split_on (\<lambda>c. c = 38) q))"
    by (auto simp: kept_query_def Let_def split: if_splits)
  have "split_on (\<lambda>c. c = 38) k = filter (\<lambda>s. \<not> is_tracking s) (split_on (\<lambda>c. c = 38) q)"
    unfolding k by (rule split_on_join [OF ne]) (auto dest: split_on_pieces)
  with ne show ?thesis by (simp add: kept_query_def Let_def k)
qed

lemma join_with_set: "set (join_with [k] ws) \<subseteq> (if 2 \<le> length ws then {k} else {}) \<union> \<Union> (set ` set ws)"
proof (induction ws rule: induct_list012)
  case (3 x y zs)
  have "set (join_with [k] (y # zs)) \<subseteq> insert k (\<Union> (set ` set (y # zs)))"
    using "3.IH"(2) by (auto split: if_splits)
  then show ?case by auto
qed simp_all

lemma split_on_two: "2 \<le> length (split_on p s) \<Longrightarrow> \<exists>c\<in>set s. p c"
proof (rule ccontr)
  assume "2 \<le> length (split_on p s)" and n: "\<not> (\<exists>c\<in>set s. p c)"
  moreover from n have "split_on p s = [s]" by (induction s) auto
  ultimately show False by simp
qed

lemma kept_query_chars: "kept_query q = Some k \<Longrightarrow> set k \<subseteq> set q"
proof -
  let ?ws = "filter (\<lambda>s. \<not> is_tracking s) (split_on (\<lambda>c. c = 38) q)"
  assume "kept_query q = Some k"
  then have k: "k = join_with [38] ?ws" by (auto simp: kept_query_def Let_def split: if_splits)
  have "2 \<le> length ?ws \<Longrightarrow> 38 \<in> set q"
    using split_on_two [of "\<lambda>c. c = 38" q] length_filter_le [of "\<lambda>s. \<not> is_tracking s" "split_on (\<lambda>c. c = 38) q"]
    by fastforce
  moreover have "\<Union> (set ` set ?ws) \<subseteq> set q" by (auto dest: split_on_pieces)
  ultimately have "(if 2 \<le> length ?ws then {38} else {}) \<union> \<Union> (set ` set ?ws) \<subseteq> set q" by simp
  with join_with_set [of 38 ?ws] show ?thesis unfolding k by (rule subset_trans)
qed

lemma pct_normal_join: "pct_normal (join_with [38] ws) \<longleftrightarrow> (\<forall>w\<in>set ws. pct_normal w)"
  by (induction ws rule: induct_list012)
    (simp_all add: pct_normal_append is_ascii_hexdigit_def is_ascii_digit_def)

lemma join_split_amp: "join_with [k] (split_on (\<lambda>c. c = k) v) = v"
proof (induction v)
  case (Cons c v)
  obtain w ws where "split_on (\<lambda>c. c = k) v = w # ws" by (meson list.exhaust split_on_nonempty)
  with Cons show ?case by (cases ws) auto
qed simp

lemma kept_query_normal: "pct_normal q \<Longrightarrow> kept_query q = Some k \<Longrightarrow> pct_normal k"
proof -
  assume n: "pct_normal q" and "kept_query q = Some k"
  then have k: "k = join_with [38] (filter (\<lambda>s. \<not> is_tracking s) (split_on (\<lambda>c. c = 38) q))"
    by (auto simp: kept_query_def Let_def split: if_splits)
  from n have "pct_normal (join_with [38] (split_on (\<lambda>c. c = 38) q))" by (simp add: join_split_amp)
  then show ?thesis unfolding k pct_normal_join by simp
qed

lemma pct_normal_text:
  "pct_normal (url_text b q f) \<longleftrightarrow> pct_normal b \<and> pred_option pct_normal q \<and> pred_option pct_normal f"
proof -
  have h: "\<not> is_ascii_hexdigit 63" "\<not> is_ascii_hexdigit 35" by (simp_all add: ascii_class_defs)
  show ?thesis
    using pct_normal_append [OF h(1)] pct_normal_append [OF h(2)]
    by (cases q; cases f) (simp_all add: url_text_def flip: append_assoc append_Cons)
qed

text \<open>The canonical URL, by its parts.\<close>

definition canonical_parts :: "url \<Rightarrow> url" where
  "canonical_parts n = url_text (url_base n) (Option.bind (query_part n) kept_query)
     (if fragment_part n = Some [] then None else fragment_part n)"

lemma apply_percent_url:
  assumes "url_laws api" "parsed api u"
  shows "fst (apply_percent api (u, ts)) = normalize_percent_hex u"
  using assms by (auto simp: url_laws_def apply_percent_def parsed_def Let_def split: option.splits)

lemma apply_query_url:
  fixes ts :: "CanonicalTransformation list"
  assumes laws: "url_laws api" and n: "parsed api n"
  defines "m \<equiv> fst (apply_query api (n, ts))"
  shows "m = url_text (url_base n) (Option.bind (query_part n) kept_query) (fragment_part n)" "parsed api m"
proof -
  have q: "url_query api n = query_part n" using laws n by (simp add: url_laws_def)
  have "m = url_text (url_base n) (Option.bind (query_part n) kept_query) (fragment_part n) \<and> parsed api m"
  proof (cases "query_part n")
    case None
    with n show ?thesis
      using url_text_parts [of n] by (simp add: m_def apply_query_def q)
  next
    case (Some old)
    then have m: "m = url_set_query api (kept_query old) n" by (simp add: m_def apply_query_def q)
    show ?thesis
    proof (cases "kept_query old")
      case None
      with laws n Some show ?thesis by (simp add: m url_laws_def)
    next
      case (Some k)
      with laws n \<open>query_part n = Some old\<close> kept_query_chars [OF Some] show ?thesis
        by (simp add: m url_laws_def)
    qed
  qed
  then show "m = url_text (url_base n) (Option.bind (query_part n) kept_query) (fragment_part n)" "parsed api m"
    by auto
qed

lemma bind_kept_clean: "Option.bind (query_part n) kept_query = Some x \<Longrightarrow> 35 \<notin> set x"
  by (metis Option.bind_eq_Some_conv kept_query_chars query_clean subsetD)

lemma kept_parts:
  fixes n :: url
  defines "m \<equiv> url_text (url_base n) (Option.bind (query_part n) kept_query) (fragment_part n)"
  shows "url_base m = url_base n" "query_part m = Option.bind (query_part n) kept_query"
    "fragment_part m = fragment_part n"
proof -
  show "url_base m = url_base n" "query_part m = Option.bind (query_part n) kept_query"
    "fragment_part m = fragment_part n"
    unfolding m_def using parts_of_text [OF base_clean(1) base_clean(2) bind_kept_clean] by simp_all
qed

lemma set_fragment_law:
  "url_laws api \<Longrightarrow> parsed api m \<Longrightarrow>
     url_set_fragment api None m = url_text (url_base m) (query_part m) None
     \<and> parsed api (url_text (url_base m) (query_part m) None)"
  by (simp add: url_laws_def)

lemma canonical_url_parts:
  fixes ts :: "CanonicalTransformation list"
  assumes laws: "url_laws api" and u: "parsed api u"
  defines "c \<equiv> fst (apply_fragment api (apply_query api (apply_percent api (u, ts))))"
  shows "c = canonical_parts (normalize_hex_bytes u)" "parsed api c"
proof -
  have a: "as_bytes u = u" using laws u by (simp add: url_laws_def as_bytes_ascii)
  then have p1: "fst (apply_percent api (u, ts)) = normalize_hex_bytes u"
    using apply_percent_url [OF laws u] by (simp add: normalize_percent_hex_def)
  let ?n = "normalize_hex_bytes u"
  have "parsed api (normalize_percent_hex u)" using laws u by (simp add: url_laws_def)
  then have n: "parsed api ?n" by (simp add: normalize_percent_hex_def a)
  obtain t1 where p: "apply_percent api (u, ts) = (?n, t1)" using p1 by (metis prod.collapse)
  let ?m = "url_text (url_base ?n) (Option.bind (query_part ?n) kept_query) (fragment_part ?n)"
  have m: "fst (apply_query api (?n, t1)) = ?m" "parsed api ?m"
    using apply_query_url [OF laws n, of t1] by simp_all
  obtain t2 where m2: "apply_query api (?n, t1) = (?m, t2)" using m(1) by (metis prod.collapse)
  have f: "url_fragment api ?m = fragment_part ?n"
    using laws m(2) by (simp add: url_laws_def kept_parts)
  have c: "c = (if fragment_part ?n = Some [] then url_set_fragment api None ?m else ?m)"
    by (simp add: c_def p m2 apply_fragment_def f)
  have d: "url_set_fragment api None ?m = url_text (url_base ?n) (Option.bind (query_part ?n) kept_query) None"
    "parsed api (url_text (url_base ?n) (Option.bind (query_part ?n) kept_query) None)"
    using set_fragment_law [OF laws m(2)] by (simp_all add: kept_parts)
  from c [unfolded d(1)] show "c = canonical_parts ?n" by (simp add: canonical_parts_def)
  from c [unfolded d(1)] d(2) m(2) show "parsed api c" by (simp split: if_splits)
qed

lemma canonical_parts_fixed:
  assumes "pct_normal n"
  shows "normalize_hex_bytes (canonical_parts n) = canonical_parts n"
    "canonical_parts (canonical_parts n) = canonical_parts n"
    "query_part (canonical_parts n) = Option.bind (query_part n) kept_query"
    "fragment_part (canonical_parts n) \<noteq> Some []"
proof -
  have parts: "pct_normal (url_base n)" "pred_option pct_normal (query_part n)" "pred_option pct_normal (fragment_part n)"
    using assms url_text_parts [of n] pct_normal_text [of "url_base n" "query_part n" "fragment_part n"] by simp_all
  have "pred_option pct_normal (Option.bind (query_part n) kept_query)"
    using parts(2) kept_query_normal by (cases "query_part n"; cases "kept_query (the (query_part n))") auto
  with parts show "normalize_hex_bytes (canonical_parts n) = canonical_parts n"
    by (intro pct_normal_fixed) (simp add: canonical_parts_def pct_normal_text)
  note c = parts_of_text [OF base_clean(1) base_clean(2) bind_kept_clean]
  show qp: "query_part (canonical_parts n) = Option.bind (query_part n) kept_query"
    by (simp add: canonical_parts_def c)
  show "fragment_part (canonical_parts n) \<noteq> Some []"
    by (simp add: canonical_parts_def c)
  have "Option.bind (Option.bind (query_part n) kept_query) kept_query = Option.bind (query_part n) kept_query"
    using kept_query_fixed by (cases "query_part n"; cases "kept_query (the (query_part n))") auto
  then show "canonical_parts (canonical_parts n) = canonical_parts n"
    unfolding canonical_parts_def [of "canonical_parts n"] qp by (simp add: canonical_parts_def c)
qed

lemma canonicalize_url:
  "cr_canonical_url (canonicalize api r) = fst (apply_fragment api (apply_query api (apply_percent api
     (nr_url r, structural_transformations api (nr_raw_url r) (nr_url r)))))"
  by (simp add: canonicalize_def Let_def split_beta)

lemma kept_query_clean:
  "kept_query q = Some k \<Longrightarrow> list_all (\<lambda>s. \<not> is_tracking s) (split_on (\<lambda>c. c = 38) k)"
proof -
  assume k: "kept_query q = Some k"
  from kept_query_fixed [OF k] have
    "join_with [38] (filter (\<lambda>s. \<not> is_tracking s) (split_on (\<lambda>c. c = 38) k)) = k"
    and ne: "filter (\<lambda>s. \<not> is_tracking s) (split_on (\<lambda>c. c = 38) k) \<noteq> []"
    by (auto simp: kept_query_def Let_def split: if_splits)
  then have "split_on (\<lambda>c. c = 38) k = filter (\<lambda>s. \<not> is_tracking s) (split_on (\<lambda>c. c = 38) k)"
    using split_on_join [OF ne, of 38] split_on_pieces [of _ "\<lambda>c. c = 38" k] by fastforce
  then show ?thesis by (metis (no_types, lifting) filter_id_conv list_all_iff)
qed


text \<open>The laws can hold: a crate that accepts every ASCII string and works on its parts.\<close>

definition ascii_api :: "url url_api" where
  "ascii_api = \<lparr> url_parse = (\<lambda>s. if is_ascii_str s then Some s else None), url_as_str = (\<lambda>u. u),
     url_scheme = (\<lambda>u. lit ''https''), url_username = (\<lambda>u. []), url_password = (\<lambda>u. None),
     url_host = (\<lambda>u. Some (Domain (lit ''a.b''))), url_host_str = (\<lambda>u. Some (lit ''a.b'')),
     url_query = query_part, url_fragment = fragment_part,
     url_set_query = (\<lambda>q u. url_text (url_base u) q (fragment_part u)),
     url_set_fragment = (\<lambda>f u. url_text (url_base u) (query_part u) f) \<rparr>"

lemma ascii_text: "is_ascii_str (url_text b q f) \<longleftrightarrow> is_ascii_str b \<and> pred_option is_ascii_str q \<and> pred_option is_ascii_str f"
  by (cases q; cases f) (auto simp: url_text_def is_ascii_str_def)

lemma ascii_parts:
  "is_ascii_str u \<Longrightarrow> is_ascii_str (url_base u) \<and> pred_option is_ascii_str (query_part u)
     \<and> pred_option is_ascii_str (fragment_part u)"
  using ascii_text [of "url_base u" "query_part u" "fragment_part u"] by (simp add: url_text_parts)

lemma ascii_subset: "set q \<subseteq> set old \<Longrightarrow> is_ascii_str old \<Longrightarrow> is_ascii_str q"
  by (auto simp: is_ascii_str_def list_all_iff)

lemma ascii_api_laws: "url_laws ascii_api"
proof -
  have p: "parsed ascii_api u \<longleftrightarrow> is_ascii_str u" for u by (simp add: parsed_def ascii_api_def)
  have n: "is_ascii_str u \<Longrightarrow> is_ascii_str (normalize_percent_hex u)" for u
    by (simp add: normalize_percent_hex_def as_bytes_ascii pct_normal_ascii)
  have "is_ascii_str q" if "is_ascii_str u" "query_part u = Some old" "set q \<subseteq> set old" for u old q
    using that ascii_parts [of u] ascii_subset by auto
  with p n ascii_parts show ?thesis
    unfolding url_laws_def p by (simp add: ascii_text) (simp add: ascii_api_def)
qed

definition sample_result :: normalized_result where
  "sample_result = \<lparr> nr_schema_version = SCHEMA_VERSION, nr_title = None,
     nr_raw_url = lit ''https://a.b/x?utm_source=1&id=%2f#'', nr_url = lit ''https://a.b/x?utm_source=1&id=%2f#'',
     nr_provider = lit ''p'', nr_provider_rank = None, nr_snippet = None, nr_result_type = Rt_Organic,
     nr_published_at = None, nr_author = None, nr_language = None, nr_file_type = None,
     nr_thumbnail = None, nr_metadata = [], nr_provenance = [], nr_degradations = [] \<rparr>"


end
