(* ===== verification/Dedupe.thy ===== *)
theory Dedupe
  imports Text Security
begin

text \<open>
  \<open>dedupe.rs\<close>: grouping canonical results by canonical URL, merging each group into one result
  that keeps the provenance of all its members, and marking possible duplicates by title similarity.
\<close>

section \<open>Confirmed duplicates\<close>

definition input_cmp :: "canonical_result \<Rightarrow> canonical_result \<Rightarrow> ordering" where
  "input_cmp left right =
     then_with (ord_cmp (cr_canonical_url left) (cr_canonical_url right))
       (then_with (ord_cmp (cr_original_url left) (cr_original_url right))
         (ord_cmp (cr_provider left) (cr_provider right)))"

definition group_cmp :: "canonical_result \<Rightarrow> canonical_result \<Rightarrow> ordering" where
  "group_cmp left right =
     then_with (ord_cmp (cr_title right \<noteq> None) (cr_title left \<noteq> None))
       (then_with (ord_cmp (cr_snippet right \<noteq> None) (cr_snippet left \<noteq> None))
         (then_with (option_cmp (cr_published_at right) (cr_published_at left))
           (then_with (ord_cmp (cr_canonical_url left) (cr_canonical_url right))
             (then_with (ord_cmp (cr_original_url left) (cr_original_url right))
               (ord_cmp (cr_provider left) (cr_provider right))))))"

interpretation input_order: total_comparator input_cmp
  unfolding input_cmp_def [abs_def] by (intro comparator_intros)

interpretation group_order: total_comparator group_cmp
  unfolding group_cmp_def [abs_def] by (intro comparator_intros)

text \<open>The update of one provider's best rank: \<open>and_modify(...).or_insert(...)\<close>.\<close>

fun best_rank :: "rank option \<Rightarrow> rank option \<Rightarrow> rank option" where
  "best_rank (Some left) (Some right) = Some (min left right)"
| "best_rank None right = right"
| "best_rank left None = left"

definition add_rank ::
  "(rstr, rank option) btree_map \<Rightarrow> canonical_result \<Rightarrow> (rstr, rank option) btree_map" where
  "add_rank m result =
     bt_insert (cr_provider result)
       (case bt_get m (cr_provider result) of
          Some rank \<Rightarrow> best_rank rank (cr_provider_rank result)
        | None \<Rightarrow> cr_provider_rank result) m"

definition merge_confirmed_group :: "canonical_result list \<Rightarrow> deduplicated_result" where
  "merge_confirmed_group group0 =
     (let group = sort_by group_cmp group0;
          representative = hd group;
          snippets = bs_collect (List.map_filter cr_snippet group);
          confirmed = 1 < length group;
          original_exact = confirmed \<and>
            list_all (\<lambda>result. cr_original_url result = cr_original_url representative) group
      in \<lparr> dr_schema_version = SCHEMA_VERSION, dr_title = cr_title representative,
           dr_original_url = cr_original_url representative,
           dr_canonical_url = cr_canonical_url representative,
           dr_original_urls = bs_collect (map cr_original_url group),
           dr_providers = bs_collect (map cr_provider group),
           dr_representative_provider = cr_provider representative,
           dr_provider_ranks = foldl add_rank bt_empty group,
           dr_snippet = cr_snippet representative,
           dr_alternate_snippets = filter (\<lambda>snippet. Some snippet \<noteq> cr_snippet representative) snippets,
           dr_result_type = cr_result_type representative,
           dr_published_at = cr_published_at representative, dr_author = cr_author representative,
           dr_language = cr_language representative, dr_file_type = cr_file_type representative,
           dr_thumbnail = cr_thumbnail representative, dr_metadata = cr_metadata representative,
           dr_observed_dates = bs_collect (List.map_filter cr_published_at group),
           dr_duplicate_status = (if confirmed then ConfirmedDuplicate else Distinct),
           dr_merge_reason = (if confirmed
             then Some (if original_exact then OriginalUrlExact else CanonicalUrlExact) else None),
           dr_possible_duplicate_with = [] \<rparr>)"

definition add_to_group ::
  "(url, canonical_result list) btree_map \<Rightarrow> canonical_result \<Rightarrow> (url, canonical_result list) btree_map" where
  "add_to_group groups result = bt_entry (cr_canonical_url result) [] (\<lambda>g. g @ [result]) groups"

section \<open>Possible duplicates\<close>

definition title_tokens :: "unicode \<Rightarrow> rstr \<Rightarrow> rstr btree_set" where
  "title_tokens uc title = bs_collect (alnum_pieces uc (normalized_confusable_text uc title))"

definition title_similarity ::
  "unicode \<Rightarrow> url url_api \<Rightarrow> deduplicated_result \<Rightarrow> deduplicated_result \<Rightarrow> f64 option" where
  "title_similarity uc api left right =
     (if url_host_str api (dr_canonical_url left) = url_host_str api (dr_canonical_url right) then None
      else case (dr_title left, dr_title right) of
        (Some left_title, Some right_title) \<Rightarrow>
          if length left_title < 20 \<or> length right_title < 20 then None
          else let left_tokens = title_tokens uc left_title; right_tokens = title_tokens uc right_title in
            if length left_tokens < 4 \<or> length right_tokens < 4 then None
            else Some (f64_div (f64_of_nat (card (set left_tokens \<inter> set right_tokens)))
                               (f64_of_nat (card (set left_tokens \<union> set right_tokens))))
      | _ \<Rightarrow> None)"

definition similar :: "unicode \<Rightarrow> url url_api \<Rightarrow> deduplicated_result \<Rightarrow> deduplicated_result \<Rightarrow> bool" where
  "similar uc api left right =
     (case title_similarity uc api left right of None \<Rightarrow> False | Some v \<Rightarrow> f64_le (f64_lit 9 10) v)"

definition link :: "url \<Rightarrow> deduplicated_result \<Rightarrow> deduplicated_result" where
  "link other result = result\<lparr>
     dr_possible_duplicate_with := dr_possible_duplicate_with result @ [other],
     dr_duplicate_status := (if dr_duplicate_status result = Distinct then PossibleDuplicate
                             else dr_duplicate_status result) \<rparr>"

text \<open>The body of the double loop for one pair of indices.\<close>

definition mark_pair ::
  "unicode \<Rightarrow> url url_api \<Rightarrow> deduplicated_result list \<Rightarrow> nat \<times> nat \<Rightarrow> deduplicated_result list" where
  "mark_pair uc api results p =
     (let (i, j) = p; left = results ! i; right = results ! j in
      if similar uc api left right
      then results[i := link (dr_canonical_url right) left, j := link (dr_canonical_url left) right]
      else results)"

definition pair_indices :: "nat \<Rightarrow> (nat \<times> nat) list" where
  "pair_indices n = concat (map (\<lambda>i. map (Pair i) [i + 1..<n]) [0..<n])"

definition mark_possible_duplicates ::
  "unicode \<Rightarrow> url url_api \<Rightarrow> deduplicated_result list \<Rightarrow> deduplicated_result list" where
  "mark_possible_duplicates uc api results =
     foldl (mark_pair uc api) results (pair_indices (length results))"

definition deduplicate ::
  "unicode \<Rightarrow> url url_api \<Rightarrow> canonical_result list \<Rightarrow> deduplicated_result list" where
  "deduplicate uc api results =
     (let groups = foldl add_to_group bt_empty (sort_by input_cmp results)
      in mark_possible_duplicates uc api (map merge_confirmed_group (bt_values groups)))"

section \<open>Grouping\<close>

lemma groups_spec:
  "bt_wf m \<Longrightarrow> bt_wf (foldl add_to_group m rs)
   \<and> (\<forall>u. bt_get (foldl add_to_group m rs) u =
        (let new = filter (\<lambda>r. cr_canonical_url r = u) rs in
         case bt_get m u of Some g \<Rightarrow> Some (g @ new) | None \<Rightarrow> if new = [] then None else Some new))"
proof (induction rs arbitrary: m)
  case Nil
  then show ?case by (auto split: option.split)
next
  case (Cons r rs)
  have wf: "bt_wf (add_to_group m r)" using Cons.prems by (simp add: add_to_group_def bt_entry_wf)
  have "bt_get (add_to_group m r) u = (if u = cr_canonical_url r
      then Some ((case bt_get m u of None \<Rightarrow> [] | Some g \<Rightarrow> g) @ [r]) else bt_get m u)" for u
    using Cons.prems by (simp add: add_to_group_def bt_get_entry)
  with Cons.IH [OF wf] show ?case by (auto simp: Let_def split: option.splits)
qed

definition groups_of :: "canonical_result list \<Rightarrow> (url, canonical_result list) btree_map" where
  "groups_of results = foldl add_to_group bt_empty (sort_by input_cmp results)"

lemma groups_of_wf: "bt_wf (groups_of rs)"
  using groups_spec [of bt_empty "sort_by input_cmp rs"]
  by (simp add: groups_of_def bt_wf_def bt_empty_def)

lemma groups_of_get:
  "(u, g) \<in> set (groups_of rs) \<longleftrightarrow>
     g = filter (\<lambda>r. cr_canonical_url r = u) (sort_by input_cmp rs) \<and> (\<exists>r\<in>set rs. cr_canonical_url r = u)"
proof -
  have "bt_wf (bt_empty :: (url, canonical_result list) btree_map)" by (simp add: bt_wf_def bt_empty_def)
  from groups_spec [OF this, of "sort_by input_cmp rs"]
  have get: "bt_get (groups_of rs) u = (let new = filter (\<lambda>r. cr_canonical_url r = u) (sort_by input_cmp rs) in
      if new = [] then None else Some new)"
    by (simp add: groups_of_def bt_get_def bt_empty_def)
  have ne: "filter (\<lambda>r. cr_canonical_url r = u) (sort_by input_cmp rs) = [] \<longleftrightarrow> \<not> (\<exists>r\<in>set rs. cr_canonical_url r = u)"
    by (simp add: filter_empty_conv)
  show ?thesis
    unfolding bt_wf_get [OF groups_of_wf] get Let_def using ne by auto
qed

section \<open>Marking\<close>

lemma link_simps [simp]:
  "dr_canonical_url (link u r) = dr_canonical_url r" "dr_title (link u r) = dr_title r"
  "dr_providers (link u r) = dr_providers r" "dr_original_urls (link u r) = dr_original_urls r"
  "dr_possible_duplicate_with (link u r) = dr_possible_duplicate_with r @ [u]"
  by (simp_all add: link_def)

lemma similar_link [simp]:
  "similar uc api (link u l) r = similar uc api l r" "similar uc api l (link u r) = similar uc api l r"
  by (simp_all add: similar_def title_similarity_def)

lemma similar_commute: "similar uc api l r = similar uc api r l"
proof -
  have "title_similarity uc api l r = title_similarity uc api r l"
    by (auto simp: title_similarity_def Let_def Int_commute Un_commute split: option.splits)
  then show ?thesis by (simp add: similar_def)
qed

definition links :: "url list \<Rightarrow> deduplicated_result \<Rightarrow> deduplicated_result" where
  "links us r = foldl (\<lambda>r u. link u r) r us"

lemma links_simps [simp]:
  "dr_canonical_url (links us r) = dr_canonical_url r" "dr_title (links us r) = dr_title r"
  "dr_providers (links us r) = dr_providers r" "dr_original_urls (links us r) = dr_original_urls r"
  "dr_possible_duplicate_with (links us r) = dr_possible_duplicate_with r @ us"
  "similar uc api (links us l) r = similar uc api l r" "similar uc api l (links us r) = similar uc api l r"
  unfolding links_def by (induction us arbitrary: l r rule: rev_induct) simp_all

lemma links_status:
  "dr_duplicate_status (links us r) =
     (if us \<noteq> [] \<and> dr_duplicate_status r = Distinct then PossibleDuplicate else dr_duplicate_status r)"
  unfolding links_def by (induction us rule: rev_induct) (auto simp: link_def)

lemma links_append: "links (us @ [u]) r = link u (links us r)"
  by (simp add: links_def)

text \<open>The indices a list of pairs connects an index to, in order.\<close>

definition partners :: "nat \<Rightarrow> (nat \<times> nat) list \<Rightarrow> nat list" where
  "partners k ps = concat (map (\<lambda>(i, j). if i = k then [j] else if j = k then [i] else []) ps)"

definition similar_urls :: "unicode \<Rightarrow> url url_api \<Rightarrow> deduplicated_result list \<Rightarrow> nat \<Rightarrow> nat list \<Rightarrow> url list" where
  "similar_urls uc api rs k js = map (\<lambda>j. dr_canonical_url (rs ! j)) (filter (\<lambda>j. similar uc api (rs ! k) (rs ! j)) js)"

lemma mark_pairs:
  assumes "list_all (\<lambda>(i, j). i < j \<and> j < length rs) ps"
  shows "length (foldl (mark_pair uc api) rs ps) = length rs
    \<and> (\<forall>k<length rs. foldl (mark_pair uc api) rs ps ! k = links (similar_urls uc api rs k (partners k ps)) (rs ! k))"
  using assms
proof (induction ps rule: rev_induct)
  case Nil
  then show ?case by (simp add: partners_def similar_urls_def links_def)
next
  case (snoc p ps)
  obtain i j where p: "p = (i, j)" by fastforce
  from snoc.prems have ij: "i < j" "j < length rs" by (simp_all add: p)
  define f where "f = foldl (mark_pair uc api) rs ps"
  from snoc have len: "length f = length rs"
    and at: "\<And>k. k < length rs \<Longrightarrow> f ! k = links (similar_urls uc api rs k (partners k ps)) (rs ! k)"
    by (simp_all add: f_def)
  have step: "foldl (mark_pair uc api) rs (ps @ [p]) = (if similar uc api (f ! i) (f ! j)
      then f[i := link (dr_canonical_url (f ! j)) (f ! i), j := link (dr_canonical_url (f ! i)) (f ! j)] else f)"
    by (simp add: f_def [symmetric] p mark_pair_def Let_def)
  have app: "similar_urls uc api rs k (partners k (ps @ [p])) = similar_urls uc api rs k (partners k ps)
      @ (if i = k then similar_urls uc api rs k [j] else if j = k then similar_urls uc api rs k [i] else [])" for k
    by (simp add: partners_def similar_urls_def p)
  have sim: "similar uc api (f ! i) (f ! j) = similar uc api (rs ! i) (rs ! j)" using ij at by simp
  show ?case
  proof (cases "similar uc api (rs ! i) (rs ! j)")
    case True
    then have "similar uc api (rs ! j) (rs ! i)" using similar_commute by blast
    with True ij have one: "similar_urls uc api rs i [j] = [dr_canonical_url (rs ! j)]"
      "similar_urls uc api rs j [i] = [dr_canonical_url (rs ! i)]" by (simp_all add: similar_urls_def)
    show ?thesis
      unfolding step app using True sim ij by (auto simp: len nth_list_update at links_append one)
  next
    case False
    then have "\<not> similar uc api (rs ! j) (rs ! i)" using similar_commute by blast
    with False have none: "similar_urls uc api rs i [j] = []" "similar_urls uc api rs j [i] = []"
      by (simp_all add: similar_urls_def)
    show ?thesis
      unfolding step app using False sim ij by (auto simp: len at none)
  qed
qed

lemma partners_append: "partners k (ps @ qs) = partners k ps @ partners k qs"
  by (simp add: partners_def)

lemma partners_row:
  "partners k (map (Pair i) [a..<n]) = (if i = k then [a..<n] else if a \<le> k \<and> k < n then [i] else [])"
  by (induction n) (auto simp: partners_append, auto simp: partners_def)

lemma partners_rows:
  "k < n \<Longrightarrow> m \<le> n \<Longrightarrow> partners k (concat (map (\<lambda>i. map (Pair i) [i + 1..<n]) [0..<m]))
     = (if m \<le> k then [0..<m] else [0..<k] @ [k + 1..<n])"
proof (induction m)
  case 0
  then show ?case by (simp add: partners_def)
next
  case (Suc m)
  have "[0..<Suc m] = [0..<m] @ [m]" by simp
  then have "partners k (concat (map (\<lambda>i. map (Pair i) [i + 1..<n]) [0..<Suc m]))
      = partners k (concat (map (\<lambda>i. map (Pair i) [i + 1..<n]) [0..<m])) @ partners k (map (Pair m) [m + 1..<n])"
    by (simp only: map_append concat_append partners_append list.map concat.simps append_Nil2)
  with Suc show ?case by (auto simp: partners_row)
qed

lemma partners_pairs: "k < n \<Longrightarrow> partners k (pair_indices n) = [0..<k] @ [k + 1..<n]"
  using partners_rows [of k n n] by (simp add: pair_indices_def)

lemma pair_indices_ok: "list_all (\<lambda>(i, j). i < j \<and> j < n) (pair_indices n)"
  by (auto simp: pair_indices_def list_all_iff)

lemma mark_length [simp]: "length (mark_possible_duplicates uc api rs) = length rs"
  using mark_pairs [OF pair_indices_ok] by (simp add: mark_possible_duplicates_def)

lemma mark_nth:
  "k < length rs \<Longrightarrow> mark_possible_duplicates uc api rs ! k
     = links (similar_urls uc api rs k ([0..<k] @ [k + 1..<length rs])) (rs ! k)"
  using mark_pairs [OF pair_indices_ok, of uc api rs] by (simp add: mark_possible_duplicates_def partners_pairs)

section \<open>The properties\<close>

lemma merge_fields:
  assumes "g \<noteq> []"
  shows "set (dr_providers (merge_confirmed_group g)) = cr_provider ` set g"
    "set (dr_original_urls (merge_confirmed_group g)) = cr_original_url ` set g"
    "dr_providers (merge_confirmed_group g) = sorted_list_of_set (cr_provider ` set g)"
    "dr_canonical_url (merge_confirmed_group g) \<in> cr_canonical_url ` set g"
    "dr_possible_duplicate_with (merge_confirmed_group g) = []"
    "dr_duplicate_status (merge_confirmed_group g) = (if 1 < length g then ConfirmedDuplicate else Distinct)"
proof -
  have "sort_by group_cmp g \<noteq> []" using assms length_sort_by [of group_cmp g] by (metis length_0_conv)
  then have "hd (sort_by group_cmp g) \<in> set g" by (metis hd_in_set set_sort_by)
  then show "set (dr_providers (merge_confirmed_group g)) = cr_provider ` set g"
    "set (dr_original_urls (merge_confirmed_group g)) = cr_original_url ` set g"
    "dr_providers (merge_confirmed_group g) = sorted_list_of_set (cr_provider ` set g)"
    "dr_canonical_url (merge_confirmed_group g) \<in> cr_canonical_url ` set g"
    "dr_possible_duplicate_with (merge_confirmed_group g) = []"
    "dr_duplicate_status (merge_confirmed_group g) = (if 1 < length g then ConfirmedDuplicate else Distinct)"
    by (simp_all add: merge_confirmed_group_def Let_def bs_collect_sorted_list_of_set)
qed

lemma groups_of_values:
  assumes "(u, g) \<in> set (groups_of rs)"
  shows "g \<noteq> []" "set g = {r \<in> set rs. cr_canonical_url r = u}" "dr_canonical_url (merge_confirmed_group g) = u"
proof -
  show g: "set g = {r \<in> set rs. cr_canonical_url r = u}" using assms by (auto simp: groups_of_get)
  from assms obtain r where "r \<in> set rs" "cr_canonical_url r = u" by (auto simp: groups_of_get)
  with g have "r \<in> set g" by simp
  then show ne: "g \<noteq> []" by auto
  show "dr_canonical_url (merge_confirmed_group g) = u" using merge_fields(4) [OF ne] g by auto
qed

lemma deduplicate_alt:
  "deduplicate uc api rs = mark_possible_duplicates uc api (map (\<lambda>x. merge_confirmed_group (snd x)) (groups_of rs))"
  by (simp add: deduplicate_def groups_of_def bt_values_def comp_def)

lemma map_mark:
  assumes "\<And>us r. f (links us r) = f r"
  shows "map f (mark_possible_duplicates uc api rs) = map f rs"
  by (rule nth_equalityI) (simp_all add: mark_nth assms)

lemma deduplicate_urls: "map dr_canonical_url (deduplicate uc api rs) = sorted_list_of_set (cr_canonical_url ` set rs)"
proof -
  have "map dr_canonical_url (deduplicate uc api rs) = map fst (groups_of rs)"
    by (auto simp: deduplicate_alt map_mark comp_def split_beta dest: groups_of_values(3))
  moreover have "sorted_wrt (<) (map fst (groups_of rs))" using groups_of_wf by (simp add: bt_wf_def)
  moreover have "set (map fst (groups_of rs)) = cr_canonical_url ` set rs"
  proof -
    have "u \<in> fst ` set (groups_of rs) \<longleftrightarrow> u \<in> cr_canonical_url ` set rs" for u
    proof -
      have "u \<in> fst ` set (groups_of rs) \<longleftrightarrow> (\<exists>g. (u, g) \<in> set (groups_of rs))" by force
      also have "\<dots> \<longleftrightarrow> u \<in> cr_canonical_url ` set rs" unfolding groups_of_get by blast
      finally show ?thesis .
    qed
    then show ?thesis by auto
  qed
  ultimately show ?thesis by (intro strict_sorted_equal) simp_all
qed

lemma deduplicate_member:
  assumes "d \<in> set (deduplicate uc api rs)"
  obtains g us where "d = links us (merge_confirmed_group g)" "(dr_canonical_url d, g) \<in> set (groups_of rs)"
proof -
  from assms obtain k where k: "k < length (groups_of rs)" "d = deduplicate uc api rs ! k"
    by (auto simp: in_set_conv_nth deduplicate_alt)
  obtain u g where ug: "groups_of rs ! k = (u, g)" by fastforce
  then have mem: "(u, g) \<in> set (groups_of rs)" using k(1) by (metis nth_mem)
  from k ug have "\<exists>us. d = links us (merge_confirmed_group g)" by (auto simp: deduplicate_alt mark_nth)
  then obtain us where "d = links us (merge_confirmed_group g)" ..
  with that mem groups_of_values(3) [OF mem] show thesis by simp
qed

text \<open>
  C9. Deduplication loses no result and invents none: the output has one entry per canonical URL of
  the input, in URL order; each entry lists exactly the providers and the original URLs of the
  inputs with its URL, without repetition.
\<close>

theorem deduplicate_provenance:
  "map dr_canonical_url (deduplicate uc api rs) = sorted_list_of_set (cr_canonical_url ` set rs)
   \<and> list_all (\<lambda>d. dr_providers d = sorted_list_of_set (cr_provider ` {r \<in> set rs. cr_canonical_url r = dr_canonical_url d})
        \<and> set (dr_original_urls d) = cr_original_url ` {r \<in> set rs. cr_canonical_url r = dr_canonical_url d})
      (deduplicate uc api rs)"
proof -
  have "dr_providers d = sorted_list_of_set (cr_provider ` {r \<in> set rs. cr_canonical_url r = dr_canonical_url d})
      \<and> set (dr_original_urls d) = cr_original_url ` {r \<in> set rs. cr_canonical_url r = dr_canonical_url d}"
    if d: "d \<in> set (deduplicate uc api rs)" for d
  proof -
    from d obtain g us where dd: "d = links us (merge_confirmed_group g)" "(dr_canonical_url d, g) \<in> set (groups_of rs)"
      by (rule deduplicate_member)
    note g = groups_of_values(1,2) [OF dd(2)]
    show ?thesis unfolding g(2) [symmetric] by (simp add: dd(1) merge_fields [OF g(1)])
  qed
  then show ?thesis by (simp add: deduplicate_urls list_all_iff)
qed

text \<open>
  The possible-duplicate relation of the output is exactly title similarity between different
  entries: an entry lists, in output order, the canonical URLs of the other entries similar to it, so
  the relation is symmetric and irreflexive; a confirmed merge keeps its status and an unmerged
  entry becomes a possible duplicate exactly when its list is not empty.
\<close>

theorem possible_duplicates_exact:
  fixes uc :: unicode and api :: "url url_api" and rs :: "canonical_result list"
  defines "out \<equiv> deduplicate uc api rs"
  shows "list_all (\<lambda>k.
      dr_possible_duplicate_with (out ! k) =
        map dr_canonical_url (map (nth out) (filter (\<lambda>j. j \<noteq> k \<and> similar uc api (out ! k) (out ! j)) [0..<length out]))
      \<and> (dr_duplicate_status (out ! k) = PossibleDuplicate \<longleftrightarrow>
           dr_possible_duplicate_with (out ! k) \<noteq> [] \<and> dr_duplicate_status (out ! k) \<noteq> ConfirmedDuplicate)
      \<and> list_all (\<lambda>j. dr_canonical_url (out ! j) \<in> set (dr_possible_duplicate_with (out ! k))
           \<longleftrightarrow> dr_canonical_url (out ! k) \<in> set (dr_possible_duplicate_with (out ! j))) [0..<length out])
    [0..<length out]"
proof -
  define ms where "ms = map (\<lambda>x. merge_confirmed_group (snd x)) (groups_of rs)"
  have out: "out = mark_possible_duplicates uc api ms" by (simp add: out_def deduplicate_alt ms_def)
  have len: "length out = length ms" by (simp add: out)
  have nth: "out ! k = links (similar_urls uc api ms k ([0..<k] @ [k + 1..<length ms])) (ms ! k)" if "k < length ms" for k
    using that by (simp add: out mark_nth)
  have ms_k: "dr_possible_duplicate_with (ms ! k) = []" "dr_duplicate_status (ms ! k) \<noteq> PossibleDuplicate" if "k < length ms" for k
  proof -
    have "groups_of rs ! k \<in> set (groups_of rs)" using that by (simp add: ms_def)
    then have "snd (groups_of rs ! k) \<noteq> []" using groups_of_values(1) by (metis prod.collapse)
    then show "dr_possible_duplicate_with (ms ! k) = []" "dr_duplicate_status (ms ! k) \<noteq> PossibleDuplicate"
      using that by (simp_all add: ms_def split_beta merge_fields)
  qed
  have split: "filter (\<lambda>j. P j) ([0..<k] @ [k + 1..<n]) = filter (\<lambda>j. j \<noteq> k \<and> P j) [0..<n]" if "k < n" for k n P
  proof -
    have "[0..<n] = [0..<k] @ [k..<n]" "[k..<n] = k # [k + 1..<n]"
      using that by (metis le_add2 le_add_same_cancel2 less_imp_le_nat upt_add_eq_append le_add_diff_inverse, simp add: upt_conv_Cons)
    moreover have "filter (\<lambda>j. j \<noteq> k \<and> P j) [0..<k] = filter P [0..<k]"
      "filter (\<lambda>j. j \<noteq> k \<and> P j) [k + 1..<n] = filter P [k + 1..<n]"
      by (rule filter_cong; auto)+
    ultimately show ?thesis by (metis (mono_tags, lifting) filter.simps(2) filter_append)
  qed
  have list: "dr_possible_duplicate_with (out ! k) =
      map dr_canonical_url (map (nth out) (filter (\<lambda>j. j \<noteq> k \<and> similar uc api (out ! k) (out ! j)) [0..<length out]))"
    if k: "k < length ms" for k
  proof -
    have same: "dr_canonical_url (out ! j) = dr_canonical_url (ms ! j)"
      "similar uc api (out ! k) (out ! j) = similar uc api (ms ! k) (ms ! j)" if "j < length ms" for j
      using nth [OF that] nth [OF k] by simp_all
    have "dr_possible_duplicate_with (out ! k) = similar_urls uc api ms k ([0..<k] @ [k + 1..<length ms])"
      by (simp only: nth [OF k] links_simps ms_k [OF k] append_Nil)
    also have "\<dots> = map (\<lambda>j. dr_canonical_url (ms ! j))
        (filter (\<lambda>j. j \<noteq> k \<and> similar uc api (ms ! k) (ms ! j)) [0..<length ms])"
      unfolding similar_urls_def split [OF k] ..
    also have "\<dots> = map (\<lambda>j. dr_canonical_url (out ! j))
        (filter (\<lambda>j. j \<noteq> k \<and> similar uc api (out ! k) (out ! j)) [0..<length out])"
      using same by (intro map_cong filter_cong) (auto simp: len)
    finally show ?thesis by (simp add: comp_def)
  qed
  have dist: "distinct (map dr_canonical_url out)" by (simp add: out_def deduplicate_urls)
  have mem: "dr_canonical_url (out ! j) \<in> set (dr_possible_duplicate_with (out ! k))
      \<longleftrightarrow> j \<noteq> k \<and> similar uc api (out ! k) (out ! j)" if "j < length ms" "k < length ms" for j k
  proof -
    have inj: "dr_canonical_url (out ! i) = dr_canonical_url (out ! j) \<longleftrightarrow> i = j" if "i < length ms" for i
      using dist that \<open>j < length ms\<close> nth_eq_iff_index_eq [OF dist, of i j] by (simp add: len)
    have "dr_canonical_url (out ! j) \<in> set (dr_possible_duplicate_with (out ! k))
        \<longleftrightarrow> (\<exists>i<length ms. dr_canonical_url (out ! i) = dr_canonical_url (out ! j)
              \<and> i \<noteq> k \<and> similar uc api (out ! k) (out ! i))"
      unfolding list [OF that(2)] by (force simp: len image_iff)
    also have "\<dots> \<longleftrightarrow> j \<noteq> k \<and> similar uc api (out ! k) (out ! j)"
      using inj that(1) by blast
    finally show ?thesis .
  qed
  have status: "dr_duplicate_status (out ! k) = PossibleDuplicate \<longleftrightarrow>
      dr_possible_duplicate_with (out ! k) \<noteq> [] \<and> dr_duplicate_status (out ! k) \<noteq> ConfirmedDuplicate"
    if k: "k < length ms" for k
    using ms_k [OF k] by (cases "dr_duplicate_status (ms ! k)") (simp_all add: nth [OF k] links_status)
  show ?thesis
    using list status mem similar_commute [of uc api] by (auto simp: list_all_iff len)
qed

end
