(* ===== verification/Normalize.thy ===== *)
theory Normalize
  imports Text Security
begin

text \<open>
  \<open>normalize.rs\<close>: from provider items to normalised results. Items whose URL the outbound policy
  rejects are dropped with a degradation; text fields are cleaned (entities decoded, white space
  collapsed, control characters rejected), dates are brought to RFC 3339. The crate \<open>time\<close> is the
  parameter record \<open>time_api\<close> over an arbitrary type of instants.
\<close>

record 't time_api =
  tm_parse_rfc3339 :: "rstr \<Rightarrow> 't option"
  tm_format_rfc3339 :: "'t \<Rightarrow> rstr option"
  tm_parse_ymd_midnight_utc :: "rstr \<Rightarrow> 't option"
  tm_whole_seconds_between :: "'t \<Rightarrow> 't \<Rightarrow> int"

section \<open>Text cleaning\<close>

text \<open>\<open>char::from_u32\<close>: a code point that is no surrogate.\<close>

definition char_from_u32 :: "nat \<Rightarrow> rchar option" where
  "char_from_u32 n = (if n < 0x110000 \<and> \<not> (0xD800 \<le> n \<and> n \<le> 0xDFFF) then Some n else None)"

definition entity_char :: "rstr \<Rightarrow> rchar option" where
  "entity_char entity =
     (let hex = (case entity of c # cs \<Rightarrow> if c = 120 \<or> c = 88 then u32_from_str_radix 16 cs else None | [] \<Rightarrow> None);
          code = (case hex of Some n \<Rightarrow> Some n | None \<Rightarrow> parse_u32 entity)
      in case code of None \<Rightarrow> None | Some n \<Rightarrow> char_from_u32 n)"

lemma split_once_str_length:
  "split_once_str p s = Some (a, b) \<Longrightarrow> length s = length a + length p + length b"
proof (induction s arbitrary: a)
  case (Cons c cs)
  then show ?case
    by (auto simp: starts_with_iff split: if_splits option.splits) (metis add_Suc length_Cons length_append)
qed (auto split: if_splits)

lemma split_once_length: "split_once d s = Some (a, b) \<Longrightarrow> length s = length a + 1 + length b"
  using split_once_Some by fastforce

text \<open>The loop over numeric entities; each round shortens the text.\<close>

function decode_numeric :: "rstr \<Rightarrow> rstr" where
  "decode_numeric output =
     (case split_once_str [38, 35] output of
        None \<Rightarrow> output
      | Some (before, rest) \<Rightarrow>
          (case split_once 59 rest of
             None \<Rightarrow> output
           | Some (entity, after) \<Rightarrow>
               (case entity_char entity of
                  None \<Rightarrow> output
                | Some c \<Rightarrow> decode_numeric (before @ [c] @ after))))"
  by pat_completeness auto
termination
  by (relation "measure length") (auto dest!: split_once_str_length split_once_length)

declare decode_numeric.simps [simp del]

definition decode_html_entities :: "rstr \<Rightarrow> rstr" where
  "decode_html_entities v = decode_numeric (replace_str (lit ''&nbsp;'') [32] (replace_str (lit ''&apos;'') [39]
     (replace_str (lit ''&#39;'') [39] (replace_str (lit ''&quot;'') [34] (replace_str (lit ''&gt;'') [62]
     (replace_str (lit ''&lt;'') [60] (replace_str (lit ''&amp;'') [38] v)))))))"

definition clean_text :: "rstr \<Rightarrow> rstr option" where
  "clean_text v =
     (if 0 \<in> set v \<or> 0xFFFD \<in> set v \<or> list_ex (\<lambda>c. is_control c \<and> \<not> is_whitespace c) v then None
      else let clean = collapse_whitespace (decode_html_entities v) in
           if clean \<noteq> [] then Some clean else None)"

definition normalize_degradation :: "rstr \<Rightarrow> rstr \<Rightarrow> degradation" where
  "normalize_degradation code message =
     \<lparr> deg_code = code, deg_component = lit ''normalization'', deg_message = message \<rparr>"

definition clean_field :: "rstr option \<Rightarrow> string \<Rightarrow> rstr option \<times> degradation list" where
  "clean_field v field =
     (case v of
        None \<Rightarrow> (None, [])
      | Some text \<Rightarrow>
          (case clean_text text of
             Some clean \<Rightarrow> (Some clean, [])
           | None \<Rightarrow> (None, [normalize_degradation (lit (''invalid_'' @ field))
                        (lit (''invalid '' @ field @ '' was removed''))])))"

section \<open>One item\<close>

definition normalize_date :: "'t time_api \<Rightarrow> rstr \<Rightarrow> rstr option" where
  "normalize_date tm v =
     (case tm_parse_rfc3339 tm v of
        Some date_time \<Rightarrow> tm_format_rfc3339 tm date_time
      | None \<Rightarrow> (case tm_parse_ymd_midnight_utc tm v of
                   Some date_time \<Rightarrow> tm_format_rfc3339 tm date_time | None \<Rightarrow> None))"

definition clean_thumbnail :: "url url_api \<Rightarrow> rstr option \<Rightarrow> rstr option \<times> degradation list" where
  "clean_thumbnail api v =
     (case v of
        None \<Rightarrow> (None, [])
      | Some t \<Rightarrow> (case validate_search_url api t of
                     Ok _ \<Rightarrow> (Some t, [])
                   | Err _ \<Rightarrow> (None, [normalize_degradation (lit ''invalid_thumbnail_url'')
                                (lit ''invalid thumbnail was removed'')])))"

definition clean_metadata :: "(rstr \<times> rstr) list \<Rightarrow> (rstr, rstr) btree_map \<times> degradation list" where
  "clean_metadata md =
     (bt_collect (List.map_filter (\<lambda>(k, v). map_option (Pair k) (clean_text v)) md),
      List.map_filter (\<lambda>(k, v). case clean_text v of Some _ \<Rightarrow> None
        | None \<Rightarrow> Some (normalize_degradation (lit ''invalid_metadata_field'')
                          (lit ''invalid metadata field was removed''))) md)"

definition clean_published ::
  "'t time_api \<Rightarrow> rstr option \<Rightarrow> (rstr, rstr) btree_map \<Rightarrow> rstr option \<times> (rstr, rstr) btree_map \<times> degradation list" where
  "clean_published tm v md =
     (case v of
        None \<Rightarrow> (None, md, [])
      | Some text \<Rightarrow>
          (case normalize_date tm text of
             Some d \<Rightarrow> (Some d, md, [])
           | None \<Rightarrow> (None, bt_insert (lit ''reported_published_at_invalid'') text md,
               [normalize_degradation (lit ''invalid_published_at'')
                  (lit ''invalid published date was preserved as metadata'')])))"

definition field_provenance :: "(string \<times> bool) list \<Rightarrow> bool \<Rightarrow> (rstr, FieldProvenance) btree_map" where
  "field_provenance present typed =
     fold (\<lambda>(field, p) m. if p then bt_insert (lit field) Reported m else m) present
       (bt_collect [(lit ''url'', Reported), (lit ''result_type'', if typed then Reported else Derived)])"

definition normalize_item :: "'t time_api \<Rightarrow> url url_api \<Rightarrow> rstr \<Rightarrow> provider_item \<Rightarrow> url \<Rightarrow> normalized_result" where
  "normalize_item tm api provider item u =
     (let (title, d1) = clean_field (pi_title item) ''title'';
          (snippet, d2) = clean_field (pi_snippet item) ''snippet'';
          (author, d3) = clean_field (pi_author item) ''author'';
          (language, d4) = clean_field (pi_language item) ''language'';
          (file_type, d5) = clean_field (pi_file_type item) ''file_type'';
          (thumbnail, d6) = clean_thumbnail api (pi_thumbnail item);
          (metadata0, d7) = clean_metadata (pi_metadata item);
          (published_at, metadata, d8) = clean_published tm (pi_published_at item) metadata0
      in \<lparr> nr_schema_version = SCHEMA_VERSION, nr_title = title, nr_raw_url = pi_url item, nr_url = u,
           nr_provider = provider, nr_provider_rank = pi_provider_rank item, nr_snippet = snippet,
           nr_result_type = (case pi_result_type item of Some t \<Rightarrow> t | None \<Rightarrow> Rt_Organic),
           nr_published_at = published_at, nr_author = author, nr_language = language,
           nr_file_type = file_type, nr_thumbnail = thumbnail, nr_metadata = metadata,
           nr_provenance = field_provenance
             [(''title'', title \<noteq> None), (''snippet'', snippet \<noteq> None),
              (''published_at'', published_at \<noteq> None), (''author'', author \<noteq> None),
              (''language'', language \<noteq> None), (''file_type'', file_type \<noteq> None),
              (''thumbnail'', thumbnail \<noteq> None), (''metadata'', metadata \<noteq> [])]
             (pi_result_type item \<noteq> None),
           nr_degradations = d1 @ d2 @ d3 @ d4 @ d5 @ d6 @ d7 @ d8 \<rparr>)"

definition normalize_step ::
  "'t time_api \<Rightarrow> url url_api \<Rightarrow> normalized_result list \<times> degradation list \<Rightarrow> rstr \<times> provider_item
     \<Rightarrow> normalized_result list \<times> degradation list" where
  "normalize_step tm api st pit =
     (let (normalized, degradations) = st; (provider, item) = pit in
      case validate_search_url api (pi_url item) of
        Ok u \<Rightarrow> (normalized @ [normalize_item tm api provider item u], degradations)
      | Err code \<Rightarrow> (normalized, degradations @ [normalize_degradation (lit code)
                       (lit ''provider item discarded due to URL contract'')]))"

definition normalize ::
  "'t time_api \<Rightarrow> url url_api \<Rightarrow> provider_result list \<Rightarrow> normalized_result list \<times> degradation list" where
  "normalize tm api results =
     foldl (normalize_step tm api) ([], [])
       (concat (map (\<lambda>r. map (Pair (pr_provider r)) (pr_results r)) results))"

section \<open>Properties\<close>

definition item_ok :: "url url_api \<Rightarrow> rstr \<times> provider_item \<Rightarrow> bool" where
  "item_ok api pit = is_ok (validate_search_url api (pi_url (snd pit)))"

lemma normalize_fold:
  "foldl (normalize_step tm api) (ns, ds) pis =
     (ns @ map (\<lambda>(p, i). normalize_item tm api p i (projr (validate_search_url api (pi_url i)))) (filter (item_ok api) pis),
      ds @ map (\<lambda>(p, i). normalize_degradation (lit (projl (validate_search_url api (pi_url i))))
               (lit ''provider item discarded due to URL contract'')) (filter (\<lambda>x. \<not> item_ok api x) pis))"
proof (induction pis arbitrary: ns ds)
  case (Cons x pis)
  then show ?case
    by (cases x; cases "validate_search_url api (pi_url (snd x))") (simp_all add: normalize_step_def item_ok_def)
qed simp

lemma normalize_item_simps [simp]:
  "nr_url (normalize_item tm api p i u) = u" "nr_provider (normalize_item tm api p i u) = p"
  "nr_raw_url (normalize_item tm api p i u) = pi_url i"
  by (simp_all add: normalize_item_def Let_def split_beta)

text \<open>
  C30. Normalisation admits exactly the items whose URL the outbound policy accepts, in provider
  order, each under its provider and with the parsed URL, and reports one degradation for every item
  it drops.
\<close>

theorem normalize_admits:
  fixes tm :: "'t time_api" and api :: "url url_api" and results :: "provider_result list"
  defines "items \<equiv> concat (map (\<lambda>r. map (Pair (pr_provider r)) (pr_results r)) results)"
    and "out \<equiv> normalize tm api results"
  shows "map (\<lambda>n. (nr_provider n, nr_raw_url n, Ok (nr_url n))) (fst out)
      = map (\<lambda>(p, i). (p, pi_url i, validate_search_url api (pi_url i))) (filter (item_ok api) items)
    \<and> length (fst out) + length (snd out) = length items
    \<and> list_all (\<lambda>n. validate_search_url api (nr_raw_url n) = Ok (nr_url n)) (fst out)"
proof -
  have out: "fst out = map (\<lambda>(p, i). normalize_item tm api p i (projr (validate_search_url api (pi_url i)))) (filter (item_ok api) items)"
    "length (snd out) = length (filter (\<lambda>x. \<not> item_ok api x) items)"
    by (simp_all add: out_def normalize_def items_def normalize_fold)
  have ok: "item_ok api (p, i) \<Longrightarrow> Ok (projr (validate_search_url api (pi_url i))) = validate_search_url api (pi_url i)" for p i
    by (auto simp: item_ok_def is_ok_iff)
  have len: "length (fst out) + length (snd out) = length items"
    by (simp add: out sum_length_filter_compl)
  show ?thesis using ok len by (auto simp: out comp_def split_beta list_all_iff)
qed

lemma decode_numeric_idem: "decode_numeric (decode_numeric s) = decode_numeric s"
proof (induction s rule: decode_numeric.induct)
  case (1 s)
  show ?case
  proof (cases "\<exists>before rest entity after c. split_once_str [38, 35] s = Some (before, rest)
      \<and> split_once 59 rest = Some (entity, after) \<and> entity_char entity = Some c")
    case True
    then obtain before rest entity after c where "split_once_str [38, 35] s = Some (before, rest)"
      "split_once 59 rest = Some (entity, after)" "entity_char entity = Some c" by blast
    with 1 show ?thesis by (simp add: decode_numeric.simps [of s])
  next
    case False
    then have "decode_numeric s = s"
      by (subst decode_numeric.simps) (auto split: option.split)
    then show ?thesis by simp
  qed
qed


text \<open>
  The control-character test precedes the decoding, so a numeric entity smuggles in what a literal
  character may not: here a NUL.
\<close>

lemma clean_text_admits_nul: "clean_text (lit ''a&#0;b'') = Some [97, 0, 98]"
proof -
  have "decode_numeric [97, 38, 35, 48, 59, 98] = [97, 0, 98]"
    by (simp add: decode_numeric.simps entity_char_def char_from_u32_def u32_from_str_radix_def
        digit_value_def ascii_class_defs)
  then show ?thesis
    by (simp add: clean_text_def decode_html_entities_def replace_str_def collapse_whitespace_def
        split_whitespace_def is_control_def is_whitespace_def)
qed

text \<open>Decoding the ampersand first makes the named entities decode twice.\<close>

lemma decode_html_entities_twice: "decode_html_entities (lit ''&amp;lt;'') = lit ''<''"
  by (simp add: decode_html_entities_def replace_str_def decode_numeric.simps)

end
