(* ===== verification/Classify.thy ===== *)
theory Classify
  imports Text
begin

text \<open>
  \<open>classify.rs\<close>: the rule-based classifier. Explicit filters and lexical patterns add signals to
  an ordered map from categories to a confidence and its reasons; the classification reads the map
  by decreasing confidence. The lexical rules are the table \<open>lexical_rules\<close>, in call order,
  with confidences in hundredths.
\<close>

type_synonym signals = "(Category, f64 \<times> rstr list) btree_map"

definition add_signal :: "signals \<Rightarrow> Category \<Rightarrow> f64 \<Rightarrow> string \<Rightarrow> signals" where
  "add_signal signals category confidence reason =
     bt_entry category (confidence, [])
       (\<lambda>(c, reasons). (f64_max c confidence,
          if lit reason \<in> set reasons then reasons else reasons @ [lit reason])) signals"

definition contains_pattern :: "unicode \<Rightarrow> rstr \<Rightarrow> rstr \<Rightarrow> bool" where
  "contains_pattern uc text pattern =
     (if 32 \<in> set pattern then contains_str text pattern
      else list_ex (\<lambda>token. token = pattern) (split_on (\<lambda>c. \<not> uc_is_alphanumeric uc c \<and> c \<noteq> 95) text))"

definition lexical_signal ::
  "unicode \<Rightarrow> rstr \<Rightarrow> signals \<Rightarrow> Category \<times> int \<times> string \<times> string list \<Rightarrow> signals" where
  "lexical_signal uc text signals rule =
     (let (category, hundredths, reason, patterns) = rule in
      if list_ex (\<lambda>pattern. contains_pattern uc text (lit pattern)) patterns
      then add_signal signals category (f64_lit hundredths 100) reason else signals)"

definition lexical_rules :: "(Category \<times> int \<times> string \<times> string list) list" where
  "lexical_rules = [
     (Cat_Navigation, 88, ''navigation_lexical_signal'', [''official website'', ''homepage'',
        ''login'', ''sign in'', ''navigate to'']),
     (Cat_Code, 86, ''code_lexical_signal'', [''source code'', ''code example'',
        ''stack trace'', ''compile error'', ''github'', ''function'', ''class'', ''crate'']),
     (Cat_Documentation, 84, ''documentation_lexical_signal'', [''documentation'', ''manual'',
        ''api reference'', ''reference guide'', ''docs'']),
     (Cat_Academic, 86, ''academic_lexical_signal'', [''research paper'', ''peer reviewed'',
        ''journal'', ''arxiv'', ''doi'', ''systematic review'', ''study'']),
     (Cat_News, 84, ''news_lexical_signal'', [''news'', ''today'', ''latest'', ''breaking'',
        ''current events'']),
     (Cat_Commercial, 82, ''commercial_lexical_signal'', [''buy'', ''price'', ''pricing'',
        ''shop'', ''discount'', ''product comparison'']),
     (Cat_Forum, 80, ''forum_lexical_signal'', [''forum'', ''discussion'', ''reddit'',
        ''stackoverflow'', ''community answer'']),
     (Cat_Social, 80, ''social_lexical_signal'', [''social media'', ''linkedin'', ''instagram'',
        ''twitter'', ''mastodon'']),
     (Cat_Media, 80, ''media_lexical_signal'', [''video'', ''podcast'', ''image'', ''photo'',
        ''youtube'', ''livestream'']),
     (Cat_Technical, 76, ''technical_lexical_signal'', [''rust'', ''python'', ''compiler'',
        ''database'', ''algorithm'', ''protocol'', ''software'', ''api''])]"

definition file_type_signal :: "signals \<Rightarrow> rstr \<Rightarrow> signals" where
  "file_type_signal signals file_type =
     (if file_type \<in> set (map lit [''rs'', ''py'', ''js'', ''ts'', ''java'', ''go'', ''c'', ''cpp''])
      then add_signal signals Cat_Code (f64_lit 98 100) ''explicit_code_file_filter''
      else add_signal signals Cat_Documentation (f64_lit 95 100) ''explicit_file_filter'')"

definition domain_signal :: "signals \<Rightarrow> rstr \<Rightarrow> signals" where
  "domain_signal signals v =
     (let domain = to_ascii_lowercase v; has = (\<lambda>s. contains_str domain (lit s)) in
      if has ''github.'' \<or> has ''gitlab.''
      then add_signal signals Cat_Code (f64_lit 97 100) ''explicit_code_domain''
      else if has ''arxiv.'' \<or> has ''doi.''
      then add_signal signals Cat_Academic (f64_lit 97 100) ''explicit_academic_domain''
      else if has ''reddit.'' \<or> has ''stackoverflow.''
      then add_signal signals Cat_Forum (f64_lit 97 100) ''explicit_forum_domain''
      else if has ''youtube.'' \<or> has ''vimeo.''
      then add_signal signals Cat_Media (f64_lit 97 100) ''explicit_media_domain''
      else if has ''linkedin.'' \<or> has ''instagram.'' \<or> has ''twitter.'' \<or> domain = lit ''x.com''
      then add_signal signals Cat_Social (f64_lit 97 100) ''explicit_social_domain''
      else signals)"

definition collect_signals :: "unicode \<Rightarrow> query \<Rightarrow> signals" where
  "collect_signals uc q =
     (let text = uc_str_to_lowercase uc (q_normalized_query q);
          signals = foldl (lexical_signal uc text)
            (foldl domain_signal (foldl file_type_signal bt_empty (q_file_types q)) (q_domains q)) lexical_rules
      in if signals = [] then bt_insert Cat_General (f64_lit 50 100, [lit ''general_fallback'']) signals
         else signals)"

type_synonym signal_row = "Category \<times> f64 \<times> rstr list"

definition signal_cmp :: "signal_row \<Rightarrow> signal_row \<Rightarrow> ordering" where
  "signal_cmp left right =
     then_with (total_cmp (fst (snd right)) (fst (snd left))) (ord_cmp (fst left) (fst right))"

definition classify :: "unicode \<Rightarrow> query \<Rightarrow> classification" where
  "classify uc q =
     (let ordered = sort_by signal_cmp (collect_signals uc q) in
      \<lparr> cl_schema_version = SCHEMA_VERSION,
        cl_primary_category = fst (ordered ! 0),
        cl_secondary_categories = map fst (take 2 (drop 1 ordered)),
        cl_confidence = fst (snd (ordered ! 0)),
        cl_confidence_by_category = bt_collect (map (\<lambda>(c, f, _). (c, f)) (take 3 ordered)),
        cl_reasons = concat (map (\<lambda>(_, _, rs). rs) (take 3 ordered)) \<rparr>)"

section \<open>Properties\<close>

interpretation signal_order: total_comparator signal_cmp
  unfolding signal_cmp_def [abs_def] total_cmp_def
  by (intro total_comparator_then total_comparator_reverse [OF total_comparator_ord] total_comparator_ord)

text \<open>The signals are a well-formed map whose confidences are probabilities and whose reasons are not empty.\<close>

definition row_ok :: "signal_row \<Rightarrow> bool" where
  "row_ok row \<longleftrightarrow> in_unit (fst (snd row)) \<and> snd (snd row) \<noteq> []"

definition signals_ok :: "signals \<Rightarrow> bool" where
  "signals_ok s \<longleftrightarrow> bt_wf s \<and> list_all row_ok s"

lemma f64_lit_unit: "0 \<le> n \<Longrightarrow> n \<le> 100 \<Longrightarrow> in_unit (f64_lit n 100)"
  unfolding f64_lit_def by (rule f64_round_unit) simp_all

lemma in_unit_max: "in_unit a \<Longrightarrow> in_unit b \<Longrightarrow> in_unit (f64_max a b)"
  by (simp add: f64_max_def in_unit_def split: if_splits)

lemma signals_ok_insert:
  assumes "signals_ok s" "in_unit c" "rs \<noteq> []"
  shows "signals_ok (bt_insert k (c, rs) s)"
proof -
  have wf: "bt_wf s" using assms by (simp add: signals_ok_def)
  have "row_ok (j, v)" if "(j, v) \<in> set (bt_insert k (c, rs) s)" for j v
  proof (cases "j = k")
    case True
    with that assms show ?thesis
      by (auto simp: bt_wf_get [OF bt_insert_wf [OF wf]] bt_get_insert [OF wf] row_ok_def)
  next
    case False
    with that have "(j, v) \<in> set s"
      by (simp add: bt_wf_get [OF bt_insert_wf [OF wf]] bt_get_insert [OF wf] bt_wf_get [OF wf])
    with assms(1) show ?thesis by (auto simp: signals_ok_def list_all_iff)
  qed
  with wf show ?thesis by (auto simp: signals_ok_def list_all_iff bt_insert_wf)
qed

lemma add_signal_ok:
  assumes "signals_ok s" "in_unit c"
  shows "signals_ok (add_signal s cat c reason)"
proof (cases "bt_get s cat")
  case None
  with assms show ?thesis
    by (simp add: add_signal_def bt_entry_def signals_ok_insert in_unit_max)
next
  case (Some v)
  then have "(cat, v) \<in> set s" using assms(1) by (simp add: signals_ok_def bt_wf_get)
  then have "row_ok (cat, v)" using assms(1) by (auto simp: signals_ok_def list_all_iff)
  with Some assms show ?thesis
    by (auto simp: add_signal_def bt_entry_def row_ok_def split_beta intro!: signals_ok_insert in_unit_max)
qed

lemma domain_signal_ok: "signals_ok s \<Longrightarrow> signals_ok (domain_signal s d)"
  by (simp add: domain_signal_def Let_def add_signal_ok f64_lit_unit del: lit_simps)

lemma collect_signals_ok: "signals_ok (collect_signals uc q) \<and> collect_signals uc q \<noteq> []"
proof -
  let ?text = "uc_str_to_lowercase uc (q_normalized_query q)"
  have e: "signals_ok bt_empty" by (simp add: signals_ok_def bt_wf_def bt_empty_def)
  have f: "signals_ok (foldl file_type_signal bt_empty (q_file_types q))"
    by (rule foldl_invariant [where P = signals_ok, OF e])
      (simp add: file_type_signal_def add_signal_ok f64_lit_unit del: lit_simps)
  have d: "signals_ok (foldl domain_signal (foldl file_type_signal bt_empty (q_file_types q)) (q_domains q))"
    by (rule foldl_invariant [where P = signals_ok, OF f]) (rule domain_signal_ok)
  have rules: "list_all (\<lambda>(_, n, _). 0 \<le> n \<and> n \<le> 100) lexical_rules" by (simp add: lexical_rules_def)
  have s: "signals_ok (foldl (lexical_signal uc ?text)
      (foldl domain_signal (foldl file_type_signal bt_empty (q_file_types q)) (q_domains q)) lexical_rules)"
  proof (rule foldl_invariant [where P = signals_ok, OF d])
    fix a x assume "x \<in> set lexical_rules" "signals_ok a"
    with rules show "signals_ok (lexical_signal uc ?text a x)"
      by (cases x) (auto simp: lexical_signal_def list_all_iff add_signal_ok f64_lit_unit)
  qed
  then show ?thesis
    by (auto simp: collect_signals_def Let_def signals_ok_def row_ok_def bt_wf_def f64_lit_unit)
qed

text \<open>
  Classification is total and ranks by confidence: the primary category is one with the highest
  confidence, the confidence is in the unit interval, at most two further categories follow, all
  different from it, and there is at least one reason.
\<close>

theorem classify_contract:
  fixes uc :: unicode and q :: query
  defines "c \<equiv> classify uc q"
  shows "in_unit (cl_confidence c)
    \<and> distinct (cl_primary_category c # cl_secondary_categories c)
    \<and> length (cl_secondary_categories c) \<le> 2
    \<and> cl_reasons c \<noteq> []
    \<and> (cl_primary_category c, cl_confidence c) \<in> set (map (\<lambda>(k, f, _). (k, f)) (collect_signals uc q))
    \<and> list_all (\<lambda>(k, f, _). total_cmp f (cl_confidence c) \<noteq> Greater) (collect_signals uc q)"
proof -
  let ?s = "collect_signals uc q"
  define o1 where "o1 = sort_by signal_cmp ?s"
  have ok: "signals_ok ?s" and ne: "?s \<noteq> []" using collect_signals_ok by auto
  have set_o: "set o1 = set ?s" by (simp add: o1_def)
  have "length o1 = length ?s" by (simp add: o1_def)
  with ne obtain x xs where o1: "o1 = x # xs" by (cases o1) auto
  have "mset (map fst o1) = mset (map fst ?s)" by (simp add: o1_def)
  moreover have "distinct (map fst ?s)"
    using ok by (simp add: signals_ok_def bt_wf_def strict_sorted_iff)
  ultimately have dist: "distinct (map fst o1)" by (metis mset_eq_imp_distinct_iff)
  have x: "row_ok x" using ok o1 set_o by (auto simp: signals_ok_def list_all_iff)
  have sorted: "sorted_wrt (cmp_le signal_cmp) o1" unfolding o1_def by (rule signal_order.sort_by_sorted)
  have best: "total_cmp (fst (snd r)) (fst (snd x)) \<noteq> Greater" if "r \<in> set ?s" for r
  proof (cases "r = x")
    case True
    then show ?thesis by (simp add: total_cmp_def ord_cmp_def)
  next
    case False
    with that sorted o1 set_o have "cmp_le signal_cmp x r" by auto
    then show ?thesis by (auto simp: cmp_le_def signal_cmp_def)
  qed
  have c: "cl_confidence c = fst (snd x)" "cl_primary_category c = fst x"
    "cl_secondary_categories c = map fst (take 2 xs)" "\<exists>r. cl_reasons c = snd (snd x) @ r"
    by (simp_all add: c_def classify_def Let_def o1 split_beta take_Cons' flip: o1_def)
  have "distinct (map fst (take 2 xs))" using dist o1 by (simp flip: take_map)
  moreover have "fst x \<notin> set (map fst (take 2 xs))" using dist o1 by (auto dest: in_set_takeD)
  ultimately show ?thesis
    using x best c o1 set_o by (auto simp: row_ok_def list_all_iff split_beta image_iff)
qed

end
