(* ===== verification/Ranking.thy ===== *)
theory Ranking
  imports Text Normalize
begin

text \<open>
  \<open>ranking.rs\<close>: the five-component score of \<open>RankingPolicyV1\<close> and the ordering of the
  results. \<open>f64::powf\<close> has no specified precision and is the argument \<open>powf\<close>; RFC 3339
  parsing is \<open>time_api\<close>.
\<close>

section \<open>Policy\<close>

record ranking_policy =
  rp_version :: rstr
  rp_rrf_k :: u32
  rp_weight_rrf :: f64
  rp_weight_title_match :: f64
  rp_weight_snippet_match :: f64
  rp_weight_freshness :: f64
  rp_weight_provider_agreement :: f64
  rp_freshness_half_life_days :: u32
  rp_freshness_unknown :: f64

definition ranking_policy_default :: ranking_policy where
  "ranking_policy_default = \<lparr> rp_version = lit ''v1'', rp_rrf_k = 60,
     rp_weight_rrf = f64_lit 35 100, rp_weight_title_match = f64_lit 30 100,
     rp_weight_snippet_match = f64_lit 15 100, rp_weight_freshness = f64_lit 10 100,
     rp_weight_provider_agreement = f64_lit 10 100, rp_freshness_half_life_days = 30,
     rp_freshness_unknown = Fin 0 \<rparr>"

datatype RankingPolicyError = Rpe_Version | Rpe_PositiveInteger | Rpe_Range | Rpe_WeightSum

definition ranking_policy_validate :: "ranking_policy \<Rightarrow> RankingPolicyError + unit" where
  "ranking_policy_validate p =
     (if rp_version p \<noteq> lit ''v1'' then Err Rpe_Version
      else if rp_rrf_k p = 0 \<or> rp_freshness_half_life_days p = 0 then Err Rpe_PositiveInteger
      else if list_ex (\<lambda>v. \<not> (f64_le (Fin 0) v \<and> f64_le v (Fin 1)))
                [rp_weight_rrf p, rp_weight_title_match p, rp_weight_snippet_match p,
                 rp_weight_freshness p, rp_weight_provider_agreement p, rp_freshness_unknown p]
      then Err Rpe_Range
      else if f64_lt (f64_lit 1 (10 ^ 12)) (f64_abs (f64_sub
                (f64_add (f64_add (f64_add (f64_add (rp_weight_rrf p) (rp_weight_title_match p))
                   (rp_weight_snippet_match p)) (rp_weight_freshness p)) (rp_weight_provider_agreement p))
                (Fin 1)))
      then Err Rpe_WeightSum
      else Ok ())"

section \<open>Components of the score\<close>

definition ranking_query_tokens :: "unicode \<Rightarrow> query \<Rightarrow> rstr btree_set" where
  "ranking_query_tokens uc q =
     bs_collect (tokens uc (q_normalized_query q) @ concat (map (tokens uc) (q_quoted_terms q)))"

definition rrf :: "deduplicated_result \<Rightarrow> u32 \<Rightarrow> f64" where
  "rrf result k =
     (let ranks = List.map_filter (\<lambda>r. r) (bt_values (dr_provider_ranks result)) in
      if ranks = [] then Fin 0
      else let raw = f64_sum (map (\<lambda>rank. f64_div (Fin 1) (f64_add (f64_of_nat (unat k)) (f64_of_nat (unat rank)))) ranks)
           in f64_clamp (f64_div (f64_div raw (f64_of_nat (length ranks)))
                (f64_div (Fin 1) (f64_add (f64_of_nat (unat k)) (Fin 1)))) (Fin 0) (Fin 1))"

definition text_match :: "unicode \<Rightarrow> rstr option \<Rightarrow> rstr btree_set \<Rightarrow> rstr list \<Rightarrow> f64" where
  "text_match uc v query_tokens phrases =
     (case v of
        None \<Rightarrow> Fin 0
      | Some text \<Rightarrow>
          if query_tokens = [] then Fin 0
          else let prepared = normalized_text uc text;
                   field_tokens = tokens uc prepared;
                   coverage = f64_div (f64_of_nat (length (filter (\<lambda>t. t \<in> set field_tokens) query_tokens)))
                                (f64_of_nat (length query_tokens));
                   phrase_bonus = (if phrases = [] then Fin 0
                     else f64_div (f64_of_nat (length (filter (contains_str prepared) phrases)))
                            (f64_of_nat (length phrases)))
               in f64_min (f64_add (f64_mul (f64_lit 85 100) coverage) (f64_mul (f64_lit 15 100) phrase_bonus)) (Fin 1))"

definition freshness ::
  "(f64 \<Rightarrow> f64 \<Rightarrow> f64) \<Rightarrow> 't time_api \<Rightarrow> rstr option \<Rightarrow> 't option \<Rightarrow> ranking_policy \<Rightarrow> f64" where
  "freshness powf tm published_at reference policy =
     (case reference of
        None \<Rightarrow> rp_freshness_unknown policy
      | Some ref \<Rightarrow>
          (case Option.bind published_at (tm_parse_rfc3339 tm) of
             None \<Rightarrow> rp_freshness_unknown policy
           | Some published \<Rightarrow>
               let age_seconds = f64_of_int (max 0 (tm_whole_seconds_between tm ref published));
                   age_days = f64_div age_seconds (Fin 86400)
               in powf (Fin 2) (f64_div (f64_uminus age_days) (f64_of_nat (unat (rp_freshness_half_life_days policy))))))"

definition agreement :: "nat \<Rightarrow> nat \<Rightarrow> f64" where
  "agreement provider_count active_provider_count =
     (if active_provider_count \<le> 1 then Fin 0
      else f64_clamp (f64_div (f64_of_nat (provider_count - 1)) (f64_of_nat (active_provider_count - 1))) (Fin 0) (Fin 1))"

section \<open>Ranking\<close>

definition result_cmp :: "deduplicated_result \<Rightarrow> deduplicated_result \<Rightarrow> ordering" where
  "result_cmp left right =
     then_with (ord_cmp (dr_canonical_url left) (dr_canonical_url right))
       (then_with (ord_cmp (dr_original_url left) (dr_original_url right))
         (ord_cmp (dr_representative_provider left) (dr_representative_provider right)))"

definition ranked_cmp :: "ranked_result \<Rightarrow> ranked_result \<Rightarrow> ordering" where
  "ranked_cmp left right =
     then_with (total_cmp (rr_score right) (rr_score left))
       (then_with (total_cmp (rr_title_match right) (rr_title_match left))
         (ord_cmp (rr_stable_order left) (rr_stable_order right)))"

definition score_result ::
  "(f64 \<Rightarrow> f64 \<Rightarrow> f64) \<Rightarrow> unicode \<Rightarrow> 't time_api \<Rightarrow> ranking_policy \<Rightarrow> rstr btree_set \<Rightarrow> rstr list \<Rightarrow> 't option \<Rightarrow> nat
     \<Rightarrow> nat \<times> deduplicated_result \<Rightarrow> ranked_result" where
  "score_result powf uc tm policy query_tokens phrases reference active_provider_count entry =
     (let (stable_order, result) = entry;
          rrf_score = rrf result (rp_rrf_k policy);
          title_match = text_match uc (dr_title result) query_tokens phrases;
          snippet_match = text_match uc (dr_snippet result) query_tokens phrases;
          fresh = freshness powf tm (dr_published_at result) reference policy;
          provider_agreement = agreement (length (dr_providers result)) active_provider_count;
          combined = f64_clamp (f64_add (f64_add (f64_add (f64_add
              (f64_mul (rp_weight_rrf policy) rrf_score)
              (f64_mul (rp_weight_title_match policy) title_match))
              (f64_mul (rp_weight_snippet_match policy) snippet_match))
              (f64_mul (rp_weight_freshness policy) fresh))
              (f64_mul (rp_weight_provider_agreement policy) provider_agreement)) (Fin 0) (Fin 1)
      in \<lparr> rr_result = result, rr_score = bounded combined, rr_title_match = bounded title_match,
           rr_stable_order = stable_order,
           rr_explanation = \<lparr> re_ranking_policy = rp_version policy, re_rrf = bounded rrf_score,
             re_title_match = bounded title_match, re_snippet_match = bounded snippet_match,
             re_freshness = bounded fresh, re_provider_agreement = bounded provider_agreement,
             re_combined_score = bounded combined, re_tie_break = CombinedScore \<rparr> \<rparr>)"

text \<open>The closing loop: each entry's tie-break reason against its predecessor.\<close>

definition tie_break_of :: "ranked_result \<Rightarrow> ranked_result \<Rightarrow> TieBreakReason" where
  "tie_break_of prev cur =
     (if f64_eq (rr_score prev) (rr_score cur)
      then (if f64_eq (rr_title_match prev) (rr_title_match cur) then StableOrder else TitleMatch)
      else CombinedScore)"

definition set_tie_break :: "TieBreakReason \<Rightarrow> ranked_result \<Rightarrow> ranked_result" where
  "set_tie_break t r = r\<lparr> rr_explanation := (rr_explanation r)\<lparr> re_tie_break := t \<rparr> \<rparr>"

fun mark_tie_breaks :: "ranked_result list \<Rightarrow> ranked_result list" where
  "mark_tie_breaks (x # y # ys) = x # mark_tie_breaks (set_tie_break (tie_break_of x y) y # ys)"
| "mark_tie_breaks xs = xs"

definition rank ::
  "(f64 \<Rightarrow> f64 \<Rightarrow> f64) \<Rightarrow> unicode \<Rightarrow> 't time_api \<Rightarrow> query \<Rightarrow> rstr \<Rightarrow> nat \<Rightarrow> deduplicated_result list \<Rightarrow> ranking_policy
     \<Rightarrow> ranked_result list" where
  "rank powf uc tm q ranking_reference_time active_provider_count results policy0 =
     (let policy = (if is_ok (ranking_policy_validate policy0) then policy0 else ranking_policy_default);
          sorted_results = sort_by result_cmp results;
          reference = tm_parse_rfc3339 tm ranking_reference_time;
          query_tokens = ranking_query_tokens uc q;
          phrases = filter (\<lambda>p. p \<noteq> []) (map (normalized_text uc) (q_quoted_terms q));
          ranked = map (score_result powf uc tm policy query_tokens phrases reference active_provider_count)
                     (zip [0..<length sorted_results] sorted_results)
      in mark_tie_breaks (sort_by ranked_cmp ranked))"

section \<open>Properties\<close>

interpretation result_order: total_comparator result_cmp
  unfolding result_cmp_def [abs_def] by (intro comparator_intros)

interpretation ranked_order: total_comparator ranked_cmp
  unfolding ranked_cmp_def [abs_def] total_cmp_def
  by (intro total_comparator_then total_comparator_reverse [OF total_comparator_ord] total_comparator_ord)

lemma set_tie_break_simps [simp]:
  "rr_result (set_tie_break t r) = rr_result r" "rr_score (set_tie_break t r) = rr_score r"
  "rr_title_match (set_tie_break t r) = rr_title_match r" "rr_stable_order (set_tie_break t r) = rr_stable_order r"
  "re_combined_score (rr_explanation (set_tie_break t r)) = re_combined_score (rr_explanation r)"
  "re_tie_break (rr_explanation (set_tie_break t r)) = t"
  by (simp_all add: set_tie_break_def)

lemma ranked_cmp_tie [simp]:
  "ranked_cmp (set_tie_break t x) y = ranked_cmp x y" "ranked_cmp x (set_tie_break t y) = ranked_cmp x y"
  "tie_break_of (set_tie_break t x) y = tie_break_of x y" "tie_break_of x (set_tie_break t y) = tie_break_of x y"
  by (simp_all add: ranked_cmp_def tie_break_of_def)

lemma map_mark_tie_breaks:
  assumes "\<And>t r. f (set_tie_break t r) = f r"
  shows "map f (mark_tie_breaks xs) = map f xs"
  using assms by (induction xs rule: mark_tie_breaks.induct) simp_all

lemma length_mark_tie_breaks [simp]: "length (mark_tie_breaks xs) = length xs"
  using map_mark_tie_breaks [of "\<lambda>_. ()" xs] by (metis length_map)

lemma mark_tie_breaks_sorted:
  assumes "sorted_wrt (cmp_le ranked_cmp) xs"
  shows "sorted_wrt (cmp_le ranked_cmp) (mark_tie_breaks xs)"
proof -
  let ?key = "\<lambda>r. (rr_score r, rr_title_match r, rr_stable_order r)"
  define le where "le = (\<lambda>(a :: f64, b :: f64, c :: nat) (a', b', c').
    then_with (total_cmp a' a) (then_with (total_cmp b' b) (ord_cmp c c')) \<noteq> Greater)"
  have le: "cmp_le ranked_cmp x y \<longleftrightarrow> le (?key x) (?key y)" for x y
    by (simp add: cmp_le_def ranked_cmp_def le_def)
  have "sorted_wrt (cmp_le ranked_cmp) zs \<longleftrightarrow> sorted_wrt le (map ?key zs)" for zs
    by (simp add: sorted_wrt_map le [symmetric])
  moreover have "map ?key (mark_tie_breaks xs) = map ?key xs" by (rule map_mark_tie_breaks) simp
  ultimately show ?thesis using assms by simp
qed

lemma mark_tie_breaks_nth:
  "Suc i < length xs \<Longrightarrow> re_tie_break (rr_explanation (mark_tie_breaks xs ! Suc i))
     = tie_break_of (mark_tie_breaks xs ! i) (mark_tie_breaks xs ! Suc i)"
proof (induction xs arbitrary: i rule: mark_tie_breaks.induct)
  case (1 x y ys)
  let ?r = "mark_tie_breaks (set_tie_break (tie_break_of x y) y # ys)"
  have hd: "?r ! 0 = set_tie_break (tie_break_of x y) y" by (cases ys) simp_all
  from 1 show ?case by (cases i) (simp_all add: hd)
qed simp_all

lemma score_result_simps:
  "rr_result (score_result powf uc tm p qt ph r n e) = snd e"
  "rr_stable_order (score_result powf uc tm p qt ph r n e) = fst e"
  "in_unit (rr_score (score_result powf uc tm p qt ph r n e))"
  "in_unit (rr_title_match (score_result powf uc tm p qt ph r n e))"
  "re_combined_score (rr_explanation (score_result powf uc tm p qt ph r n e)) = rr_score (score_result powf uc tm p qt ph r n e)"
  by (simp_all add: score_result_def Let_def split_beta)

lemma rank_unfold:
  obtains p qt ph r where "rank powf uc tm q now active results policy =
    mark_tie_breaks (sort_by ranked_cmp (map (score_result powf uc tm p qt ph r active)
      (zip [0..<length results] (sort_by result_cmp results))))"
  by (simp add: rank_def Let_def)

lemma rank_scores:
  "list_all (\<lambda>r. in_unit (rr_score r) \<and> in_unit (rr_title_match r) \<and> re_combined_score (rr_explanation r) = rr_score r)
     (rank powf uc tm q now active results policy)" (is "list_all ?ok ?out")
proof -
  obtain p qt ph r where out: "?out = mark_tie_breaks (sort_by ranked_cmp (map (score_result powf uc tm p qt ph r active)
      (zip [0..<length results] (sort_by result_cmp results))))"
    by (rule rank_unfold)
  let ?xs = "map (score_result powf uc tm p qt ph r active) (zip [0..<length results] (sort_by result_cmp results))"
  have m: "map ?ok ?out = map ?ok (sort_by ranked_cmp ?xs)" unfolding out by (rule map_mark_tie_breaks) simp
  have xs: "?ok x" if "x \<in> set ?xs" for x using that by (auto simp: score_result_simps)
  show ?thesis
  proof (simp only: list_all_iff, rule ballI)
    fix o1 assume "o1 \<in> set ?out"
    then have "?ok o1 \<in> set (map ?ok (sort_by ranked_cmp ?xs))" unfolding m [symmetric] by simp
    then obtain x where "x \<in> set ?xs" "?ok o1 = ?ok x" unfolding set_map set_sort_by by blast
    with xs show "?ok o1" by blast
  qed
qed


text \<open>
  Ranking is deterministic: on results told apart by canonical URL, original URL or representative
  provider the order in which they arrive does not influence the output.
\<close>

theorem rank_deterministic:
  assumes "mset as = mset bs"
    and "distinct (map (\<lambda>d. (dr_canonical_url d, dr_original_url d, dr_representative_provider d)) as)"
  shows "rank powf uc tm q now active as policy = rank powf uc tm q now active bs policy"
proof -
  have "sort_by result_cmp as = sort_by result_cmp bs"
  proof (rule result_order.sort_by_perm [OF assms(1)])
    fix a b assume "a \<in> set as" "b \<in> set as" "result_cmp a b = Equal"
    then show "a = b" using assms(2) by (auto simp: result_cmp_def distinct_map inj_on_def)
  qed
  then show ?thesis by (simp add: rank_def)
qed

text \<open>Concrete parameters for the witnesses.\<close>

definition ascii_unicode :: unicode where
  "ascii_unicode = \<lparr> uc_nfkc = (\<lambda>s. s), uc_to_lowercase = (\<lambda>c. [ascii_lower c]),
     uc_str_to_lowercase = to_ascii_lowercase, uc_is_alphanumeric = is_ascii_alphanumeric \<rparr>"

definition sample_api :: "url url_api" where
  "sample_api = \<lparr> url_parse = (\<lambda>s. Some s), url_as_str = (\<lambda>u. u), url_scheme = (\<lambda>u. lit ''https''),
     url_username = (\<lambda>u. []), url_password = (\<lambda>u. None), url_host = (\<lambda>u. Some (Domain (lit ''a.b''))),
     url_host_str = (\<lambda>u. Some (lit ''a.b'')), url_query = (\<lambda>u. None), url_fragment = (\<lambda>u. None),
     url_set_query = (\<lambda>q u. u), url_set_fragment = (\<lambda>f u. u) \<rparr>"

definition no_time :: "int time_api" where
  "no_time = \<lparr> tm_parse_rfc3339 = (\<lambda>_. None), tm_format_rfc3339 = (\<lambda>_. None),
     tm_parse_ymd_midnight_utc = (\<lambda>_. None), tm_whole_seconds_between = (\<lambda>a b. a - b) \<rparr>"

definition sample_dedup :: "rstr \<Rightarrow> deduplicated_result" where
  "sample_dedup u = \<lparr> dr_schema_version = SCHEMA_VERSION, dr_title = Some (lit ''t''), dr_original_url = u,
     dr_canonical_url = u, dr_original_urls = [u], dr_providers = [lit ''p''],
     dr_representative_provider = lit ''p'', dr_provider_ranks = [(lit ''p'', Some 1)], dr_snippet = None,
     dr_alternate_snippets = [], dr_result_type = Rt_Organic, dr_published_at = None, dr_author = None,
     dr_language = None, dr_file_type = None, dr_thumbnail = None, dr_metadata = [],
     dr_observed_dates = [], dr_duplicate_status = Distinct, dr_merge_reason = None,
     dr_possible_duplicate_with = [] \<rparr>"

definition sample_query :: query where
  "sample_query = \<lparr> q_schema_version = SCHEMA_VERSION, q_raw_query = lit ''t'', q_normalized_query = lit ''t'',
     q_quoted_terms = [], q_excluded_terms = [], q_domains = [], q_excluded_domains = [], q_file_types = [],
     q_language = None, q_region = None, q_date_from = None, q_date_to = None, q_warnings = [] \<rparr>"

theorem rank_deterministic_witness:
  "rank (\<lambda>a b. a) ascii_unicode no_time sample_query [] 1
     [sample_dedup (lit ''b''), sample_dedup (lit ''a'')] ranking_policy_default
   = rank (\<lambda>a b. a) ascii_unicode no_time sample_query [] 1
     [sample_dedup (lit ''a''), sample_dedup (lit ''b'')] ranking_policy_default"
  by (rule rank_deterministic) (simp_all add: sample_dedup_def)

end
