(* ===== verification/Diversity.thy ===== *)
theory Diversity
  imports Ranking
begin

text \<open>
  \<open>diversity.rs\<close>: per-domain, per-provider and per-type caps on visible results, with the
  relevance override. Over-represented results are relegated, never removed. Counters are
  \<open>BTreeMap\<close>s of \<open>usize\<close>, which cannot overflow on lists that fit in memory.
\<close>

record diversity_policy =
  dp_version :: rstr
  dp_max_visible_per_domain :: nat
  dp_max_visible_per_provider :: nat
  dp_max_visible_per_result_type :: nat
  dp_relevance_override_ratio :: f64

definition diversity_policy_default :: diversity_policy where
  "diversity_policy_default = \<lparr> dp_version = lit ''v1'', dp_max_visible_per_domain = 2,
     dp_max_visible_per_provider = 5, dp_max_visible_per_result_type = 6,
     dp_relevance_override_ratio = f64_lit 115 100 \<rparr>"

datatype DiversityPolicyError = Dpe_Version | Dpe_Limit | Dpe_Override

definition diversity_policy_validate :: "diversity_policy \<Rightarrow> DiversityPolicyError + unit" where
  "diversity_policy_validate p =
     (if dp_version p \<noteq> lit ''v1'' then Err Dpe_Version
      else if dp_max_visible_per_domain p = 0 \<or> dp_max_visible_per_provider p = 0
              \<or> dp_max_visible_per_result_type p = 0 then Err Dpe_Limit
      else if \<not> is_finite (dp_relevance_override_ratio p) \<or> f64_lt (dp_relevance_override_ratio p) (Fin 1)
      then Err Dpe_Override
      else Ok ())"

record diversity_decision =
  dd_rank :: rank
  dd_limit :: rstr
  dd_group :: rstr
  dd_score :: score
  dd_comparator_score :: "score option"
  dd_override_applied :: bool

record diversity_metrics =
  dm_visible_results :: nat
  dm_unique_domains :: nat
  dm_unique_providers :: nat
  dm_unique_result_types :: nat

definition diversity_metrics_default :: diversity_metrics where
  "diversity_metrics_default = \<lparr> dm_visible_results = 0, dm_unique_domains = 0, dm_unique_providers = 0,
     dm_unique_result_types = 0 \<rparr>"

record diversity_output =
  do_results :: "search_result list"
  do_decisions :: "diversity_decision list"
  do_metrics :: diversity_metrics

datatype Group = G_Domain rstr | G_Provider rstr | G_ResultType ResultType

fun limit_name :: "Group \<Rightarrow> string" where
  "limit_name (G_Domain _) = ''domain''"
| "limit_name (G_Provider _) = ''provider''"
| "limit_name (G_ResultType _) = ''result_type''"

text \<open>The lower-cased \<open>Debug\<close> name of a result type.\<close>

fun result_type_name :: "ResultType \<Rightarrow> string" where
  "result_type_name Rt_Organic = ''organic''"
| "result_type_name Rt_News = ''news''"
| "result_type_name Rt_Media = ''media''"
| "result_type_name Rt_Document = ''document''"
| "result_type_name Rt_Code = ''code''"
| "result_type_name Rt_Forum = ''forum''"
| "result_type_name Rt_Social = ''social''"
| "result_type_name Rt_Commercial = ''commercial''"
| "result_type_name Rt_Navigation = ''navigation''"
| "result_type_name Rt_Other = ''other''"

fun group_value :: "Group \<Rightarrow> rstr" where
  "group_value (G_Domain v) = v"
| "group_value (G_Provider v) = v"
| "group_value (G_ResultType v) = lit (result_type_name v)"

fun group_matches :: "url url_api \<Rightarrow> Group \<Rightarrow> ranked_result \<Rightarrow> bool" where
  "group_matches api (G_Domain domain) c = (url_host_str api (dr_canonical_url (rr_result c)) = Some domain)"
| "group_matches api (G_Provider provider) c = (provider \<in> set (dr_providers (rr_result c)))"
| "group_matches api (G_ResultType t) c = (dr_result_type (rr_result c) = t)"

definition next_comparator :: "url url_api \<Rightarrow> ranked_result list \<Rightarrow> nat \<Rightarrow> Group \<Rightarrow> score option" where
  "next_comparator api results index grp =
     map_option rr_score (find (group_matches api grp) (drop (index + 1) results))"

text \<open>The counters of the loop.\<close>

record diversity_state =
  ds_domains :: "(rstr, nat) btree_map"
  ds_providers :: "(rstr, nat) btree_map"
  ds_result_types :: "(ResultType, nat) btree_map"

definition bt_count :: "('k, nat) btree_map \<Rightarrow> 'k \<Rightarrow> nat" where
  "bt_count m k = (case bt_get m k of None \<Rightarrow> 0 | Some n \<Rightarrow> n)"

definition bt_incr :: "'k::linorder \<Rightarrow> ('k, nat) btree_map \<Rightarrow> ('k, nat) btree_map" where
  "bt_incr k m = bt_entry k 0 (\<lambda>n. n + 1) m"

definition domain_of :: "url url_api \<Rightarrow> ranked_result \<Rightarrow> rstr" where
  "domain_of api r = (case url_host_str api (dr_canonical_url (rr_result r)) of None \<Rightarrow> [] | Some h \<Rightarrow> h)"

definition exceeded_groups ::
  "url url_api \<Rightarrow> diversity_policy \<Rightarrow> diversity_state \<Rightarrow> ranked_result \<Rightarrow> Group list" where
  "exceeded_groups api policy st ranked =
     (if dp_max_visible_per_domain policy \<le> bt_count (ds_domains st) (domain_of api ranked)
      then [G_Domain (domain_of api ranked)] else [])
     @ map G_Provider (filter (\<lambda>p. dp_max_visible_per_provider policy \<le> bt_count (ds_providers st) p)
         (dr_providers (rr_result ranked)))
     @ (if dp_max_visible_per_result_type policy \<le> bt_count (ds_result_types st) (dr_result_type (rr_result ranked))
        then [G_ResultType (dr_result_type (rr_result ranked))] else [])"

definition override_applies ::
  "url url_api \<Rightarrow> diversity_policy \<Rightarrow> ranked_result list \<Rightarrow> nat \<Rightarrow> ranked_result \<Rightarrow> Group list \<Rightarrow> bool" where
  "override_applies api policy results index ranked exceeded \<longleftrightarrow>
     exceeded \<noteq> [] \<and> list_all (\<lambda>grp.
       (case next_comparator api results index grp of
          None \<Rightarrow> False
        | Some score \<Rightarrow> f64_le (f64_mul score (dp_relevance_override_ratio policy)) (rr_score ranked))) exceeded"

definition count_visible :: "url url_api \<Rightarrow> ranked_result \<Rightarrow> diversity_state \<Rightarrow> diversity_state" where
  "count_visible api ranked st = st\<lparr>
     ds_domains := bt_incr (domain_of api ranked) (ds_domains st),
     ds_providers := foldl (\<lambda>m p. bt_incr p m) (ds_providers st) (dr_providers (rr_result ranked)),
     ds_result_types := bt_incr (dr_result_type (rr_result ranked)) (ds_result_types st) \<rparr>"

text \<open>\<open>Rank::new(index as u32 + 1).unwrap_or(Rank::MAX)\<close>.\<close>

definition rank_of_index :: "nat \<Rightarrow> rank" where
  "rank_of_index index = (case rank_new (of_nat index + 1) of Ok r \<Rightarrow> r | Err _ \<Rightarrow> rank_max)"

definition diversify_step ::
  "url url_api \<Rightarrow> diversity_policy \<Rightarrow> ranked_result list
     \<Rightarrow> diversity_state \<times> search_result list \<times> diversity_decision list \<Rightarrow> nat
     \<Rightarrow> diversity_state \<times> search_result list \<times> diversity_decision list" where
  "diversify_step api policy results acc index =
     (let (st, output, decisions) = acc;
          ranked = results ! index;
          exceeded = exceeded_groups api policy st ranked;
          override_applied = override_applies api policy results index ranked exceeded;
          visible = (exceeded = [] \<or> override_applied)
      in (if visible then count_visible api ranked st else st,
          output @ [\<lparr> sr_schema_version = SCHEMA_VERSION, sr_rank = rank_of_index index,
            sr_title = dr_title (rr_result ranked), sr_original_url = dr_original_url (rr_result ranked),
            sr_canonical_url = dr_canonical_url (rr_result ranked), sr_domain = domain_of api ranked,
            sr_snippet = dr_snippet (rr_result ranked), sr_providers = dr_providers (rr_result ranked),
            sr_published_at = dr_published_at (rr_result ranked),
            sr_status = (if visible then Visible else RelegatedByDiversity) \<rparr>],
          decisions @ map (\<lambda>grp. \<lparr> dd_rank = rank_of_index index, dd_limit = lit (limit_name grp),
            dd_group = group_value grp, dd_score = rr_score ranked,
            dd_comparator_score = next_comparator api results index grp,
            dd_override_applied = override_applied \<rparr>) exceeded))"

definition diversify :: "url url_api \<Rightarrow> ranked_result list \<Rightarrow> diversity_policy \<Rightarrow> diversity_output" where
  "diversify api results policy0 =
     (let policy = (if is_ok (diversity_policy_validate policy0) then policy0 else diversity_policy_default);
          (st, output, decisions) = foldl (diversify_step api policy results)
            (\<lparr> ds_domains = bt_empty, ds_providers = bt_empty, ds_result_types = bt_empty \<rparr>, [], []) [0..<length results]
      in \<lparr> do_results = output, do_decisions = decisions,
           do_metrics = \<lparr> dm_visible_results = sum_list (bt_values (ds_domains st)),
             dm_unique_domains = length (ds_domains st), dm_unique_providers = length (ds_providers st),
             dm_unique_result_types = length (ds_result_types st) \<rparr> \<rparr>)"

section \<open>Counters\<close>

lemma bt_incr_wf: "bt_wf m \<Longrightarrow> bt_wf (bt_incr k m)"
  by (simp add: bt_incr_def bt_entry_wf)

lemma bt_count_incr: "bt_wf m \<Longrightarrow> bt_count (bt_incr k m) j = bt_count m j + (if j = k then 1 else 0)"
  by (simp add: bt_incr_def bt_count_def bt_get_entry split: option.split)

lemma foldl_bt_incr:
  "bt_wf m \<Longrightarrow> bt_wf (foldl (\<lambda>m p. bt_incr p m) m ps)
     \<and> bt_count (foldl (\<lambda>m p. bt_incr p m) m ps) j = bt_count m j + count_list ps j"
  by (induction ps arbitrary: m) (auto simp: bt_incr_wf bt_count_incr)

lemma sum_values_insert:
  "bt_wf m \<Longrightarrow> sum_list (bt_values (bt_insert k v m)) + bt_count m k = sum_list (bt_values m) + v" for v :: nat
proof (induction m)
  case (Cons x m)
  obtain a b where x: "x = (a, b)" by fastforce
  have wf: "bt_wf m" using Cons.prems by (simp add: bt_wf_def)
  have "bt_count ((a, b) # m) k = 0" if "k < a"
  proof -
    have "k \<notin> fst ` set ((a, b) # m)" using that Cons.prems by (auto simp: bt_wf_def x)
    then have "bt_get ((a, b) # m) k = None" by (simp only: bt_get_def map_of_eq_None_iff not_False_eq_True)
    then show ?thesis by (simp add: bt_count_def)
  qed
  moreover have "bt_count ((a, b) # m) k = bt_count m k" if "k \<noteq> a"
    using that by (simp add: bt_count_def bt_get_def)
  ultimately show ?case using Cons.IH [OF wf]
    by (auto simp: x bt_values_def bt_count_def bt_get_def)
qed (simp add: bt_values_def bt_count_def bt_get_def)

lemma sum_values_incr: "bt_wf m \<Longrightarrow> sum_list (bt_values (bt_incr k m)) = sum_list (bt_values m) + 1"
  using sum_values_insert [of m k "bt_count m k + 1"] by (simp add: bt_incr_def bt_entry_def bt_count_def)

section \<open>The loop\<close>

fun in_group :: "url url_api \<Rightarrow> Group \<Rightarrow> ranked_result \<Rightarrow> bool" where
  "in_group api (G_Domain d) r = (domain_of api r = d)"
| "in_group api (G_Provider p) r = (p \<in> set (dr_providers (rr_result r)))"
| "in_group api (G_ResultType t) r = (dr_result_type (rr_result r) = t)"

fun group_limit :: "diversity_policy \<Rightarrow> Group \<Rightarrow> nat" where
  "group_limit p (G_Domain _) = dp_max_visible_per_domain p"
| "group_limit p (G_Provider _) = dp_max_visible_per_provider p"
| "group_limit p (G_ResultType _) = dp_max_visible_per_result_type p"

fun group_count :: "diversity_state \<Rightarrow> Group \<Rightarrow> nat" where
  "group_count st (G_Domain d) = bt_count (ds_domains st) d"
| "group_count st (G_Provider p) = bt_count (ds_providers st) p"
| "group_count st (G_ResultType t) = bt_count (ds_result_types st) t"

definition state_wf :: "diversity_state \<Rightarrow> bool" where
  "state_wf st \<longleftrightarrow> bt_wf (ds_domains st) \<and> bt_wf (ds_providers st) \<and> bt_wf (ds_result_types st)"

definition is_override_of :: "Group \<Rightarrow> diversity_decision \<Rightarrow> bool" where
  "is_override_of g d \<longleftrightarrow> dd_override_applied d \<and> dd_limit d = lit (limit_name g) \<and> dd_group d = group_value g"

lemma not_exceeded: "in_group api g r \<Longrightarrow> g \<notin> set (exceeded_groups api p st r) \<Longrightarrow> group_count st g < group_limit p g"
  by (cases g) (auto simp: exceeded_groups_def split: if_splits)

lemma count_visible_wf: "state_wf st \<Longrightarrow> state_wf (count_visible api r st)"
  using foldl_bt_incr by (auto simp: state_wf_def count_visible_def bt_incr_wf)

lemma count_list_pos: "x \<in> set xs \<Longrightarrow> 1 \<le> count_list xs x"
  by (metis One_nat_def Suc_leI count_list_0_iff neq0_conv)

lemma count_visible_ge:
  "state_wf st \<Longrightarrow> group_count st g + (if in_group api g r then 1 else 0) \<le> group_count (count_visible api r st) g"
  using foldl_bt_incr [of "ds_providers st" "dr_providers (rr_result r)"] count_list_pos
  by (cases g) (auto simp: state_wf_def count_visible_def bt_count_incr)

definition diversify_init :: "diversity_state \<times> search_result list \<times> diversity_decision list" where
  "diversify_init = (\<lparr> ds_domains = bt_empty, ds_providers = bt_empty, ds_result_types = bt_empty \<rparr>, [], [])"

definition visible_in ::
  "url url_api \<Rightarrow> ranked_result list \<Rightarrow> search_result list \<Rightarrow> Group \<Rightarrow> nat" where
  "visible_in api results output g = length (filter (\<lambda>(r, s). sr_status s = Visible \<and> in_group api g r) (zip results output))"

definition loop_inv ::
  "url url_api \<Rightarrow> diversity_policy \<Rightarrow> ranked_result list \<Rightarrow> nat
     \<Rightarrow> diversity_state \<times> search_result list \<times> diversity_decision list \<Rightarrow> bool" where
  "loop_inv api p results k acc \<longleftrightarrow>
     (case acc of (st, output, decisions) \<Rightarrow>
        state_wf st
        \<and> map sr_canonical_url output = map (\<lambda>r. dr_canonical_url (rr_result r)) (take k results)
        \<and> map sr_providers output = map (\<lambda>r. dr_providers (rr_result r)) (take k results)
        \<and> map sr_rank output = map rank_of_index [0..<k]
        \<and> sum_list (bt_values (ds_domains st)) = length (filter (\<lambda>s. sr_status s = Visible) output)
        \<and> (\<forall>g. visible_in api results output g \<le> group_count st g
              \<and> visible_in api results output g \<le> group_limit p g + length (filter (is_override_of g) decisions)))"

lemma visible_in_snoc:
  assumes "length output = k" "k < length results"
  shows "visible_in api results (output @ [s]) g =
    visible_in api results output g + (if sr_status s = Visible \<and> in_group api g (results ! k) then 1 else 0)"
proof -
  have r: "results = take k results @ results ! k # drop (Suc k) results" using assms(2) by (rule id_take_nth_drop)
  have len: "length (take k results) = length output" using assms by simp
  have "zip results (output @ [s]) = zip (take k results) output @ [(results ! k, s)]"
    by (subst r) (simp add: zip_append [OF len])
  moreover have "zip results output = zip (take k results) output"
    by (subst r) (simp add: zip_append1 assms)
  ultimately show ?thesis by (simp add: visible_in_def)
qed

lemma loop_step:
  assumes inv: "loop_inv api p results k acc" and k: "k < length results"
  shows "loop_inv api p results (Suc k) (diversify_step api p results acc k)"
proof -
  obtain st outp decisions where acc: "acc = (st, outp, decisions)" by (cases acc) auto
  let ?r = "results ! k"
  define ex where "ex = exceeded_groups api p st ?r"
  define ov where "ov = override_applies api p results k ?r ex"
  define vis where "vis \<longleftrightarrow> ex = [] \<or> ov"
  obtain st' s ds where step: "diversify_step api p results acc k = (st', outp @ [s], decisions @ ds)"
    and st': "st' = (if vis then count_visible api ?r st else st)"
    and s: "sr_canonical_url s = dr_canonical_url (rr_result ?r)" "sr_providers s = dr_providers (rr_result ?r)"
      "sr_rank s = rank_of_index k" "sr_status s = Visible \<longleftrightarrow> vis"
    and ds: "ds = map (\<lambda>g. \<lparr> dd_rank = rank_of_index k, dd_limit = lit (limit_name g), dd_group = group_value g,
        dd_score = rr_score ?r, dd_comparator_score = next_comparator api results k g, dd_override_applied = ov \<rparr>) ex"
    by (simp add: diversify_step_def acc Let_def flip: ex_def ov_def vis_def)
  from inv have wf: "state_wf st" and urls: "map sr_canonical_url outp = map (\<lambda>r. dr_canonical_url (rr_result r)) (take k results)"
    and provs: "map sr_providers outp = map (\<lambda>r. dr_providers (rr_result r)) (take k results)"
    and ranks: "map sr_rank outp = map rank_of_index [0..<k]"
    and sum: "sum_list (bt_values (ds_domains st)) = length (filter (\<lambda>s. sr_status s = Visible) outp)"
    and cnt: "\<And>g. visible_in api results outp g \<le> group_count st g"
    and lim: "\<And>g. visible_in api results outp g \<le> group_limit p g + length (filter (is_override_of g) decisions)"
    by (simp_all add: loop_inv_def acc)
  have len: "length outp = k" using ranks by (metis length_map length_upt minus_nat.diff_0)
  note snoc = visible_in_snoc [OF len k, of api s, unfolded s(4)]
  have wf': "state_wf st'" using wf by (simp add: st' count_visible_wf)
  have sum': "sum_list (bt_values (ds_domains st')) = length (filter (\<lambda>s. sr_status s = Visible) (outp @ [s]))"
    using wf sum s(4) by (simp add: st' count_visible_def state_wf_def sum_values_incr)
  have cnt': "visible_in api results (outp @ [s]) g \<le> group_count st' g" for g
    using cnt [of g] count_visible_ge [OF wf, of g api ?r] by (simp add: snoc st' split: if_splits)
  have lim': "visible_in api results (outp @ [s]) g \<le> group_limit p g + length (filter (is_override_of g) (decisions @ ds))" for g
  proof (cases "vis \<and> in_group api g ?r")
    case True
    show ?thesis
    proof (cases "g \<in> set ex")
      case True
      then have "ov" using \<open>vis \<and> in_group api g ?r\<close> by (auto simp: vis_def)
      with True have "filter (is_override_of g) ds \<noteq> []"
        by (force simp: ds is_override_of_def filter_empty_conv)
      then have "1 \<le> length (filter (is_override_of g) ds)" by (simp add: Suc_le_eq)
      with lim [of g] show ?thesis by (simp add: snoc)
    next
      case False
      with True not_exceeded [of api g ?r p st] have "group_count st g < group_limit p g" by (simp add: ex_def)
      with cnt [of g] show ?thesis by (simp add: snoc)
    qed
  next
    case False
    with lim [of g] show ?thesis by (auto simp: snoc)
  qed
  show ?thesis
    using wf' sum' cnt' lim' urls provs ranks s(1-3) by (simp add: loop_inv_def step take_Suc_conv_app_nth k)
qed

lemma loop_run:
  "k \<le> length results \<Longrightarrow> loop_inv api p results k (foldl (diversify_step api p results) diversify_init [0..<k])"
proof (induction k)
  case 0
  then show ?case
    by (simp add: loop_inv_def diversify_init_def state_wf_def bt_wf_def bt_empty_def visible_in_def bt_values_def)
next
  case (Suc k)
  then show ?case using loop_step [of api p results k] by simp
qed

definition effective_diversity_policy :: "diversity_policy \<Rightarrow> diversity_policy" where
  "effective_diversity_policy p = (if is_ok (diversity_policy_validate p) then p else diversity_policy_default)"

lemma diversify_run:
  obtains st decisions where
    "loop_inv api (effective_diversity_policy p) results (length results) (st, do_results (diversify api results p), do_decisions (diversify api results p))"
    "dm_visible_results (do_metrics (diversify api results p)) = sum_list (bt_values (ds_domains st))"
proof -
  let ?p = "effective_diversity_policy p"
  obtain st outp decisions where run: "foldl (diversify_step api ?p results) diversify_init [0..<length results] = (st, outp, decisions)"
    by (metis surj_pair)
  have d: "do_results (diversify api results p) = outp" "do_decisions (diversify api results p) = decisions"
    "dm_visible_results (do_metrics (diversify api results p)) = sum_list (bt_values (ds_domains st))"
    using run by (simp_all add: diversify_def Let_def effective_diversity_policy_def diversify_init_def)
  show thesis using that loop_run [of "length results" results api ?p] by (simp add: run d)
qed

text \<open>
  Diversity never drops, adds or reorders a result: the output lists the ranked results in order,
  with their URLs and providers and consecutive ranks from one, and the metric of visible results
  counts those marked visible.
\<close>

theorem diversify_preserves:
  fixes api :: "url url_api" and results :: "ranked_result list" and p :: diversity_policy
  defines "out \<equiv> diversify api results p"
  shows "map sr_canonical_url (do_results out) = map (\<lambda>r. dr_canonical_url (rr_result r)) results
    \<and> map sr_providers (do_results out) = map (\<lambda>r. dr_providers (rr_result r)) results
    \<and> map sr_rank (do_results out) = map rank_of_index [0..<length results]
    \<and> dm_visible_results (do_metrics out) = length (filter (\<lambda>s. sr_status s = Visible) (do_results out))"
proof -
  obtain st ds where "loop_inv api (effective_diversity_policy p) results (length results) (st, do_results out, do_decisions out)"
    "dm_visible_results (do_metrics out) = sum_list (bt_values (ds_domains st))"
    unfolding out_def by (rule diversify_run)
  then show ?thesis by (simp add: loop_inv_def)
qed

text \<open>
  C11. Every domain, provider and result type has at most its limit of visible results, plus one for
  each relevance override the decision log records for that very group: without overrides the caps
  of the policy hold for every group.
\<close>

theorem diversify_caps:
  "visible_in api results (do_results (diversify api results p)) g
     \<le> group_limit (effective_diversity_policy p) g
       + length (filter (is_override_of g) (do_decisions (diversify api results p)))"
proof -
  obtain st ds where "loop_inv api (effective_diversity_policy p) results (length results)
      (st, do_results (diversify api results p), do_decisions (diversify api results p))"
    by (rule diversify_run)
  then show ?thesis by (simp add: loop_inv_def)
qed

end
