(* ===== verification/Optics.thy ===== *)
theory Optics
  imports Ranking Security
begin

text \<open>
  \<open>optics.rs\<close> and \<open>ranking_adjustments.rs\<close>: operator-declared rules over ranked results, the
  tracker penalty, and the final re-sort. Panics of \<open>expect\<close> are the value \<open>None\<close>. The
  parser of \<open>.optic\<close> files is built from the combinators of the crate \<open>nom\<close> and is not
  modelled; the theory starts from the parsed document.
\<close>

section \<open>Patterns\<close>

text \<open>The fragment loop of \<open>pattern_matches\<close>, on the part of the haystack after the cursor.\<close>

fun fragment_loop :: "bool \<Rightarrow> bool \<Rightarrow> bool \<Rightarrow> rstr list \<Rightarrow> rstr \<Rightarrow> bool" where
  "fragment_loop is_first anchored_start anchored_end [] rest = True"
| "fragment_loop is_first anchored_start anchored_end (f # fs) rest =
     (if f = [] then fragment_loop False anchored_start anchored_end fs rest
      else case split_once_str f rest of
        None \<Rightarrow> False
      | Some (skipped, rest') \<Rightarrow>
          if is_first \<and> anchored_start \<and> skipped \<noteq> [] then False
          else if fs = [] \<and> anchored_end \<and> rest' \<noteq> [] then False
          else fragment_loop False anchored_start anchored_end fs rest')"

text \<open>The pattern without its anchors, and which anchors it had.\<close>

definition strip_anchors :: "rstr \<Rightarrow> bool \<times> bool \<times> rstr" where
  "strip_anchors p =
     (let anchored_start = starts_with p [124];
          p1 = (if anchored_start then drop 1 p else p);
          anchored_end = ends_with p1 [124]
      in (anchored_start, anchored_end, if anchored_end then butlast p1 else p1))"

definition match_pattern :: "rstr \<Rightarrow> rstr \<Rightarrow> bool" where
  "match_pattern pattern haystack =
     (let (anchored_start, anchored_end, p) = strip_anchors pattern;
          fragments = split_on (\<lambda>c. c = 42) p
      in if length fragments \<le> 1
         then (if anchored_start then (if anchored_end then haystack = p else starts_with haystack p)
               else (if anchored_end then ends_with haystack p else contains_str haystack p))
         else fragment_loop True anchored_start anchored_end fragments haystack)"

definition pattern_matches :: "unicode \<Rightarrow> rstr \<Rightarrow> rstr \<Rightarrow> bool" where
  "pattern_matches uc pattern haystack =
     match_pattern (uc_str_to_lowercase uc pattern) (uc_str_to_lowercase uc haystack)"

section \<open>Documents\<close>

datatype MatchField = Mf_Site rstr | Mf_Domain rstr | Mf_Title rstr | Mf_Url rstr

datatype Action = Boost u32 | Downrank u32

definition OPTICS_STEP :: f64 where "OPTICS_STEP = f64_lit 1 10"
definition DOWNRANK_FLOOR :: f64 where "DOWNRANK_FLOOR = f64_lit 1 100"

fun action_multiplier :: "Action \<Rightarrow> f64" where
  "action_multiplier (Boost n) = f64_add (Fin 1) (f64_mul (f64_of_nat (unat n)) OPTICS_STEP)"
| "action_multiplier (Downrank n) =
     f64_max (f64_sub (Fin 1) (f64_mul (f64_of_nat (unat n)) OPTICS_STEP)) DOWNRANK_FLOOR"

record optics_rule =
  or_matches :: "MatchField list"
  or_action :: Action

record optics_document =
  od_rules :: "optics_rule list"
  od_discard_non_matching :: bool

fun field_matches :: "unicode \<Rightarrow> url url_api \<Rightarrow> MatchField \<Rightarrow> ranked_result \<Rightarrow> bool" where
  "field_matches uc api (Mf_Site pattern) r =
     (case url_host_str api (dr_canonical_url (rr_result r)) of None \<Rightarrow> False | Some h \<Rightarrow> pattern_matches uc pattern h)"
| "field_matches uc api (Mf_Domain pattern) r =
     (case url_host_str api (dr_canonical_url (rr_result r)) of None \<Rightarrow> False | Some h \<Rightarrow> pattern_matches uc pattern h)"
| "field_matches uc api (Mf_Title pattern) r =
     (case dr_title (rr_result r) of None \<Rightarrow> False | Some t \<Rightarrow> pattern_matches uc pattern t)"
| "field_matches uc api (Mf_Url pattern) r = pattern_matches uc pattern (dr_canonical_url (rr_result r))"

definition rule_matches :: "unicode \<Rightarrow> url url_api \<Rightarrow> ranked_result \<Rightarrow> optics_rule \<Rightarrow> bool" where
  "rule_matches uc api r rule = list_ex (\<lambda>field. field_matches uc api field r) (or_matches rule)"

definition multiplier_for :: "unicode \<Rightarrow> url url_api \<Rightarrow> optics_document \<Rightarrow> ranked_result \<Rightarrow> f64 \<times> bool" where
  "multiplier_for uc api document result =
     foldl (\<lambda>(multiplier, matched) rule.
         if rule_matches uc api result rule then (f64_mul multiplier (action_multiplier (or_action rule)), True)
         else (multiplier, matched)) (Fin 1, False) (od_rules document)"

section \<open>Adjustments\<close>

text \<open>The bundled list: the trimmed, uncommented lines of the asset file, whose text is the argument.\<close>

definition tracker_domains :: "rstr \<Rightarrow> rstr list" where
  "tracker_domains asset =
     filter (\<lambda>line. line \<noteq> [] \<and> \<not> starts_with line [35]) (map trim (split_on (\<lambda>c. c = 10) asset))"

definition TRACKER_PENALTY_MULTIPLIER :: f64 where "TRACKER_PENALTY_MULTIPLIER = f64_lit 5 100"

definition is_tracker_domain :: "rstr list \<Rightarrow> url url_api \<Rightarrow> url \<Rightarrow> bool" where
  "is_tracker_domain trackers api u =
     (case url_host_str api u of None \<Rightarrow> False | Some h \<Rightarrow> h \<in> set trackers)"

text \<open>\<open>RankingScore::new((score * m).clamp(0.0, 1.0)).expect(..)\<close>.\<close>

definition scale_score :: "f64 \<Rightarrow> ranked_result \<Rightarrow> ranked_result option" where
  "scale_score m result =
     (case score_new (f64_clamp (f64_mul (rr_score result) m) (Fin 0) (Fin 1)) of
        Ok s \<Rightarrow> Some (result\<lparr> rr_score := s \<rparr>)
      | Err _ \<Rightarrow> None)"

fun map_panic :: "('a \<Rightarrow> 'b option) \<Rightarrow> 'a list \<Rightarrow> 'b list option" where
  "map_panic f [] = Some []"
| "map_panic f (x # xs) =
     (case f x of None \<Rightarrow> None | Some y \<Rightarrow> (case map_panic f xs of None \<Rightarrow> None | Some ys \<Rightarrow> Some (y # ys)))"

definition penalise :: "rstr list \<Rightarrow> url url_api \<Rightarrow> ranked_result \<Rightarrow> ranked_result option" where
  "penalise trackers api result =
     (if is_tracker_domain trackers api (dr_canonical_url (rr_result result))
      then scale_score TRACKER_PENALTY_MULTIPLIER result else Some result)"

definition apply_rules :: "unicode \<Rightarrow> url url_api \<Rightarrow> optics_document \<Rightarrow> ranked_result \<Rightarrow> ranked_result option" where
  "apply_rules uc api document result =
     (let (multiplier, matched) = multiplier_for uc api document result in
      if matched \<and> \<not> f64_eq multiplier (Fin 1) then scale_score multiplier result else Some result)"

definition apply_adjustments ::
  "unicode \<Rightarrow> url url_api \<Rightarrow> rstr list \<Rightarrow> ranked_result list \<Rightarrow> optics_document option \<Rightarrow> ranked_result list option" where
  "apply_adjustments uc api trackers ranked optics =
     (case map_panic (penalise trackers api) ranked of
        None \<Rightarrow> None
      | Some penalised \<Rightarrow>
          (case (case optics of
                   None \<Rightarrow> Some penalised
                 | Some document \<Rightarrow>
                     map_panic (apply_rules uc api document)
                       (if od_discard_non_matching document
                        then filter (\<lambda>r. snd (multiplier_for uc api document r)) penalised else penalised)) of
             None \<Rightarrow> None
           | Some adjusted \<Rightarrow> Some (mark_tie_breaks (sort_by ranked_cmp adjusted))))"

section \<open>The specification of patterns\<close>

text \<open>
  Fragments in order: the text is a prefix, the first fragment, a gap, the next fragment and so on; a
  start anchor forbids the prefix, an end anchor the rest after the last fragment.
\<close>

fun occurs :: "bool \<Rightarrow> bool \<Rightarrow> rstr list \<Rightarrow> rstr \<Rightarrow> bool" where
  "occurs s e [] h = True"
| "occurs s e [f] h \<longleftrightarrow> (\<exists>a b. h = a @ f @ b \<and> (s \<longrightarrow> a = []) \<and> (e \<longrightarrow> b = []))"
| "occurs s e (f # g # fs) h \<longleftrightarrow> (\<exists>a b. h = a @ f @ b \<and> (s \<longrightarrow> a = []) \<and> occurs False e (g # fs) b)"

lemma split_once_str_Some: "split_once_str p s = Some (a, b) \<Longrightarrow> s = a @ p @ b"
proof (induction s arbitrary: a)
  case (Cons c cs)
  then show ?case by (auto simp: starts_with_iff split: if_splits option.splits)
qed (auto split: if_splits)

lemma split_once_str_None: "split_once_str p s = None \<longleftrightarrow> \<not> contains_str s p"
  by (induction s) (auto simp: contains_str.simps split: option.splits)

lemma split_once_str_leftmost:
  "split_once_str p s = Some (a, b) \<Longrightarrow> s = a' @ p @ b' \<Longrightarrow> \<exists>z. b = z @ b'"
proof (induction s arbitrary: a a')
  case (Cons c cs)
  show ?case
  proof (cases "starts_with (c # cs) p")
    case True
    with Cons.prems(1) have b: "b = drop (length p) (c # cs)" by simp
    have "drop (length p) ((a' @ p) @ b') = drop (length p) (a' @ p) @ b'" by simp
    then have "b = drop (length p) (a' @ p) @ b'" unfolding b Cons.prems(2) by (simp only: append_assoc)
    then show ?thesis by blast
  next
    case False
    then obtain a1 where "split_once_str p cs = Some (a1, b)" using Cons.prems(1) by (auto split: option.splits)
    moreover have "a' \<noteq> []" using False Cons.prems(2) by (auto simp: starts_with_iff)
    then obtain a2 where "cs = a2 @ p @ b'" using Cons.prems(2) by (cases a') auto
    ultimately show ?thesis by (rule Cons.IH)
  qed
qed (auto split: if_splits)

lemma fragment_loop_sound:
  "fragment_loop first s e fs h \<Longrightarrow> (first \<Longrightarrow> 2 \<le> length fs) \<Longrightarrow> occurs (first \<and> s) e fs h"
proof (induction fs arbitrary: first h)
  case (Cons f fs)
  show ?case
  proof (cases "f = []")
    case True
    then have "fragment_loop False s e fs h" using Cons.prems(1) by simp
    from Cons.IH [OF this] have o1: "occurs False e fs h" by simp
    show ?thesis
    proof (cases fs)
      case Nil
      with True Cons.prems(2) show ?thesis by auto
    next
      case (Cons g gs)
      with True o1 show ?thesis by auto
    qed
  next
    case False
    with Cons.prems(1) obtain a b where sp: "split_once_str f h = Some (a, b)"
      and a: "\<not> (first \<and> s \<and> a \<noteq> [])" and b: "\<not> (fs = [] \<and> e \<and> b \<noteq> [])"
      and rest: "fragment_loop False s e fs b" by (auto split: option.splits if_splits)
    from Cons.IH [OF rest] split_once_str_Some [OF sp] a b show ?thesis
      by (cases fs) auto
  qed
qed simp

lemma occurs_prefix: "occurs s False fs h \<Longrightarrow> occurs False False fs (z @ h)"
  by (cases "(s, False, fs, h)" rule: occurs.cases) (simp_all, metis append_assoc, metis append_assoc)

lemma fragment_loop_complete: "occurs (first \<and> s) False fs h \<Longrightarrow> fragment_loop first s False fs h"
proof (induction fs arbitrary: first h)
  case (Cons f fs)
  from Cons.prems obtain a b where h: "h = a @ f @ b" and a: "first \<and> s \<longrightarrow> a = []"
    and rest: "occurs False False fs b" by (cases fs) auto
  show ?case
  proof (cases "f = []")
    case True
    with h rest have "occurs False False fs h" using occurs_prefix [of False fs b a] by simp
    with Cons.IH [of False h] True show ?thesis by simp
  next
    case False
    have "contains_str h f" using h by (auto simp: contains_str_iff)
    then obtain a1 b1 where sp: "split_once_str f h = Some (a1, b1)"
      by (metis split_once_str_None option.exhaust surj_pair)
    from split_once_str_leftmost [OF sp h] obtain z where "b1 = z @ b" by blast
    with rest have "occurs False False fs b1" using occurs_prefix by blast
    then have "fragment_loop False s False fs b1" using Cons.IH [of False b1] by simp
    moreover have "first \<and> s \<longrightarrow> a1 = []"
    proof
      assume "first \<and> s"
      with a h have "starts_with h f" by (auto simp: starts_with_iff)
      with sp show "a1 = []" using False by (cases h) auto
    qed
    ultimately show ?thesis using False sp by simp
  qed
qed simp

definition glob_matches :: "rstr \<Rightarrow> rstr \<Rightarrow> bool" where
  "glob_matches pattern h = (let (s, e, p) = strip_anchors pattern in occurs s e (split_on (\<lambda>c. c = 42) p) h)"

definition wildcard_end_anchor :: "rstr \<Rightarrow> bool" where
  "wildcard_end_anchor pattern = (let (s, e, p) = strip_anchors pattern in e \<and> 42 \<in> set p)"

lemma split_on_length: "length (split_on p s) \<le> 1 \<longleftrightarrow> (\<forall>c\<in>set s. \<not> p c)"
  "(\<forall>c\<in>set s. \<not> p c) \<Longrightarrow> split_on p s = [s]"
proof -
  show "(\<forall>c\<in>set s. \<not> p c) \<Longrightarrow> split_on p s = [s]" by (induction s) auto
  moreover have "\<exists>c\<in>set s. p c \<Longrightarrow> 2 \<le> length (split_on p s)"
  proof (induction s)
    case (Cons c s)
    have "1 \<le> length (split_on p s)" by (simp add: Suc_le_eq)
    moreover have "\<not> p c \<Longrightarrow> 2 \<le> length (split_on p s)" using Cons by auto
    ultimately show ?case by (auto split: list.split)
  qed simp
  ultimately show "length (split_on p s) \<le> 1 \<longleftrightarrow> (\<forall>c\<in>set s. \<not> p c)" by fastforce
qed

lemma match_pattern_sound: "match_pattern pattern h \<Longrightarrow> glob_matches pattern h"
proof -
  assume m: "match_pattern pattern h"
  obtain s e p where sp: "strip_anchors pattern = (s, e, p)" by (metis surj_pair)
  show ?thesis
  proof (cases "length (split_on (\<lambda>c. c = 42) p) \<le> 1")
    case True
    then have "split_on (\<lambda>c. c = 42) p = [p]" using split_on_length [where p = "\<lambda>c. c = 42" and s = p] by blast
    with m True show ?thesis
      by (cases s; cases e) (auto simp: match_pattern_def glob_matches_def sp starts_with_iff ends_with_iff contains_str_iff)
  next
    case False
    with m have "fragment_loop True s e (split_on (\<lambda>c. c = 42) p) h" by (simp add: match_pattern_def sp)
    from fragment_loop_sound [OF this] False show ?thesis by (simp add: glob_matches_def sp)
  qed
qed

text \<open>
  C32. Unless a pattern combines a wildcard with an end anchor, matching is exactly the glob
  semantics: fragments in order with arbitrary gaps, at the start or end of the text where anchored.
\<close>

theorem match_pattern_exact:
  assumes "\<not> wildcard_end_anchor pattern"
  shows "match_pattern pattern h \<longleftrightarrow> glob_matches pattern h"
proof
  assume g: "glob_matches pattern h"
  obtain s e p where sp: "strip_anchors pattern = (s, e, p)" by (metis surj_pair)
  show "match_pattern pattern h"
  proof (cases "length (split_on (\<lambda>c. c = 42) p) \<le> 1")
    case True
    then have "split_on (\<lambda>c. c = 42) p = [p]" using split_on_length [where p = "\<lambda>c. c = 42" and s = p] by blast
    with g True show ?thesis
      by (cases s; cases e) (auto simp: match_pattern_def glob_matches_def sp starts_with_iff ends_with_iff contains_str_iff)
  next
    case False
    then have e: "\<not> e" using assms split_on_length(1) [where p = "\<lambda>c. c = 42" and s = p] by (auto simp: wildcard_end_anchor_def sp)
    with g have "fragment_loop True s False (split_on (\<lambda>c. c = 42) p) h"
      by (intro fragment_loop_complete) (simp add: glob_matches_def sp)
    with False e show ?thesis by (simp add: match_pattern_def sp)
  qed
qed (rule match_pattern_sound)

theorem match_pattern_exact_witness:
  "\<not> wildcard_end_anchor (lit ''|docs.*'')
   \<and> (match_pattern (lit ''|docs.*'') (lit ''docs.rs'') \<longleftrightarrow> glob_matches (lit ''|docs.*'') (lit ''docs.rs''))"
proof -
  have "\<not> wildcard_end_anchor (lit ''|docs.*'')"
    by (simp add: wildcard_end_anchor_def strip_anchors_def ends_with_def)
  with match_pattern_exact [OF this] show ?thesis by blast
qed

text \<open>
  With both, the search for the last fragment stops at its first occurrence, so a text that ends with
  the fragment but also contains it earlier is not matched.
\<close>

lemma occurs_suffix: "occurs True True [[], f] (a @ f)"
  by auto

lemma match_pattern_end_anchor_misses:
  "glob_matches (lit ''|*.example.com|'') (lit ''a.example.com.example.com'')
   \<and> \<not> match_pattern (lit ''|*.example.com|'') (lit ''a.example.com.example.com'')"
proof
  show "\<not> match_pattern (lit ''|*.example.com|'') (lit ''a.example.com.example.com'')"
    by (simp add: match_pattern_def strip_anchors_def ends_with_def)
  have "strip_anchors (lit ''|*.example.com|'') = (True, True, lit ''*.example.com'')"
    by (simp add: strip_anchors_def ends_with_def)
  moreover have "split_on (\<lambda>c. c = 42) (lit ''*.example.com'') = [[], lit ''.example.com'']" by simp
  moreover have "occurs True True [[], lit ''.example.com''] (lit ''a.example.com.example.com'')"
    using occurs_suffix [of "lit ''.example.com''" "lit ''a.example.com''"] by (simp del: occurs.simps)
  ultimately show "glob_matches (lit ''|*.example.com|'') (lit ''a.example.com.example.com'')"
    by (simp only: glob_matches_def Let_def prod.case)
qed

section \<open>Adjusting scores\<close>

lemma map_panic_Some:
  "(\<And>x. x \<in> set xs \<Longrightarrow> \<exists>y. f x = Some y \<and> P x y) \<Longrightarrow> \<exists>ys. map_panic f xs = Some ys \<and> list_all2 P xs ys"
  by (induction xs) fastforce+

lemma f64_mul_not_NaN: "is_finite a \<Longrightarrow> is_finite b \<Longrightarrow> f64_mul a b \<noteq> NaN"
proof -
  assume a: "is_finite a" "is_finite b"
  then have "a \<noteq> NaN" "b \<noteq> NaN" by auto
  moreover have "f64_round x \<noteq> NaN" for x by (simp add: f64_round_def Let_def)
  ultimately show ?thesis using a by (simp add: f64_mul_def Let_def f64_zero_def)
qed

definition same_result :: "ranked_result \<Rightarrow> ranked_result \<Rightarrow> bool" where
  "same_result a b \<longleftrightarrow> rr_result b = rr_result a \<and> in_unit (rr_score b)"

lemma scale_score_Some:
  assumes "in_unit (rr_score r)" "is_finite m"
  shows "\<exists>y. scale_score m r = Some y \<and> same_result r y"
proof -
  let ?v = "f64_clamp (f64_mul (rr_score r) m) (Fin 0) (Fin 1)"
  have "f64_mul (rr_score r) m \<noteq> NaN" using assms by (intro f64_mul_not_NaN) (auto simp: in_unit_def)
  then have u: "in_unit ?v" by (rule f64_clamp_unit)
  then have "score_new ?v = Ok ?v" by (simp add: score_new_Ok)
  then show ?thesis using u by (simp add: scale_score_def same_result_def)
qed

lemma tracker_multiplier_finite: "is_finite TRACKER_PENALTY_MULTIPLIER"
  using f64_round_unit [of "of_int 5 / of_int 100"] by (simp add: TRACKER_PENALTY_MULTIPLIER_def f64_lit_def in_unit_def)

lemma penalise_Some: "in_unit (rr_score r) \<Longrightarrow> \<exists>y. penalise trackers api r = Some y \<and> same_result r y"
  using scale_score_Some [of r TRACKER_PENALTY_MULTIPLIER] tracker_multiplier_finite
  by (simp add: penalise_def same_result_def)

lemma field_matches_cong: "rr_result a = rr_result b \<Longrightarrow> field_matches uc api f a = field_matches uc api f b"
  by (cases f) simp_all

lemma multiplier_for_cong: "rr_result a = rr_result b \<Longrightarrow> multiplier_for uc api d a = multiplier_for uc api d b"
  using field_matches_cong [of a b uc api] by (simp add: multiplier_for_def rule_matches_def cong: list.pred_cong)

lemma apply_rules_Some:
  "in_unit (rr_score r) \<Longrightarrow> is_finite (fst (multiplier_for uc api d r)) \<Longrightarrow>
     \<exists>y. apply_rules uc api d r = Some y \<and> same_result r y"
  using scale_score_Some [of r "fst (multiplier_for uc api d r)"]
  by (simp add: apply_rules_def same_result_def split_beta Let_def)

lemma same_result_map: "list_all2 same_result xs ys \<Longrightarrow> map rr_result ys = map rr_result xs \<and> list_all (\<lambda>r. in_unit (rr_score r)) ys"
  by (induction rule: list_all2_induct) (auto simp: same_result_def)

definition kept_by :: "unicode \<Rightarrow> url url_api \<Rightarrow> optics_document option \<Rightarrow> ranked_result \<Rightarrow> bool" where
  "kept_by uc api optics r =
     (case optics of None \<Rightarrow> True
      | Some d \<Rightarrow> od_discard_non_matching d \<longrightarrow> snd (multiplier_for uc api d r))"

definition finite_multiplier :: "unicode \<Rightarrow> url url_api \<Rightarrow> optics_document option \<Rightarrow> ranked_result \<Rightarrow> bool" where
  "finite_multiplier uc api optics r =
     (case optics of None \<Rightarrow> True | Some d \<Rightarrow> is_finite (fst (multiplier_for uc api d r)))"

lemma kept_filter:
  "map rr_result xs = map rr_result ys \<Longrightarrow>
     map rr_result (filter (\<lambda>r. snd (multiplier_for uc api d r)) xs) = map rr_result (filter (\<lambda>r. snd (multiplier_for uc api d r)) ys)"
proof (induction xs arbitrary: ys)
  case (Cons x xs)
  then obtain y ys' where "ys = y # ys'" "rr_result x = rr_result y" "map rr_result xs = map rr_result ys'"
    by (cases ys) auto
  with Cons.IH [of ys'] multiplier_for_cong [of x y uc api d] show ?case by simp
qed simp

lemma apply_adjustments_Some:
  assumes "list_all (\<lambda>r. in_unit (rr_score r)) ranked" "list_all (finite_multiplier uc api optics) ranked"
  shows "\<exists>out. apply_adjustments uc api trackers ranked optics = Some out
    \<and> mset (map rr_result out) = mset (map rr_result (filter (kept_by uc api optics) ranked))
    \<and> list_all (\<lambda>r. in_unit (rr_score r)) out"
proof -
  obtain p where p: "map_panic (penalise trackers api) ranked = Some p" "list_all2 same_result ranked p"
    using map_panic_Some [of ranked "penalise trackers api" same_result] penalise_Some assms(1) by (auto simp: list_all_iff)
  from same_result_map [OF p(2)] have mp: "map rr_result p = map rr_result ranked" and up: "list_all (\<lambda>r. in_unit (rr_score r)) p" by auto
  define k where "k = filter (kept_by uc api optics) p"
  have mk: "map rr_result k = map rr_result (filter (kept_by uc api optics) ranked)"
  proof (cases optics)
    case (Some d)
    then show ?thesis using kept_filter [OF mp, of uc api d] mp by (cases "od_discard_non_matching d") (simp_all add: k_def kept_by_def [abs_def])
  qed (simp add: k_def kept_by_def [abs_def] mp)
  have uk: "in_unit (rr_score r)" if "r \<in> set k" for r using that up by (auto simp: k_def list_all_iff)
  have fin: "finite_multiplier uc api optics r" if "r \<in> set k" for r
  proof -
    have "rr_result r \<in> set (map rr_result p)" using that by (simp add: k_def)
    then have "rr_result r \<in> set (map rr_result ranked)" by (simp only: mp)
    then obtain r' where "r' \<in> set ranked" "rr_result r = rr_result r'" by auto
    with assms(2) multiplier_for_cong [of r r' uc api] show ?thesis
      by (auto simp: finite_multiplier_def list_all_iff split: option.splits)
  qed
  obtain a where a: "(case optics of None \<Rightarrow> Some p | Some document \<Rightarrow> map_panic (apply_rules uc api document)
       (if od_discard_non_matching document then filter (\<lambda>r. snd (multiplier_for uc api document r)) p else p)) = Some a"
    "list_all2 same_result k a"
  proof (cases optics)
    case None
    with that [of p] show thesis using up by (simp add: k_def kept_by_def [abs_def] list_all2_same same_result_def list_all_iff)
  next
    case (Some d)
    have "\<exists>ys. map_panic (apply_rules uc api d) k = Some ys \<and> list_all2 same_result k ys"
      by (rule map_panic_Some) (use uk fin apply_rules_Some Some in \<open>auto simp: finite_multiplier_def\<close>)
    moreover have "k = (if od_discard_non_matching d then filter (\<lambda>r. snd (multiplier_for uc api d r)) p else p)"
      by (simp add: k_def kept_by_def [abs_def] Some)
    ultimately show thesis using that Some by auto
  qed
  from same_result_map [OF a(2)] mk have ma: "map rr_result a = map rr_result (filter (kept_by uc api optics) ranked)"
    and ua: "list_all (\<lambda>r. in_unit (rr_score r)) a" by simp_all
  let ?out = "mark_tie_breaks (sort_by ranked_cmp a)"
  have "mset (map rr_result ?out) = mset (map rr_result a)"
    by (simp only: map_mark_tie_breaks [of rr_result, OF set_tie_break_simps(1)] mset_map mset_sort_by)
  moreover have "map (\<lambda>r. in_unit (rr_score r)) ?out = map (\<lambda>r. in_unit (rr_score r)) (sort_by ranked_cmp a)"
    by (rule map_mark_tie_breaks) simp
  then have "list_all (\<lambda>r. in_unit (rr_score r)) ?out"
    using ua by (metis (no_types, lifting) list_all_iff list.map_comp set_sort_by list.pred_map list.pred_mono_strong o_def id_apply list.map_id)
  moreover have "apply_adjustments uc api trackers ranked optics = Some ?out"
    by (simp add: apply_adjustments_def p(1) a(1))
  ultimately show ?thesis using ma by auto
qed


definition sample_ranked :: "score \<Rightarrow> ranked_result" where
  "sample_ranked s = \<lparr> rr_result = sample_dedup (lit ''https://a.b/''), rr_score = s, rr_title_match = Fin 0,
     rr_stable_order = 0, rr_explanation = \<lparr> re_ranking_policy = lit ''v1'', re_rrf = Fin 0,
       re_title_match = Fin 0, re_snippet_match = Fin 0, re_freshness = Fin 0, re_provider_agreement = Fin 0,
       re_combined_score = s, re_tie_break = CombinedScore \<rparr> \<rparr>"


text \<open>
  The finiteness is needed: enough \<open>Boost\<close> rules overflow the combined multiplier to infinity,
  and infinity times a zero score is a NaN, on which \<open>RankingScore::new(..).expect(..)\<close> panics.
\<close>

definition at_least :: "nat \<Rightarrow> f64 \<Rightarrow> bool" where
  "at_least i x \<longleftrightarrow> x = PosInf \<or> (\<exists>r. x = Fin r \<and> 2 ^ i \<le> r)"

lemma round_rat_pow2_le: "2 ^ k \<le> x \<Longrightarrow> 2 ^ k \<le> round_rat x"
proof -
  assume x: "2 ^ k \<le> x"
  have "expo ((2 :: rat) ^ k) \<le> int k" by (rule expo_le) (simp_all add: power_int_def nat_add_distrib)
  then have "ulp_exp ((2 :: rat) ^ k) \<le> int k" by (simp add: ulp_exp_def)
  then have "2 ^ k \<le> round_rat ((2 :: rat) ^ k)"
    using round_rat_ge_pow [of "int k" "2 ^ k"] by (simp add: power_int_def)
  with round_rat_mono [OF x] show ?thesis by linarith
qed

lemma round_at_least: "2 ^ k \<le> x \<Longrightarrow> at_least k (f64_round x)" "2 ^ 1024 \<le> x \<Longrightarrow> f64_round x = PosInf"
proof -
  show "2 ^ 1024 \<le> x \<Longrightarrow> f64_round x = PosInf" using round_rat_pow2_le [of 1024 x] by (simp add: f64_round_def Let_def)
  assume "2 ^ k \<le> x"
  from round_rat_pow2_le [OF this] have r: "2 ^ k \<le> round_rat x" .
  have "(0 :: rat) < 2 ^ k" by simp
  with r have "0 < round_rat x" by linarith
  moreover have "- (2 ^ 1024) \<le> (0 :: rat)" by simp
  ultimately have "\<not> round_rat x \<le> - (2 ^ 1024)" "round_rat x \<noteq> 0" by linarith+
  then show "at_least k (f64_round x)" using r by (auto simp: f64_round_def Let_def at_least_def)
qed

lemma at_least_mul:
  assumes "at_least i x" "at_least j y"
  shows "at_least (i + j) (f64_mul x y)" "1024 \<le> i + j \<Longrightarrow> f64_mul x y = PosInf"
proof -
  have pos: "0 < r \<and> 0 < s \<and> 2 ^ (i + j) \<le> r * s" if "2 ^ i \<le> r" "2 ^ j \<le> s" for r s :: rat
  proof -
    have p: "(0 :: rat) < 2 ^ i" "(0 :: rat) < 2 ^ j" by simp_all
    with that have rs: "0 < r" "0 < s" by linarith+
    moreover have "2 ^ i * 2 ^ j \<le> r * s" using that p rs by (intro mult_mono) simp_all
    ultimately show ?thesis by (simp add: power_add)
  qed
  have inf: "f64_mul PosInf PosInf = PosInf" "0 < r \<Longrightarrow> f64_mul PosInf (Fin r) = PosInf"
    "0 < r \<Longrightarrow> f64_mul (Fin r) PosInf = PosInf" for r
    by (simp_all add: f64_mul_def f64_inf_def)
  have fin: "f64_mul (Fin r) (Fin s) = f64_round (r * s)" if "0 < r" "0 < s" for r s
    using that by (simp add: f64_mul_def)
  have gt: "2 ^ i \<le> r \<Longrightarrow> 0 < r" for i and r :: rat by (rule less_le_trans [of _ "2 ^ i"]) simp_all
  show "at_least (i + j) (f64_mul x y)"
    using assms pos gt by (auto simp: at_least_def [of i] at_least_def [of j] inf fin intro!: round_at_least) (auto simp: at_least_def)
  assume "1024 \<le> i + j"
  then have "(2 :: rat) ^ 1024 \<le> 2 ^ (i + j)" by (rule power_increasing) simp
  then show "f64_mul x y = PosInf"
    using assms pos gt by (force simp: at_least_def inf fin intro!: round_at_least(2) intro: order_trans)
qed

lemma boost_at_least: "at_least 27 (action_multiplier (Boost (- 1)))"
proof -
  have u: "unat (- 1 :: u32) = 4294967295" by (simp add: unsigned_minus_1_eq_mask mask_eq_exp_minus_1)
  have n: "f64_of_nat 4294967295 = Fin 4294967295" using f64_of_nat_small [of 4294967295] by simp
  have "expo (1 / 10) \<le> - 4" by (rule expo_le) (simp_all add: power_int_def power3_eq_cube)
  then have q: "ulp_exp (1 / 10) \<le> - 4" by (simp add: ulp_exp_def)
  have "1 / 16 \<le> round_rat (1 / 10)"
    using round_rat_ge_pow [of "- 4" "1 / 10"] q by (simp add: power_int_def power4_eq_xxxx)
  moreover have "in_unit (f64_round (1 / 10))" by (rule f64_round_unit) simp_all
  moreover have "f64_round (1 / 10) \<noteq> NegZero" by (auto simp: f64_round_def Let_def)
  ultimately obtain t where t: "f64_lit 1 10 = Fin t" "1 / 16 \<le> t"
    using f64_val_round [of "1 / 10"] by (cases "f64_round (1 / 10)") (auto simp: f64_lit_def in_unit_def)
  have "2 ^ 27 \<le> 4294967295 * t" using t(2) by simp
  from round_at_least(1) [OF this] have "at_least 27 (f64_mul (Fin 4294967295) (Fin t))"
    using t(2) by (simp add: f64_mul_def)
  then have "at_least 27 (f64_add (Fin 1) (f64_mul (Fin 4294967295) (Fin t)))"
    unfolding at_least_def [of 27 "f64_mul (Fin 4294967295) (Fin t)"]
    by (auto intro!: round_at_least(1)) (simp add: at_least_def)
  then show ?thesis by (simp add: u n OPTICS_STEP_def t(1))
qed

definition boost_rule :: optics_rule where
  "boost_rule = \<lparr> or_matches = [Mf_Title (lit ''t'')], or_action = Boost (- 1) \<rparr>"

definition overflow_document :: optics_document where
  "overflow_document = \<lparr> od_rules = replicate 38 boost_rule, od_discard_non_matching = False \<rparr>"

lemma boost_rule_matches: "rule_matches ascii_unicode sample_api (sample_ranked s) boost_rule"
  by (simp add: rule_matches_def boost_rule_def sample_ranked_def sample_dedup_def pattern_matches_def
      ascii_unicode_def match_pattern_def strip_anchors_def ends_with_def to_ascii_lowercase_def
      ascii_lower_def is_ascii_upper_def)

lemma overflow_multiplier: "multiplier_for ascii_unicode sample_api overflow_document (sample_ranked s) = (PosInf, True)"
proof -
  let ?step = "\<lambda>(multiplier, matched) rule.
    if rule_matches ascii_unicode sample_api (sample_ranked s) rule
    then (f64_mul multiplier (action_multiplier (or_action rule)), True) else (multiplier, matched)"
  have a: "or_action boost_rule = Boost (- 1)" by (simp add: boost_rule_def)
  have grow: "at_least (27 * n) (fst (foldl ?step (Fin 1, False) (replicate n boost_rule)))" for n
  proof (induction n)
    case 0
    then show ?case by (simp add: at_least_def)
  next
    case (Suc n)
    have "replicate (Suc n) boost_rule = replicate n boost_rule @ [boost_rule]" by (metis replicate_Suc replicate_append_same)
    with at_least_mul(1) [OF Suc boost_at_least] show ?case
      by (simp add: boost_rule_matches split_beta a add.commute del: replicate_Suc)
  qed
  have "replicate 38 boost_rule = replicate 37 boost_rule @ [boost_rule]"
    by (simp add: numeral_eq_Suc replicate_append_same)
  with at_least_mul(2) [OF grow [of 37] boost_at_least] show ?thesis
    by (simp add: multiplier_for_def overflow_document_def boost_rule_matches split_beta a)
qed

lemma apply_adjustments_panics:
  "apply_adjustments ascii_unicode sample_api [] [sample_ranked (Fin 0)] (Some overflow_document) = None"
proof -
  have "scale_score PosInf (sample_ranked (Fin 0)) = None"
    by (simp add: scale_score_def sample_ranked_def f64_mul_def f64_clamp_def score_new_def)
  then have "apply_rules ascii_unicode sample_api overflow_document (sample_ranked (Fin 0)) = None"
    by (simp add: apply_rules_def overflow_multiplier f64_eq_def)
  moreover have "penalise [] sample_api (sample_ranked (Fin 0)) = Some (sample_ranked (Fin 0))"
    by (simp add: penalise_def is_tracker_domain_def split: option.split)
  ultimately show ?thesis by (simp add: apply_adjustments_def overflow_document_def)
qed

end
