(* ===== verification/Progressive.thy ===== *)
theory Progressive
  imports Diversity
begin

text \<open>
  \<open>progressive.rs\<close>: the policy of progressive search, the coverage of a result list and the
  structural gain of a round.
\<close>

record search_policy =
  sy_version :: rstr
  sy_first_round_min_providers :: nat
  sy_first_round_max_providers :: nat
  sy_minimum_useful_results :: nat
  sy_target_useful_results :: nat
  sy_minimum_unique_domains :: nat
  sy_target_unique_domains :: nat
  sy_low_diversity_domain_ratio :: f64
  sy_low_diversity_provider_ratio :: f64
  sy_low_diversity_result_type_ratio :: f64
  sy_minimum_marginal_gain :: f64
  sy_minimum_expected_marginal_gain :: f64
  sy_minimum_remaining_deadline_ms :: u64
  sy_maximum_results_per_domain :: nat
  sy_maximum_results_per_provider :: nat
  sy_maximum_results_per_result_type :: nat
  sy_minimum_exploration_ratio :: f64

definition search_policy_default :: search_policy where
  "search_policy_default = \<lparr> sy_version = lit ''v1'', sy_first_round_min_providers = 2,
     sy_first_round_max_providers = 3, sy_minimum_useful_results = 8, sy_target_useful_results = 12,
     sy_minimum_unique_domains = 4, sy_target_unique_domains = 6,
     sy_low_diversity_domain_ratio = f64_lit 50 100, sy_low_diversity_provider_ratio = f64_lit 20 100,
     sy_low_diversity_result_type_ratio = f64_lit 20 100, sy_minimum_marginal_gain = f64_lit 15 100,
     sy_minimum_expected_marginal_gain = f64_lit 15 100, sy_minimum_remaining_deadline_ms = 750,
     sy_maximum_results_per_domain = 2, sy_maximum_results_per_provider = 5,
     sy_maximum_results_per_result_type = 6, sy_minimum_exploration_ratio = f64_lit 10 100 \<rparr>"

datatype SearchPolicyError = Spe_Version | Spe_Limit | Spe_Ratio

definition search_policy_validate :: "search_policy \<Rightarrow> SearchPolicyError + unit" where
  "search_policy_validate p =
     (if sy_version p \<noteq> lit ''v1'' then Err Spe_Version
      else if sy_first_round_min_providers p = 0
        \<or> sy_first_round_max_providers p < sy_first_round_min_providers p
        \<or> sy_minimum_useful_results p = 0
        \<or> sy_target_useful_results p < sy_minimum_useful_results p
        \<or> sy_minimum_unique_domains p = 0
        \<or> sy_target_unique_domains p < sy_minimum_unique_domains p
        \<or> sy_minimum_remaining_deadline_ms p = 0
        \<or> sy_maximum_results_per_domain p = 0
        \<or> sy_maximum_results_per_provider p = 0
        \<or> sy_maximum_results_per_result_type p = 0
      then Err Spe_Limit
      else if list_ex (\<lambda>v. \<not> is_finite v \<or> \<not> (f64_le (Fin 0) v \<and> f64_le v (Fin 1)))
        [sy_low_diversity_domain_ratio p, sy_low_diversity_provider_ratio p,
         sy_low_diversity_result_type_ratio p, sy_minimum_marginal_gain p,
         sy_minimum_expected_marginal_gain p, sy_minimum_exploration_ratio p]
      then Err Spe_Ratio
      else Ok ())"

text \<open>The policy in force: the default replaces an invalid one.\<close>

definition effective_search_policy :: "search_policy \<Rightarrow> search_policy" where
  "effective_search_policy p = (if is_ok (search_policy_validate p) then p else search_policy_default)"

record coverage_metrics =
  cv_useful_results :: nat
  cv_unique_domains :: nat
  cv_unique_providers :: nat
  cv_unique_result_types :: nat
  cv_visible_results :: nat
  cv_coverage_minimum :: bool
  cv_coverage_target :: bool
  cv_low_diversity :: bool

datatype SearchStopReason =
    TimeExhausted | DeadlineNear | Stop_ProviderLimit | CoverageTargetReached | MarginalGainLow
  | ProvidersExhausted | ExplicitFilterSatisfied

fun stop_reason_as_str :: "SearchStopReason \<Rightarrow> string" where
  "stop_reason_as_str TimeExhausted = ''time_exhausted''"
| "stop_reason_as_str DeadlineNear = ''deadline_near''"
| "stop_reason_as_str Stop_ProviderLimit = ''provider_limit''"
| "stop_reason_as_str CoverageTargetReached = ''coverage_target_reached''"
| "stop_reason_as_str MarginalGainLow = ''marginal_gain_low''"
| "stop_reason_as_str ProvidersExhausted = ''providers_exhausted''"
| "stop_reason_as_str ExplicitFilterSatisfied = ''explicit_filter_satisfied''"

record round_complementarity =
  rc_found_primary :: u32
  rc_found_expansion :: u32
  rc_overlap_confirmed :: u32
  rc_unique_primary :: u32
  rc_unique_expansion :: u32
  rc_expansion_new_domains :: u32

record round_trace =
  rt_round :: u32
  rt_providers_considered :: "rstr list"
  rt_providers_selected :: "rstr list"
  rt_providers_skipped :: "rstr list"
  rt_useful_results :: nat
  rt_unique_domains :: nat
  rt_unique_providers :: nat
  rt_unique_result_types :: nat
  rt_coverage_minimum :: bool
  rt_coverage_target :: bool
  rt_low_diversity :: bool
  rt_expected_marginal_gain_by_provider :: "(rstr, f64) btree_map"
  rt_observed_marginal_gain :: "f64 option"
  rt_provider_roles :: "(rstr, rstr) btree_map"
  rt_primary_available :: "bool option"
  rt_complementarity :: "round_complementarity option"
  rt_stop_reason :: "SearchStopReason option"
  rt_debug_reasons :: "rstr list"

definition useful :: "search_result \<Rightarrow> bool" where
  "useful r \<longleftrightarrow> (sr_status r = Visible \<or> sr_status r = RelegatedByDiversity) \<and> sr_domain r \<noteq> []"

definition evaluate_coverage :: "search_result list \<Rightarrow> diversity_metrics \<Rightarrow> search_policy \<Rightarrow> coverage_metrics" where
  "evaluate_coverage results diversity policy0 =
     (let policy = effective_search_policy policy0;
          us = filter useful results;
          unique_domains = length (bs_collect (map sr_domain us));
          unique_providers = length (bs_collect (concat (map sr_providers us)));
          useful_results = length us;
          visible = dm_visible_results diversity;
          ratio = (\<lambda>n. f64_div (f64_of_nat n) (f64_of_nat visible))
      in \<lparr> cv_useful_results = useful_results, cv_unique_domains = unique_domains,
           cv_unique_providers = unique_providers,
           cv_unique_result_types = dm_unique_result_types diversity, cv_visible_results = visible,
           cv_coverage_minimum = (sy_minimum_useful_results policy \<le> useful_results
             \<and> sy_minimum_unique_domains policy \<le> unique_domains),
           cv_coverage_target = (sy_target_useful_results policy \<le> useful_results
             \<and> sy_target_unique_domains policy \<le> unique_domains),
           cv_low_diversity = (if visible < 3 then False
             else f64_lt (ratio (dm_unique_domains diversity)) (sy_low_diversity_domain_ratio policy)
               \<or> f64_lt (ratio (dm_unique_providers diversity)) (sy_low_diversity_provider_ratio policy)
               \<or> f64_lt (ratio (dm_unique_result_types diversity)) (sy_low_diversity_result_type_ratio policy)) \<rparr>)"

definition observed_marginal_gain :: "search_result list \<Rightarrow> search_result list \<Rightarrow> f64" where
  "observed_marginal_gain previous current =
     (let before = bs_collect (map sr_canonical_url previous) in
      f64_of_nat (length (filter (\<lambda>r. sr_canonical_url r \<notin> set before) current)))"

section \<open>Properties\<close>

lemma default_policy_limits:
  "sy_minimum_useful_results search_policy_default \<le> sy_target_useful_results search_policy_default"
  "sy_minimum_unique_domains search_policy_default \<le> sy_target_unique_domains search_policy_default"
  "0 < sy_minimum_remaining_deadline_ms search_policy_default"
  "0 < sy_first_round_min_providers search_policy_default"
  "sy_first_round_min_providers search_policy_default \<le> sy_first_round_max_providers search_policy_default"
  "0 < sy_minimum_useful_results search_policy_default"
  by (simp_all add: search_policy_default_def)

lemma effective_policy_limits:
  "sy_minimum_useful_results (effective_search_policy p) \<le> sy_target_useful_results (effective_search_policy p)"
  "sy_minimum_unique_domains (effective_search_policy p) \<le> sy_target_unique_domains (effective_search_policy p)"
  "0 < sy_first_round_min_providers (effective_search_policy p)"
  "sy_first_round_min_providers (effective_search_policy p) \<le> sy_first_round_max_providers (effective_search_policy p)"
  "0 < sy_minimum_useful_results (effective_search_policy p)"
  using default_policy_limits
  by (auto simp: effective_search_policy_def search_policy_validate_def simp del: lit_simps split: if_splits)

text \<open>
  Whatever policy is configured, target coverage implies minimum coverage, minimum coverage
  implies a useful result, and adding results never loses coverage: with the same metrics, a list
  that extends another has at least its useful results and domains.
\<close>

theorem coverage_monotone:
  fixes p :: search_policy and m :: diversity_metrics and rs more :: "search_result list"
  defines "c \<equiv> evaluate_coverage rs m p" and "c' \<equiv> evaluate_coverage (rs @ more) m p"
  shows "(cv_coverage_target c \<longrightarrow> cv_coverage_minimum c)
    \<and> (cv_coverage_minimum c \<longrightarrow> list_ex useful rs)
    \<and> (cv_coverage_target c \<longrightarrow> cv_coverage_target c')
    \<and> (cv_coverage_minimum c \<longrightarrow> cv_coverage_minimum c')
    \<and> cv_useful_results c \<le> cv_useful_results c'
    \<and> cv_unique_domains c \<le> cv_unique_domains c'"
proof -
  have dom: "length (bs_collect (map sr_domain (filter useful rs))) \<le> length (bs_collect (map sr_domain (filter useful (rs @ more))))"
    unfolding length_bs_collect by (rule card_mono) auto
  have "list_ex useful rs" if "sy_minimum_useful_results (effective_search_policy p) \<le> length (filter useful rs)"
  proof -
    have "filter useful rs \<noteq> []" using that effective_policy_limits(5) [of p] by auto
    then show ?thesis by (auto simp: list_ex_iff filter_empty_conv)
  qed
  with dom effective_policy_limits [of p] show ?thesis
    by (auto simp: c_def c'_def evaluate_coverage_def Let_def intro: order_trans)
qed

definition sample_policy :: search_policy where
  "sample_policy = search_policy_default\<lparr> sy_minimum_useful_results := 1, sy_target_useful_results := 1,
     sy_minimum_unique_domains := 1, sy_target_unique_domains := 1,
     sy_low_diversity_domain_ratio := Fin (1 / 2), sy_low_diversity_provider_ratio := Fin (1 / 2),
     sy_low_diversity_result_type_ratio := Fin (1 / 2), sy_minimum_marginal_gain := Fin (1 / 2),
     sy_minimum_expected_marginal_gain := Fin (1 / 2), sy_minimum_exploration_ratio := Fin (1 / 2) \<rparr>"

definition sample_search_result :: search_result where
  "sample_search_result = \<lparr> sr_schema_version = SCHEMA_VERSION, sr_rank = 1, sr_title = None,
     sr_original_url = lit ''https://a.b/'', sr_canonical_url = lit ''https://a.b/'', sr_domain = lit ''a.b'',
     sr_snippet = None, sr_providers = [lit ''p''], sr_published_at = None, sr_status = Visible \<rparr>"

lemma sample_policy_valid: "effective_search_policy sample_policy = sample_policy"
  by (simp add: effective_search_policy_def search_policy_validate_def sample_policy_def
      search_policy_default_def f64_le_def)

lemma sample_coverage: "cv_coverage_target (evaluate_coverage [sample_search_result] m sample_policy)"
  by (simp add: evaluate_coverage_def sample_policy_valid Let_def)
    (simp add: sample_policy_def search_policy_default_def sample_search_result_def useful_def bs_collect_def)

theorem coverage_monotone_witness:
  "cv_coverage_target (evaluate_coverage [sample_search_result] diversity_metrics_default sample_policy)
   \<and> cv_coverage_minimum (evaluate_coverage [sample_search_result] diversity_metrics_default sample_policy)
   \<and> cv_coverage_target (evaluate_coverage ([sample_search_result] @ [sample_search_result]) diversity_metrics_default sample_policy)"
  using coverage_monotone [of "[sample_search_result]" diversity_metrics_default sample_policy "[sample_search_result]"]
    sample_coverage [of diversity_metrics_default] by blast

end
