(* ===== verification/Float_Mean.thy ===== *)
theory Float_Mean
  imports Float64
begin

text \<open>
  Weighted means in binary64. A weight is a finite, non-negative, representable number; sums of
  weights and products with unit factors are weights again, and rounding being monotone, a weighted
  mean of numbers of the unit interval never leaves it, whatever the rounding errors.
\<close>

section \<open>Rounding is idempotent\<close>

lemma round_rat_multiple:
  assumes "y = of_int m * 2 powi q" "ulp_exp y \<le> q"
  shows "round_rat y = y"
proof (rule round_rat_exact)
  show "y = of_int (m * 2 ^ nat (q - ulp_exp y)) * 2 powi ulp_exp y"
    using assms(1) powi_2_split [OF assms(2)] by simp
qed

lemma round_rat_power:
  assumes "- 1074 \<le> k"
  shows "round_rat (2 powi k) = 2 powi k"
proof (rule round_rat_multiple)
  have "expo (2 powi k) \<le> k" by (rule expo_le) (simp_all add: powi_2_add)
  then show "ulp_exp (2 powi k) \<le> k" using assms by (simp add: ulp_exp_def)
qed simp

lemma round_rat_idem_pos:
  assumes x: "0 < x"
  shows "round_rat (round_rat x) = round_rat x"
proof -
  let ?q = "ulp_exp x" and ?y = "round_rat x"
  let ?k = "max (expo x + 1) ?q"
  have q: "- 1074 \<le> ?q" "expo x - 52 \<le> ?q" using x by (auto simp: ulp_exp_def)
  have "x \<le> 2 powi (expo x + 1)" using expo_bounds(2) [OF x] by simp
  also have "\<dots> \<le> 2 powi ?k" by (rule powi_2_mono) simp
  finally have le: "?y \<le> 2 powi ?k" using x by (intro round_rat_le_pow) auto
  have y0: "0 \<le> ?y" using x by (simp add: round_rat_nonneg)
  obtain m where m: "?y = of_int m * 2 powi ?q" using x by (auto simp: round_rat_def)
  consider "?y = 0" | "?y = 2 powi ?k" | "0 < ?y" "?y < 2 powi ?k" using y0 le by linarith
  then show ?thesis
  proof cases
    case 2
    then show ?thesis using q round_rat_power [of ?k] by simp
  next
    case 3
    have "?k \<noteq> ?q"
    proof
      assume "?k = ?q"
      with 3 m have "of_int m * (2 :: rat) powi ?q < 1 * 2 powi ?q" by simp
      then have "m < 1" by (simp only: mult_less_cancel_right) auto
      moreover have "0 < m" using 3(1) m powi_2_pos [of ?q] by (auto simp: zero_less_mult_iff)
      ultimately show False by simp
    qed
    then have "?y < 2 powi (expo x + 1)" using 3 by (simp add: max_def split: if_splits)
    then have "expo ?y \<le> expo x" using 3 by (intro expo_le) auto
    then have "ulp_exp ?y \<le> ?q" using 3 x by (simp add: ulp_exp_def)
    with m show ?thesis by (rule round_rat_multiple)
  qed simp
qed

lemma round_rat_idem [simp]: "round_rat (round_rat x) = round_rat x"
proof (cases x "0 :: rat" rule: linorder_cases)
  case less
  with round_rat_idem_pos [of "- x"] show ?thesis by simp
qed (auto simp: round_rat_idem_pos)

section \<open>Weights\<close>

text \<open>A weight of at most \<open>n\<close>.\<close>

definition weight :: "nat \<Rightarrow> f64 \<Rightarrow> bool" where
  "weight n a \<longleftrightarrow> is_finite a \<and> 0 \<le> f64_val a \<and> f64_val a \<le> of_nat n \<and> round_rat (f64_val a) = f64_val a"

lemma weight_mono: "weight n a \<Longrightarrow> n \<le> m \<Longrightarrow> weight m a"
  by (auto simp: weight_def intro: order_trans)

lemma weight_zero [simp]: "weight n (Fin 0)" "weight n NegZero"
  by (simp_all add: weight_def)

lemma finite_cases: "is_finite a \<Longrightarrow> a = NegZero \<or> (\<exists>r. a = Fin r)"
  by (cases a) auto

lemma f64_add_val:
  assumes "weight n a" "weight m b" "n + m < 2 ^ 53"
  shows "is_finite (f64_add a b)" "f64_val (f64_add a b) = round_rat (f64_val a + f64_val b)"
proof -
  have le: "f64_val a + f64_val b \<le> of_nat (n + m)" using assms by (simp add: weight_def)
  have nn: "0 \<le> f64_val a + f64_val b" using assms by (simp add: weight_def)
  have "round_rat (f64_val a + f64_val b) \<le> round_rat (of_nat (n + m))" using le by (rule round_rat_mono)
  also have "\<dots> = of_nat (n + m)" using round_rat_int [of "int (n + m)"] assms(3) by simp
  also have "of_nat (n + m) < (2 :: rat) ^ 53" using assms(3) by (metis of_nat_less_iff of_nat_numeral of_nat_power)
  also have "\<dots> \<le> 2 ^ 1024" by (rule power_increasing) simp_all
  finally have "\<bar>round_rat (f64_val a + f64_val b)\<bar> < 2 ^ 1024"
    using round_rat_nonneg [OF nn] by simp
  then have fin: "is_finite (f64_round (f64_val a + f64_val b))" by (rule f64_round_finite)
  show "is_finite (f64_add a b)"
    using assms(1,2) fin finite_cases [of a] finite_cases [of b] by (auto simp: weight_def)
  show "f64_val (f64_add a b) = round_rat (f64_val a + f64_val b)"
    using assms(1,2) fin f64_val_round [OF fin] finite_cases [of a] finite_cases [of b] by (auto simp: weight_def)
qed

lemma weight_add:
  assumes "weight n a" "weight m b" "n + m < 2 ^ 53"
  shows "weight (n + m) (f64_add a b)"
proof -
  have le: "f64_val a + f64_val b \<le> of_nat (n + m)" and nn: "0 \<le> f64_val a + f64_val b"
    using assms by (simp_all add: weight_def)
  have "round_rat (f64_val a + f64_val b) \<le> of_nat (n + m)"
    using round_rat_mono [OF le] round_rat_int [of "int (n + m)"] assms(3) by simp
  with f64_add_val [OF assms] round_rat_nonneg [OF nn] show ?thesis by (simp add: weight_def)
qed

lemma weight_mul:
  assumes w: "weight n w" "n < 2 ^ 53" and x: "in_unit x"
  shows "weight n (f64_mul w x)" "f64_val (f64_mul w x) \<le> f64_val w"
    "weight n (f64_mul x w)" "f64_val (f64_mul x w) \<le> f64_val w"
proof -
  let ?p = "f64_val w * f64_val x"
  have b: "0 \<le> ?p" "?p \<le> f64_val w" using w x by (auto simp: weight_def in_unit_def mult_left_le)
  have r: "0 \<le> round_rat ?p" "round_rat ?p \<le> f64_val w"
    using round_rat_nonneg [OF b(1)] round_rat_mono [OF b(2)] w by (simp_all add: weight_def)
  have "f64_val w < (2 :: rat) ^ 53"
    using w by (metis weight_def le_less_trans of_nat_less_iff of_nat_numeral of_nat_power)
  also have "\<dots> \<le> 2 ^ 1024" by (rule power_increasing) simp_all
  finally have fin: "is_finite (f64_round ?p)" using r by (intro f64_round_finite) simp
  note v = f64_val_round [OF fin]
  have "is_finite (f64_mul w x) \<and> f64_val (f64_mul w x) = round_rat ?p"
    "is_finite (f64_mul x w) \<and> f64_val (f64_mul x w) = round_rat ?p"
    using w x fin v by (auto simp: f64_mul_def Let_def weight_def in_unit_def f64_zero_def mult.commute)
  with r w show "weight n (f64_mul w x)" "f64_val (f64_mul w x) \<le> f64_val w"
    "weight n (f64_mul x w)" "f64_val (f64_mul x w) \<le> f64_val w"
    by (auto simp: weight_def)
qed

lemma quotient_unit:
  assumes "weight n a" "weight m b" "f64_val a \<le> f64_val b" "\<not> f64_eq b (Fin 0)"
  shows "in_unit (f64_div a b)"
proof -
  have b: "0 < f64_val b" "is_finite b" "is_finite a" "0 \<le> f64_val a"
    using assms finite_cases [of b] by (auto simp: weight_def f64_eq_def)
  have u: "in_unit (f64_round (f64_val a / f64_val b))"
    using b assms(3) by (intro f64_round_unit) (auto simp: divide_le_eq)
  show ?thesis
    using b u finite_cases [of a] finite_cases [of b]
    by (auto simp: f64_div_def Let_def f64_zero_def in_unit_def)
qed

section \<open>Sums and means\<close>

lemma weight_sum:
  "\<forall>w\<in>set ws. weight 1 w \<Longrightarrow> weight n a \<Longrightarrow> n + length ws < 2 ^ 53 \<Longrightarrow> weight (n + length ws) (foldl f64_add a ws)"
proof (induction ws arbitrary: n a)
  case (Cons w ws)
  have "weight (n + 1) (f64_add a w)" using Cons.prems by (intro weight_add) auto
  from Cons.IH [OF _ this] Cons.prems show ?case by simp
qed simp

lemma sum_below:
  assumes "list_all2 (\<lambda>p w. weight 1 p \<and> weight 1 w \<and> f64_val p \<le> f64_val w) ps ws"
    "weight n a" "weight n b" "f64_val a \<le> f64_val b" "n + length ws < 2 ^ 53"
  shows "f64_val (foldl f64_add a ps) \<le> f64_val (foldl f64_add b ws)"
  using assms
proof (induction arbitrary: n a b rule: list_all2_induct)
  case (Cons p ps w ws)
  have a: "weight (n + 1) (f64_add a p)" "weight (n + 1) (f64_add b w)"
    by (rule weight_add; use Cons.hyps(1) Cons.prems in simp)+
  have "f64_val (f64_add a p) = round_rat (f64_val a + f64_val p)"
    "f64_val (f64_add b w) = round_rat (f64_val b + f64_val w)"
    using Cons.hyps(1) Cons.prems by (auto intro!: f64_add_val(2) [of n _ 1])
  then have "f64_val (f64_add a p) \<le> f64_val (f64_add b w)"
    using Cons.hyps(1) Cons.prems(3) by (simp add: round_rat_mono)
  from Cons.IH [OF a this] Cons.prems show ?case by simp
qed simp

text \<open>The mean of unit values under weights of at most one.\<close>

lemma mean_unit:
  assumes ws: "\<forall>w\<in>set ws. weight 1 w" and len: "length xs = length ws" "length ws < 2 ^ 53"
    and xs: "\<forall>x\<in>set xs. in_unit x"
    and nz: "\<not> f64_eq (foldl f64_add (Fin 0) ws) (Fin 0)"
  shows "in_unit (f64_div (f64_sum (map2 f64_mul ws xs)) (foldl f64_add (Fin 0) ws))"
proof -
  have each: "\<And>w x. w \<in> set ws \<Longrightarrow> x \<in> set xs \<Longrightarrow> weight 1 (f64_mul w x) \<and> f64_val (f64_mul w x) \<le> f64_val w"
    using ws xs weight_mul(1,2) [of 1] by auto
  have rel: "list_all2 (\<lambda>p w. weight 1 p \<and> weight 1 w \<and> f64_val p \<le> f64_val w) (map2 f64_mul ws xs) ws"
    using len each ws by (auto simp: list_all2_conv_all_nth)
  have sum: "\<forall>p\<in>set (map2 f64_mul ws xs). weight 1 p"
    using each by (auto dest: set_zip_leftD set_zip_rightD)
  show ?thesis unfolding f64_sum_def
  proof (rule quotient_unit)
    show "weight (0 + length (map2 f64_mul ws xs)) (foldl f64_add NegZero (map2 f64_mul ws xs))"
      using sum len by (intro weight_sum) auto
    show "weight (0 + length ws) (foldl f64_add (Fin 0) ws)" using ws len by (intro weight_sum) auto
    show "f64_val (foldl f64_add NegZero (map2 f64_mul ws xs)) \<le> f64_val (foldl f64_add (Fin 0) ws)"
      using rel len by (intro sum_below [of _ _ 0]) auto
  qed (rule nz)
qed

end
