(* ===== verification/Telemetry.thy ===== *)
theory Telemetry
  imports Model BTree Float_Mean
begin

text \<open>
  \<open>telemetry.rs\<close> with the \<open>telemetry_observations\<close> table of \<open>storage.rs\<close>: provider
  observations in a sliding window, in memory and, when configured, in SQLite; the exponentially
  decayed snapshot the router reads; the blend of a category snapshot with the global one.

  Whether SQLite executes a statement is an argument \<open>io\<close> of the operations that touch the table;
  the clock is the argument \<open>now\<close>; \<open>powf\<close> of the platform is the argument \<open>powf\<close>. A poisoned
  lock is recovered by the code, so it is not part of the state. The database id of a row is its
  position in the table: rows are only appended and deleted.
\<close>

section \<open>Data\<close>

definition TELEMETRY_DEFAULT_RETENTION_DAYS :: u32 where "TELEMETRY_DEFAULT_RETENTION_DAYS = 30"

definition DECAY_HALF_LIFE_DAYS :: f64 where "DECAY_HALF_LIFE_DAYS = Fin 30"

datatype ProviderValueState = Bootstrap | Learning | Mature

datatype ProviderHealth = Healthy | Degraded | Unavailable

datatype TelemetryOutcome = To_Success | To_Partial | To_Error | To_Timeout

record telemetry_observation =
  ob_observed_at :: i64
  ob_provider :: rstr
  ob_category :: Category
  ob_outcome :: TelemetryOutcome
  ob_latency_ms :: u64
  ob_total_results :: u64
  ob_unique_results :: u64
  ob_duplicate_ratio :: f64
  ob_top_k_contribution :: f64
  ob_diversity :: f64
  ob_cost_units :: u64
  ob_request_id :: "rstr option"

record provider_telemetry_input =
  ti_provider :: rstr
  ti_category :: Category
  ti_latency_ms :: u64
  ti_total_results :: nat
  ti_unique_results :: nat
  ti_error :: "ProviderErrorKind option"
  ti_partial :: bool
  ti_estimated_cost :: "u64 option"
  ti_request_id :: "rstr option"

record provider_value_snapshot =
  pv_provider :: rstr
  pv_category :: "Category option"
  pv_state :: ProviderValueState
  pv_health :: ProviderHealth
  pv_window_days :: u32
  pv_sample :: u64
  pv_weighted_sample :: f64
  pv_success_rate :: f64
  pv_timeout_rate :: f64
  pv_average_latency_ms :: f64
  pv_average_cost_units :: f64
  pv_average_unique_results :: f64
  pv_duplicate_ratio :: f64
  pv_top_k_contribution :: f64
  pv_diversity :: f64

record telemetry_status =
  ts_in_memory_observations :: nat
  ts_persistence_enabled :: bool
  ts_persistence_failures :: u64

section \<open>Stored rows\<close>

fun category_name :: "Category \<Rightarrow> string" where
  "category_name Cat_General = ''general''"
| "category_name Cat_Technical = ''technical''"
| "category_name Cat_Code = ''code''"
| "category_name Cat_Documentation = ''documentation''"
| "category_name Cat_News = ''news''"
| "category_name Cat_Academic = ''academic''"
| "category_name Cat_Commercial = ''commercial''"
| "category_name Cat_Forum = ''forum''"
| "category_name Cat_Social = ''social''"
| "category_name Cat_Media = ''media''"
| "category_name Cat_Navigation = ''navigation''"

definition parse_category :: "rstr \<Rightarrow> Category option" where
  "parse_category v =
     (if v = lit ''general'' then Some Cat_General
      else if v = lit ''technical'' then Some Cat_Technical
      else if v = lit ''code'' then Some Cat_Code
      else if v = lit ''documentation'' then Some Cat_Documentation
      else if v = lit ''news'' then Some Cat_News
      else if v = lit ''academic'' then Some Cat_Academic
      else if v = lit ''commercial'' then Some Cat_Commercial
      else if v = lit ''forum'' then Some Cat_Forum
      else if v = lit ''social'' then Some Cat_Social
      else if v = lit ''media'' then Some Cat_Media
      else if v = lit ''navigation'' then Some Cat_Navigation
      else None)"

fun outcome_name :: "TelemetryOutcome \<Rightarrow> string" where
  "outcome_name To_Success = ''success''"
| "outcome_name To_Partial = ''partial''"
| "outcome_name To_Error = ''error''"
| "outcome_name To_Timeout = ''timeout''"

definition parse_outcome :: "rstr \<Rightarrow> TelemetryOutcome option" where
  "parse_outcome v =
     (if v = lit ''success'' then Some To_Success
      else if v = lit ''partial'' then Some To_Partial
      else if v = lit ''error'' then Some To_Error
      else if v = lit ''timeout'' then Some To_Timeout
      else None)"

record stored_observation =
  so_observed_at :: i64
  so_provider :: rstr
  so_category :: rstr
  so_outcome :: rstr
  so_latency_ms :: u64
  so_total_results :: u64
  so_unique_results :: u64
  so_duplicate_ratio :: f64
  so_top_k_contribution :: f64
  so_diversity :: f64
  so_cost_units :: u64
  so_request_id :: "rstr option"

definition stored_from :: "telemetry_observation \<Rightarrow> stored_observation" where
  "stored_from v =
     \<lparr> so_observed_at = ob_observed_at v, so_provider = ob_provider v,
       so_category = lit (category_name (ob_category v)), so_outcome = lit (outcome_name (ob_outcome v)),
       so_latency_ms = ob_latency_ms v, so_total_results = ob_total_results v,
       so_unique_results = ob_unique_results v, so_duplicate_ratio = ob_duplicate_ratio v,
       so_top_k_contribution = ob_top_k_contribution v, so_diversity = ob_diversity v,
       so_cost_units = ob_cost_units v, so_request_id = ob_request_id v \<rparr>"

definition try_from_stored :: "stored_observation \<Rightarrow> telemetry_observation option" where
  "try_from_stored v =
     (case parse_category (so_category v) of None \<Rightarrow> None
      | Some category \<Rightarrow> (case parse_outcome (so_outcome v) of None \<Rightarrow> None
        | Some outcome \<Rightarrow> Some
          \<lparr> ob_observed_at = so_observed_at v, ob_provider = so_provider v, ob_category = category,
            ob_outcome = outcome, ob_latency_ms = so_latency_ms v, ob_total_results = so_total_results v,
            ob_unique_results = so_unique_results v, ob_duplicate_ratio = so_duplicate_ratio v,
            ob_top_k_contribution = so_top_k_contribution v, ob_diversity = so_diversity v,
            ob_cost_units = so_cost_units v, ob_request_id = so_request_id v \<rparr>))"

text \<open>The row as SQLite holds it: unsigned counters become \<open>INTEGER\<close> columns.\<close>

record telemetry_row =
  tr_observation :: stored_observation
  tr_latency_ms :: int
  tr_total_results :: int
  tr_unique_results :: int
  tr_cost_units :: int

type_synonym telemetry_table = "telemetry_row list"

definition telemetry_insert ::
    "bool \<Rightarrow> stored_observation \<Rightarrow> telemetry_table \<Rightarrow> (StorageError + unit) \<times> telemetry_table" where
  "telemetry_insert io v t =
     (if io then (Ok (), t @ [\<lparr> tr_observation = v, tr_latency_ms = u64_as_i64 (so_latency_ms v),
        tr_total_results = u64_as_i64 (so_total_results v),
        tr_unique_results = u64_as_i64 (so_unique_results v),
        tr_cost_units = u64_as_i64 (so_cost_units v) \<rparr>])
      else (Err Operation, t))"

definition row_observation :: "telemetry_row \<Rightarrow> stored_observation" where
  "row_observation r =
     (tr_observation r)\<lparr> so_latency_ms := word_of_int (max 0 (tr_latency_ms r)),
       so_total_results := word_of_int (max 0 (tr_total_results r)),
       so_unique_results := word_of_int (max 0 (tr_unique_results r)),
       so_cost_units := word_of_int (max 0 (tr_cost_units r)) \<rparr>"

definition telemetry_load :: "bool \<Rightarrow> i64 \<Rightarrow> telemetry_table \<Rightarrow> StorageError + stored_observation list" where
  "telemetry_load io since t =
     (if io then Ok (map row_observation
        (sort_by (\<lambda>a b. ord_cmp (so_observed_at (tr_observation a)) (so_observed_at (tr_observation b)))
          (filter (\<lambda>r. since \<le> so_observed_at (tr_observation r)) t)))
      else Err Operation)"

definition telemetry_prune :: "bool \<Rightarrow> i64 \<Rightarrow> telemetry_table \<Rightarrow> (StorageError + u64) \<times> telemetry_table" where
  "telemetry_prune io before t =
     (if io then (Ok (of_nat (length (filter (\<lambda>r. so_observed_at (tr_observation r) < before) t))),
                  filter (\<lambda>r. \<not> so_observed_at (tr_observation r) < before) t)
      else (Err Operation, t))"

section \<open>The store\<close>

record telemetry =
  tm_observations :: "telemetry_observation list"
  tm_persistence_failures :: u64
  tm_storage :: "telemetry_table option"
  tm_window_seconds :: i64

definition telemetry_new :: telemetry where
  "telemetry_new =
     \<lparr> tm_observations = [], tm_persistence_failures = 0, tm_storage = None,
       tm_window_seconds = uint TELEMETRY_DEFAULT_RETENTION_DAYS * 86400 \<rparr>"

definition with_retention_days :: "u32 \<Rightarrow> telemetry" where
  "with_retention_days days =
     \<lparr> tm_observations = [], tm_persistence_failures = 0, tm_storage = None,
       tm_window_seconds = i64_saturating_mul (uint days) 86400 \<rparr>"

definition mark_persistence_failure :: "telemetry \<Rightarrow> telemetry" where
  "mark_persistence_failure t =
     t\<lparr> tm_persistence_failures := saturating_add (tm_persistence_failures t) 1 \<rparr>"

definition restore_best_effort :: "bool \<Rightarrow> i64 \<Rightarrow> telemetry \<Rightarrow> telemetry" where
  "restore_best_effort io now t =
     (case tm_storage t of None \<Rightarrow> t
      | Some table \<Rightarrow> (case telemetry_load io (i64_sub now (tm_window_seconds t)) table of
          Ok observations \<Rightarrow> t\<lparr> tm_observations := List.map_filter try_from_stored observations \<rparr>
        | Err _ \<Rightarrow> mark_persistence_failure t))"

definition with_optional_storage :: "bool \<Rightarrow> i64 \<Rightarrow> telemetry_table option \<Rightarrow> telemetry" where
  "with_optional_storage io now st =
     restore_best_effort io now
       \<lparr> tm_observations = [], tm_persistence_failures = 0, tm_storage = st,
         tm_window_seconds = uint TELEMETRY_DEFAULT_RETENTION_DAYS * 86400 \<rparr>"

definition with_storage_and_retention :: "bool \<Rightarrow> i64 \<Rightarrow> telemetry_table option \<Rightarrow> u32 \<Rightarrow> telemetry" where
  "with_storage_and_retention io now st days =
     restore_best_effort io now
       \<lparr> tm_observations = [], tm_persistence_failures = 0, tm_storage = st,
         tm_window_seconds = i64_saturating_mul (uint days) 86400 \<rparr>"

definition prune_memory :: "i64 \<Rightarrow> telemetry_observation list \<Rightarrow> telemetry_observation list" where
  "prune_memory cutoff observations = filter (\<lambda>o1. cutoff \<le> ob_observed_at o1) observations"

definition clamp_unit :: "f64 \<Rightarrow> f64" where
  "clamp_unit v = f64_clamp v (Fin 0) (Fin 1)"

definition clamped :: "telemetry_observation \<Rightarrow> telemetry_observation" where
  "clamped v =
     v\<lparr> ob_duplicate_ratio := clamp_unit (ob_duplicate_ratio v),
        ob_top_k_contribution := clamp_unit (ob_top_k_contribution v),
        ob_diversity := clamp_unit (ob_diversity v) \<rparr>"

definition telemetry_record :: "bool \<Rightarrow> bool \<Rightarrow> telemetry_observation \<Rightarrow> telemetry \<Rightarrow> telemetry" where
  "telemetry_record io_insert io_prune v t =
     (let observation = clamped v;
          cutoff = i64_sub (ob_observed_at observation) (tm_window_seconds t);
          t1 = t\<lparr> tm_observations := prune_memory cutoff (tm_observations t @ [observation]) \<rparr>
      in case tm_storage t1 of None \<Rightarrow> t1
         | Some table \<Rightarrow>
           let (r1, table1) = telemetry_insert io_insert (stored_from observation) table;
               t2 = t1\<lparr> tm_storage := Some table1 \<rparr>;
               t3 = (if is_ok r1 then t2 else mark_persistence_failure t2);
               (r2, table2) = telemetry_prune io_prune cutoff table1;
               t4 = t3\<lparr> tm_storage := Some table2 \<rparr>
           in if is_ok r2 then t4 else mark_persistence_failure t4)"

definition telemetry_status_of :: "telemetry \<Rightarrow> telemetry_status" where
  "telemetry_status_of t =
     \<lparr> ts_in_memory_observations = length (tm_observations t),
       ts_persistence_enabled = (tm_storage t \<noteq> None),
       ts_persistence_failures = tm_persistence_failures t \<rparr>"

definition window_days :: "telemetry \<Rightarrow> u32" where
  "window_days t = word_of_int (tm_window_seconds t div 86400)"

definition from_provider_result :: "i64 \<Rightarrow> provider_telemetry_input \<Rightarrow> telemetry_observation" where
  "from_provider_result now i =
     \<lparr> ob_observed_at = now, ob_provider = ti_provider i, ob_category = ti_category i,
       ob_outcome = (case ti_error i of
           Some kind \<Rightarrow> if kind = Pe_Timeout then To_Timeout else To_Error
         | None \<Rightarrow> if ti_partial i then To_Partial else To_Success),
       ob_latency_ms = ti_latency_ms i, ob_total_results = of_nat (ti_total_results i),
       ob_unique_results = of_nat (ti_unique_results i),
       ob_duplicate_ratio = (if ti_total_results i = 0 then Fin 0
         else f64_sub (Fin 1) (f64_div (f64_of_nat (min (ti_unique_results i) (ti_total_results i)))
                (f64_of_nat (ti_total_results i)))),
       ob_top_k_contribution = Fin 0, ob_diversity = Fin 0,
       ob_cost_units = (case ti_estimated_cost i of None \<Rightarrow> 0 | Some c \<Rightarrow> c),
       ob_request_id = ti_request_id i \<rparr>"

section \<open>Snapshots\<close>

definition health_for :: "nat \<Rightarrow> f64 \<Rightarrow> f64 \<Rightarrow> ProviderHealth" where
  "health_for sample success_rate timeout_rate =
     (if sample = 0 \<or> f64_lt success_rate (f64_lit 2 10) \<or> f64_le (f64_lit 8 10) timeout_rate
      then Unavailable
      else if f64_lt success_rate (f64_lit 8 10) \<or> f64_le (f64_lit 2 10) timeout_rate then Degraded
      else Healthy)"

definition decay_weight :: "(f64 \<Rightarrow> f64 \<Rightarrow> f64) \<Rightarrow> i64 \<Rightarrow> telemetry_observation \<Rightarrow> f64" where
  "decay_weight powf now v =
     (let age_days = f64_div (f64_of_int (max (i64_sub now (ob_observed_at v)) 0)) (Fin 86400)
      in powf (Fin 2) (f64_div (f64_uminus age_days) DECAY_HALF_LIFE_DAYS))"

definition weighted ::
    "f64 list \<Rightarrow> f64 \<Rightarrow> telemetry_observation list \<Rightarrow> (telemetry_observation \<Rightarrow> f64) \<Rightarrow> f64" where
  "weighted weights total_weight observations extract =
     (if f64_eq total_weight (Fin 0) then Fin 0
      else f64_div (f64_sum (map (\<lambda>(w, item). f64_mul w (extract item)) (zip weights observations)))
             total_weight)"

definition sample_state :: "nat \<Rightarrow> ProviderValueState" where
  "sample_state sample = (if sample \<le> 99 then Bootstrap else if sample \<le> 499 then Learning else Mature)"

definition one_if :: "bool \<Rightarrow> f64" where "one_if b = (if b then Fin 1 else Fin 0)"

definition calculate_snapshot ::
    "(f64 \<Rightarrow> f64 \<Rightarrow> f64) \<Rightarrow> rstr \<Rightarrow> Category option \<Rightarrow> telemetry_observation list \<Rightarrow> i64 \<Rightarrow> u32
     \<Rightarrow> provider_value_snapshot" where
  "calculate_snapshot powf provider category observations now days =
     (let weights = map (decay_weight powf now) observations;
          total_weight = foldl f64_add (Fin 0) weights;
          avg = weighted weights total_weight observations;
          sample = length observations;
          success_rate = avg (\<lambda>v. one_if (ob_outcome v = To_Success \<or> ob_outcome v = To_Partial));
          timeout_rate = avg (\<lambda>v. one_if (ob_outcome v = To_Timeout))
      in \<lparr> pv_provider = provider, pv_category = category, pv_state = sample_state sample,
           pv_health = health_for sample success_rate timeout_rate, pv_window_days = days,
           pv_sample = of_nat sample, pv_weighted_sample = total_weight,
           pv_success_rate = success_rate, pv_timeout_rate = timeout_rate,
           pv_average_latency_ms = avg (\<lambda>v. f64_of_nat (unat (ob_latency_ms v))),
           pv_average_cost_units = avg (\<lambda>v. f64_of_nat (unat (ob_cost_units v))),
           pv_average_unique_results = avg (\<lambda>v. f64_of_nat (unat (ob_unique_results v))),
           pv_duplicate_ratio = avg ob_duplicate_ratio,
           pv_top_k_contribution = avg ob_top_k_contribution,
           pv_diversity = avg ob_diversity \<rparr>)"

definition in_view :: "rstr \<Rightarrow> Category option \<Rightarrow> i64 \<Rightarrow> telemetry_observation \<Rightarrow> bool" where
  "in_view provider category cutoff v \<longleftrightarrow>
     ob_provider v = provider \<and> cutoff \<le> ob_observed_at v
     \<and> (case category of None \<Rightarrow> True | Some c \<Rightarrow> ob_category v = c)"

definition telemetry_snapshot ::
    "(f64 \<Rightarrow> f64 \<Rightarrow> f64) \<Rightarrow> telemetry \<Rightarrow> rstr \<Rightarrow> Category option \<Rightarrow> i64 \<Rightarrow> provider_value_snapshot" where
  "telemetry_snapshot powf t provider category now =
     (let cutoff = i64_sub now (tm_window_seconds t) in
      calculate_snapshot powf provider category
        (filter (in_view provider category cutoff) (tm_observations t)) now (window_days t))"

abbreviation snapshot_global where
  "snapshot_global powf t provider now \<equiv> telemetry_snapshot powf t provider None now"

abbreviation snapshot_by_category where
  "snapshot_by_category powf t provider category now \<equiv> telemetry_snapshot powf t provider (Some category) now"

definition blend :: "f64 \<Rightarrow> f64 \<Rightarrow> f64 \<Rightarrow> f64 \<Rightarrow> f64" where
  "blend global_weight category_weight global_value category_value =
     (let total_weight = f64_add global_weight category_weight in
      if f64_eq total_weight (Fin 0) then Fin 0
      else f64_div (f64_add (f64_mul global_value global_weight) (f64_mul category_value category_weight))
             total_weight)"

definition snapshot_for_routing ::
    "(f64 \<Rightarrow> f64 \<Rightarrow> f64) \<Rightarrow> telemetry \<Rightarrow> rstr \<Rightarrow> Category \<Rightarrow> i64 \<Rightarrow> provider_value_snapshot" where
  "snapshot_for_routing powf t provider category now =
     (let cs = snapshot_by_category powf t provider category now;
          gs = snapshot_global powf t provider now;
          mix = blend (pv_weighted_sample gs) (pv_weighted_sample cs)
      in if 100 \<le> pv_sample cs then cs
         else if pv_sample gs = 0 then cs
         else if pv_sample cs = 0 then gs\<lparr> pv_category := Some category \<rparr>
         else let success_rate = mix (pv_success_rate gs) (pv_success_rate cs);
                  timeout_rate = mix (pv_timeout_rate gs) (pv_timeout_rate cs)
              in \<lparr> pv_provider = provider, pv_category = Some category, pv_state = pv_state gs,
                   pv_health = health_for (unat (pv_sample gs)) success_rate timeout_rate,
                   pv_window_days = window_days t, pv_sample = pv_sample gs,
                   pv_weighted_sample = f64_add (pv_weighted_sample gs) (pv_weighted_sample cs),
                   pv_success_rate = success_rate, pv_timeout_rate = timeout_rate,
                   pv_average_latency_ms = mix (pv_average_latency_ms gs) (pv_average_latency_ms cs),
                   pv_average_cost_units = mix (pv_average_cost_units gs) (pv_average_cost_units cs),
                   pv_average_unique_results = mix (pv_average_unique_results gs) (pv_average_unique_results cs),
                   pv_duplicate_ratio = mix (pv_duplicate_ratio gs) (pv_duplicate_ratio cs),
                   pv_top_k_contribution = mix (pv_top_k_contribution gs) (pv_top_k_contribution cs),
                   pv_diversity = mix (pv_diversity gs) (pv_diversity cs) \<rparr>)"

definition telemetry_snapshots :: "(f64 \<Rightarrow> f64 \<Rightarrow> f64) \<Rightarrow> telemetry \<Rightarrow> i64 \<Rightarrow> provider_value_snapshot list" where
  "telemetry_snapshots powf t now =
     map (\<lambda>provider. snapshot_global powf t provider now) (bs_collect (map ob_provider (tm_observations t)))"

section \<open>Stored observations come back\<close>

lemma parse_category_name [simp]: "parse_category (lit (category_name c)) = Some c"
  by (cases c) (simp_all add: parse_category_def)

lemma parse_outcome_name [simp]: "parse_outcome (lit (outcome_name o1)) = Some o1"
  by (cases o1) (simp_all add: parse_outcome_def)

lemma try_from_stored_from [simp]: "try_from_stored (stored_from v) = Some v"
  by (simp add: try_from_stored_def stored_from_def)

text \<open>Counters below \<open>2 ^ 63\<close> survive the signed columns.\<close>

definition storable :: "telemetry_observation \<Rightarrow> bool" where
  "storable v \<longleftrightarrow> ob_latency_ms v < 2 ^ 63 \<and> ob_total_results v < 2 ^ 63 \<and> ob_unique_results v < 2 ^ 63
     \<and> ob_cost_units v < 2 ^ 63"

lemma u64_signed_column: "w < 2 ^ 63 \<Longrightarrow> word_of_int (max 0 (u64_as_i64 w)) = w" for w :: u64
proof -
  assume "w < 2 ^ 63"
  then have "uint w < 2 ^ 63" by (simp add: word_less_def)
  moreover have "- (2 ^ 63) \<le> uint w" by (rule order_trans [of _ 0]) simp_all
  ultimately have "sint w = uint w" by (simp add: sint_uint signed_take_bit_int_eq_self)
  then show ?thesis by (simp add: u64_as_i64_def)
qed

definition row_of :: "telemetry_observation \<Rightarrow> telemetry_row" where
  "row_of v = \<lparr> tr_observation = stored_from v, tr_latency_ms = u64_as_i64 (ob_latency_ms v),
     tr_total_results = u64_as_i64 (ob_total_results v),
     tr_unique_results = u64_as_i64 (ob_unique_results v), tr_cost_units = u64_as_i64 (ob_cost_units v) \<rparr>"

lemma row_of_simps [simp]:
  "so_observed_at (tr_observation (row_of v)) = ob_observed_at v"
  "telemetry_insert True (stored_from v) t = (Ok (), t @ [row_of v])"
  by (simp_all add: row_of_def stored_from_def telemetry_insert_def)

lemma row_observation_row_of: "storable v \<Longrightarrow> row_observation (row_of v) = stored_from v"
  by (simp add: row_observation_def row_of_def storable_def u64_signed_column stored_from_def)

interpretation time_order: total_comparator
  "\<lambda>a b. ord_cmp (so_observed_at (tr_observation a)) (so_observed_at (tr_observation b))"
  by (rule total_comparator_ord)

section \<open>Runs\<close>

text \<open>Events of a store with a fixed retention: observations recorded, and restarts of the process.\<close>

datatype telemetry_event = Te_Record bool bool telemetry_observation | Te_Restart bool i64

fun telemetry_step :: "u32 \<Rightarrow> telemetry \<Rightarrow> telemetry_event \<Rightarrow> telemetry" where
  "telemetry_step days t (Te_Record io_insert io_prune v) = telemetry_record io_insert io_prune v t"
| "telemetry_step days t (Te_Restart io now) = with_storage_and_retention io now (tm_storage t) days"

definition telemetry_run :: "u32 \<Rightarrow> telemetry \<Rightarrow> telemetry_event list \<Rightarrow> telemetry" where
  "telemetry_run days t es = foldl (telemetry_step days) t es"

text \<open>All ratios an observation carries are in the unit interval; in memory and in the table.\<close>

definition ratios_ok :: "telemetry_observation \<Rightarrow> bool" where
  "ratios_ok v \<longleftrightarrow> in_unit (ob_duplicate_ratio v) \<and> in_unit (ob_top_k_contribution v) \<and> in_unit (ob_diversity v)"

definition stored_ok :: "stored_observation \<Rightarrow> bool" where
  "stored_ok v \<longleftrightarrow> in_unit (so_duplicate_ratio v) \<and> in_unit (so_top_k_contribution v) \<and> in_unit (so_diversity v)"

definition telemetry_ok :: "telemetry \<Rightarrow> bool" where
  "telemetry_ok t \<longleftrightarrow> list_all ratios_ok (tm_observations t)
     \<and> (case tm_storage t of None \<Rightarrow> True | Some table \<Rightarrow> list_all (\<lambda>r. stored_ok (tr_observation r)) table)"

definition not_nan :: "telemetry_observation \<Rightarrow> bool" where
  "not_nan v \<longleftrightarrow> ob_duplicate_ratio v \<noteq> NaN \<and> ob_top_k_contribution v \<noteq> NaN \<and> ob_diversity v \<noteq> NaN"

lemma ratios_ok_clamped: "not_nan v \<Longrightarrow> ratios_ok (clamped v)"
  by (simp add: not_nan_def ratios_ok_def clamped_def clamp_unit_def f64_clamp_unit)

lemma stored_ok_from [simp]: "stored_ok (stored_from v) \<longleftrightarrow> ratios_ok v"
  by (simp add: stored_ok_def ratios_ok_def stored_from_def)

lemma mark_persistence_failure_simps [simp]:
  "tm_observations (mark_persistence_failure t) = tm_observations t"
  "tm_storage (mark_persistence_failure t) = tm_storage t"
  "tm_window_seconds (mark_persistence_failure t) = tm_window_seconds t"
  by (simp_all add: mark_persistence_failure_def)

lemma telemetry_record_simps:
  "tm_observations (telemetry_record i p v t) =
     prune_memory (i64_sub (ob_observed_at v) (tm_window_seconds t)) (tm_observations t @ [clamped v])"
  "tm_window_seconds (telemetry_record i p v t) = tm_window_seconds t"
  "tm_storage (telemetry_record i p v t) =
     map_option (\<lambda>table. snd (telemetry_prune p (i64_sub (ob_observed_at v) (tm_window_seconds t))
       (snd (telemetry_insert i (stored_from (clamped v)) table)))) (tm_storage t)"
  by (simp_all add: telemetry_record_def Let_def clamped_def split: option.split prod.split)

lemma restore_simps:
  "tm_window_seconds (restore_best_effort io now t) = tm_window_seconds t"
  "tm_storage (restore_best_effort io now t) = tm_storage t"
  by (simp_all add: restore_best_effort_def split: option.split sum.split)

lemma try_from_stored_ok: "try_from_stored r = Some v \<Longrightarrow> stored_ok r \<Longrightarrow> ratios_ok v"
  by (auto simp: try_from_stored_def stored_ok_def ratios_ok_def split: option.splits)

lemma stored_ok_row [simp]: "stored_ok (row_observation r) = stored_ok (tr_observation r)"
  by (simp add: stored_ok_def row_observation_def)

lemma telemetry_load_ok:
  "telemetry_load io since t = Ok rows \<Longrightarrow> list_all (\<lambda>r. stored_ok (tr_observation r)) t \<Longrightarrow> list_all stored_ok rows"
  by (auto simp: telemetry_load_def list_all_iff split: if_splits)

lemma map_filter_ok: "list_all stored_ok rows \<Longrightarrow> list_all ratios_ok (List.map_filter try_from_stored rows)"
  by (auto simp: list_all_iff List.map_filter_def intro: try_from_stored_ok)

lemma telemetry_step_ok:
  assumes "telemetry_ok t" "\<And>i p v. e = Te_Record i p v \<Longrightarrow> not_nan v"
  shows "telemetry_ok (telemetry_step days t e)"
proof (cases e)
  case (Te_Record i p v)
  have "list_all (\<lambda>r. stored_ok (tr_observation r)) (snd (telemetry_insert i (stored_from (clamped v)) table))"
    if "list_all (\<lambda>r. stored_ok (tr_observation r)) table" for table
    using that ratios_ok_clamped [OF assms(2) [OF Te_Record]] by (simp add: telemetry_insert_def)
  moreover have "list_all ratios_ok (tm_observations t @ [clamped v])"
    using assms(1) ratios_ok_clamped [OF assms(2) [OF Te_Record]] by (simp add: telemetry_ok_def)
  ultimately show ?thesis
    using assms(1) Te_Record
    by (auto simp: telemetry_ok_def telemetry_record_simps prune_memory_def telemetry_prune_def list_all_iff split: option.splits)
next
  case (Te_Restart io now)
  show ?thesis
    using assms(1) Te_Restart telemetry_load_ok map_filter_ok
    by (auto simp: telemetry_ok_def with_storage_and_retention_def restore_best_effort_def split: option.splits sum.splits)
qed

definition recordable :: "telemetry_event \<Rightarrow> bool" where
  "recordable e = (case e of Te_Record _ _ v \<Rightarrow> not_nan v | Te_Restart _ _ \<Rightarrow> True)"

lemma telemetry_run_ok: "telemetry_ok t \<Longrightarrow> list_all recordable es \<Longrightarrow> telemetry_ok (telemetry_run days t es)"
proof (induction es arbitrary: t)
  case (Cons e es)
  have "telemetry_ok (telemetry_step days t e)"
    using Cons.prems by (intro telemetry_step_ok) (auto simp: recordable_def)
  with Cons show ?case by (simp add: telemetry_run_def)
qed (simp add: telemetry_run_def)

section \<open>Decayed weights\<close>

text \<open>What the snapshots rely on of \<open>powf\<close>: a power of two with a non-positive exponent is in the unit interval.\<close>

definition powf_decays :: "(f64 \<Rightarrow> f64 \<Rightarrow> f64) \<Rightarrow> bool" where
  "powf_decays powf \<longleftrightarrow> (\<forall>x. x \<noteq> NaN \<and> \<not> f64_lt (Fin 0) x \<longrightarrow> weight 1 (powf (Fin 2) x))"

lemma f64_round_nonneg: "0 \<le> x \<Longrightarrow> f64_round x = PosInf \<or> (\<exists>r\<ge>0. f64_round x = Fin r)"
proof -
  assume "0 \<le> x"
  then have "0 \<le> round_rat x" by (rule round_rat_nonneg)
  moreover have "- (2 ^ 1024) < (0 :: rat)" by simp
  ultimately show ?thesis using \<open>0 \<le> x\<close> by (auto simp: f64_round_def Let_def)
qed

lemma f64_round_nonpos:
  assumes "x \<le> 0"
  shows "f64_round x \<noteq> NaN \<and> \<not> f64_lt (Fin 0) (f64_round x)"
proof -
  have "round_rat x \<le> 0" using round_rat_mono [OF assms] by simp
  moreover have "(0 :: rat) < 2 ^ 1024" by simp
  ultimately have "\<not> 2 ^ 1024 \<le> round_rat x" by linarith
  with \<open>round_rat x \<le> 0\<close> show ?thesis by (simp add: f64_round_def Let_def)
qed

lemma f64_div_nonpos:
  assumes "x = PosInf \<or> (\<exists>a\<ge>0. x = Fin a)"
  shows "f64_div (f64_uminus x) (Fin 30) \<noteq> NaN \<and> \<not> f64_lt (Fin 0) (f64_div (f64_uminus x) (Fin 30))"
proof -
  have "f64_round (- a / 30) \<noteq> NaN \<and> \<not> f64_lt (Fin 0) (f64_round (- a / 30))" if "0 \<le> a" for a
    using that by (intro f64_round_nonpos) simp
  then show ?thesis
    using assms by (auto simp: f64_div_def Let_def f64_zero_def f64_inf_def split: if_splits)
qed

lemma decay_exponent:
  assumes "0 \<le> k" "k < 2 ^ 64"
  shows "f64_div (f64_uminus (f64_div (f64_of_int k) (Fin 86400))) (Fin 30) \<noteq> NaN
    \<and> \<not> f64_lt (Fin 0) (f64_div (f64_uminus (f64_div (f64_of_int k) (Fin 86400))) (Fin 30))"
proof -
  have eq: "f64_of_int k = f64_of_nat (nat k)" using assms by (simp add: f64_of_int_def f64_of_nat_def)
  have fin: "is_finite (f64_of_int k)" "0 \<le> f64_val (f64_of_int k)"
    using f64_count_finite [of "nat k"] assms by (simp_all add: eq nat_less_iff round_rat_nonneg)
  moreover have "f64_of_int k \<noteq> NegZero"
    using assms f64_round_nonneg [of "of_int k"] by (auto simp: f64_of_int_def)
  ultimately obtain r where r: "f64_of_int k = Fin r" "0 \<le> r" by (cases "f64_of_int k") auto
  have "f64_div (Fin r) (Fin 86400) = PosInf \<or> (\<exists>a\<ge>0. f64_div (Fin r) (Fin 86400) = Fin a)"
    using r f64_round_nonneg [of "r / 86400"] by (simp add: f64_div_def Let_def f64_zero_def)
  then show ?thesis unfolding r by (rule f64_div_nonpos)
qed

lemma decay_weight_bounds: "powf_decays powf \<Longrightarrow> weight 1 (decay_weight powf now v)"
proof -
  assume p: "powf_decays powf"
  let ?k = "max (i64_sub now (ob_observed_at v)) 0"
  have "?k < 2 ^ 64"
  proof -
    have "i64_sub now (ob_observed_at v) < 2 ^ 63"
      using pos_mod_bound [of "2 ^ 64 :: int" "now - ob_observed_at v + 2 ^ 63"] by (simp add: i64_sub_def)
    then show ?thesis by simp
  qed
  with p decay_exponent [of ?k] show ?thesis
    by (simp add: powf_decays_def decay_weight_def Let_def DECAY_HALF_LIFE_DAYS_def)
qed

section \<open>Snapshots stay in the unit interval\<close>

definition rates_ok :: "provider_value_snapshot \<Rightarrow> bool" where
  "rates_ok s \<longleftrightarrow> list_all in_unit
     [pv_success_rate s, pv_timeout_rate s, pv_duplicate_ratio s, pv_top_k_contribution s, pv_diversity s]"

lemma in_unit_simps [simp]: "in_unit (Fin 0)" "in_unit (Fin 1)" "in_unit (one_if b)"
  by (simp_all add: in_unit_def one_if_def)

lemma weighted_unit:
  assumes p: "powf_decays powf" and len: "length vs < 2 ^ 53"
    and ext: "\<forall>v\<in>set vs. in_unit (extract v)"
  shows "in_unit (weighted (map (decay_weight powf now) vs)
     (foldl f64_add (Fin 0) (map (decay_weight powf now) vs)) vs extract)"
proof (cases "f64_eq (foldl f64_add (Fin 0) (map (decay_weight powf now) vs)) (Fin 0)")
  case False
  have eq: "map (\<lambda>(w, item). f64_mul w (extract item)) (zip (map (decay_weight powf now) vs) vs)
      = map2 f64_mul (map (decay_weight powf now) vs) (map extract vs)"
    by (simp add: zip_map1 zip_map2 zip_same_conv_map)
  show ?thesis
    unfolding weighted_def eq if_not_P [OF False]
    using False p len ext by (intro mean_unit) (auto simp: decay_weight_bounds simp del: One_nat_def)
qed (simp add: weighted_def)

lemma calculate_snapshot_rates:
  assumes "powf_decays powf" "length vs < 2 ^ 53" "list_all ratios_ok vs"
  shows "rates_ok (calculate_snapshot powf provider category vs now days)"
    "weight (length vs) (pv_weighted_sample (calculate_snapshot powf provider category vs now days))"
proof -
  show "rates_ok (calculate_snapshot powf provider category vs now days)"
    using assms by (auto simp: rates_ok_def calculate_snapshot_def Let_def list_all_iff ratios_ok_def intro!: weighted_unit)
  have "weight (0 + length (map (decay_weight powf now) vs)) (foldl f64_add (Fin 0) (map (decay_weight powf now) vs))"
    using assms by (intro weight_sum) (auto simp: decay_weight_bounds simp del: One_nat_def)
  then show "weight (length vs) (pv_weighted_sample (calculate_snapshot powf provider category vs now days))"
    by (simp add: calculate_snapshot_def Let_def)
qed

lemma blend_unit:
  assumes w: "weight n gw" "weight m cw" "n + m < 2 ^ 53" and v: "in_unit gv" "in_unit cv"
  shows "in_unit (blend gw cw gv cv)"
proof (cases "f64_eq (f64_add gw cw) (Fin 0)")
  case False
  have g: "weight n (f64_mul gv gw)" "f64_val (f64_mul gv gw) \<le> f64_val gw"
    and c: "weight m (f64_mul cv cw)" "f64_val (f64_mul cv cw) \<le> f64_val cw"
    using w v weight_mul(3,4) [of n gw gv] weight_mul(3,4) [of m cw cv] by auto
  have "in_unit (f64_div (f64_add (f64_mul gv gw) (f64_mul cv cw)) (f64_add gw cw))"
  proof (rule quotient_unit)
    show "f64_val (f64_add (f64_mul gv gw) (f64_mul cv cw)) \<le> f64_val (f64_add gw cw)"
      using f64_add_val(2) [OF g(1) c(1) w(3)] f64_add_val(2) [OF w] g(2) c(2)
      by (simp add: round_rat_mono)
  qed (use weight_add [OF g(1) c(1) w(3)] weight_add [OF w] False in auto)
  with False show ?thesis by (simp add: blend_def Let_def)
qed (simp add: blend_def Let_def)

lemma snapshot_for_routing_rates:
  assumes "powf_decays powf" "length (tm_observations t) < 2 ^ 52" "telemetry_ok t"
  shows "rates_ok (snapshot_for_routing powf t provider category now)"
proof -
  let ?f = "\<lambda>c. filter (in_view provider c (i64_sub now (tm_window_seconds t))) (tm_observations t)"
  have len: "length (?f c) < 2 ^ 52" for c
    using assms(2) by (meson le_less_trans length_filter_le)
  have len': "length (?f c) < 2 ^ 53" for c using len [of c] by simp
  have ok: "list_all ratios_ok (?f c)" for c using assms(3) by (auto simp: telemetry_ok_def list_all_iff)
  note snap = calculate_snapshot_rates [OF assms(1) len' ok, where days = "window_days t" and provider = provider and now = now]
  have g: "rates_ok (telemetry_snapshot powf t provider c now)"
    "weight (length (?f c)) (pv_weighted_sample (telemetry_snapshot powf t provider c now))" for c
    unfolding telemetry_snapshot_def Let_def by (rule snap)+
  have "length (?f None) + length (?f (Some category)) < 2 ^ 53" using len [of None] len [of "Some category"] by simp
  note b = blend_unit [OF g(2) g(2) this]
  have rates: "rates_ok (telemetry_snapshot powf t provider c now)" for c by (rule g(1))
  show ?thesis
    using rates [of None] rates [of "Some category"]
    by (simp add: snapshot_for_routing_def Let_def rates_ok_def b)
qed


section \<open>Restarts\<close>

text \<open>When every write succeeds the table holds the rows of the observations in memory.\<close>

lemma record_mirrors:
  assumes "tm_storage t = Some (map row_of (tm_observations t))"
  shows "tm_storage (telemetry_record True True v t) = Some (map row_of (tm_observations (telemetry_record True True v t)))"
  using assms
  by (simp add: telemetry_record_simps prune_memory_def telemetry_prune_def filter_map comp_def not_less)

definition record_all :: "telemetry_observation list \<Rightarrow> telemetry \<Rightarrow> telemetry" where
  "record_all vs t = foldl (\<lambda>t v. telemetry_record True True v t) t vs"

lemma record_all_mirrors:
  "tm_storage t = Some (map row_of (tm_observations t))
   \<Longrightarrow> tm_storage (record_all vs t) = Some (map row_of (tm_observations (record_all vs t)))"
  unfolding record_all_def by (rule foldl_invariant) (auto intro: record_mirrors)

abbreviation times :: "telemetry_observation list \<Rightarrow> int list" where
  "times \<equiv> map ob_observed_at"

lemma clamped_simps [simp]: "ob_observed_at (clamped v) = ob_observed_at v" "storable (clamped v) = storable v"
  by (simp_all add: clamped_def storable_def)

lemma record_all_sorted:
  "sorted (times (tm_observations t @ vs)) \<Longrightarrow> list_all storable (tm_observations t @ vs)
   \<Longrightarrow> sorted (times (tm_observations (record_all vs t))) \<and> list_all storable (tm_observations (record_all vs t))"
proof (induction vs arbitrary: t)
  case (Cons v vs)
  let ?t = "telemetry_record True True v t"
  have "sorted (times (tm_observations ?t @ vs))" "list_all storable (tm_observations ?t @ vs)"
    using Cons.prems
    by (auto simp: telemetry_record_simps prune_memory_def sorted_append list_all_iff sorted_filter)
  from Cons.IH [OF this] show ?case by (simp add: record_all_def)
qed (simp add: record_all_def)

lemma record_all_window: "tm_window_seconds (record_all vs t) = tm_window_seconds t"
  unfolding record_all_def
  by (rule foldl_invariant [where P = "\<lambda>u. tm_window_seconds u = tm_window_seconds t"])
    (simp_all add: telemetry_record_simps)

lemma telemetry_load_sorted:
  assumes "sorted (times vs)" "list_all storable vs"
  shows "telemetry_load True since (map row_of vs) = Ok (map stored_from (filter (\<lambda>v. since \<le> ob_observed_at v) vs))"
proof -
  have "sorted_wrt (\<lambda>a b. ob_observed_at a \<le> ob_observed_at b) (filter (\<lambda>v. since \<le> ob_observed_at v) vs)"
    using assms(1) by (simp add: sorted_map sorted_wrt_filter)
  then have "sort_by (\<lambda>a b. ord_cmp (so_observed_at (tr_observation a)) (so_observed_at (tr_observation b)))
      (map row_of (filter (\<lambda>v. since \<le> ob_observed_at v) vs)) = map row_of (filter (\<lambda>v. since \<le> ob_observed_at v) vs)"
    by (intro time_order.sort_by_idem) (simp add: sorted_wrt_map cmp_le_def ord_cmp_not_Greater)
  with assms(2) show ?thesis
    by (simp add: telemetry_load_def filter_map comp_def row_observation_row_of list_all_iff)
qed

lemma map_filter_stored [simp]: "List.map_filter try_from_stored (map stored_from vs) = vs"
  by (induction vs) (simp_all add: List.map_filter_def)

lemma retention_window: "i64_saturating_mul (uint days) 86400 = uint days * 86400" for days :: u32
proof -
  define d where "d = uint days"
  have "d < 2 ^ 32" "0 \<le> d" using uint_lt2p [of days] by (simp_all add: d_def)
  then show ?thesis unfolding d_def [symmetric]
    by (intro i64_saturating_mul_exact) (simp add: is_i64_def i64_min_def i64_max_def)
qed

lemma cutoff_exact:
  fixes days :: u32
  assumes "0 \<le> now" "now \<le> i64_max"
  shows "i64_sub now (uint days * 86400) = now - uint days * 86400"
proof -
  define d where "d = uint days"
  have "d < 2 ^ 32" "0 \<le> d" using uint_lt2p [of days] by (simp_all add: d_def)
  then show ?thesis unfolding d_def [symmetric]
    using assms by (intro i64_sub_exact) (simp add: is_i64_def i64_min_def i64_max_def)
qed

text \<open>
  C35. Telemetry survives a restart: when the writes reached SQLite, the observations came in time order
  and their counters fit the signed columns, a process restarted at \<open>now\<close> gives every snapshot at
  \<open>now\<close> or later the value the old process would have given, for every provider and category.
\<close>

theorem telemetry_survives_restart:
  fixes days :: u32 and vs :: "telemetry_observation list" and start now later :: i64
  defines "t \<equiv> record_all vs (with_storage_and_retention True start (Some []) days)"
  defines "t' \<equiv> with_storage_and_retention True now (tm_storage t) days"
  assumes "sorted (times vs)" "list_all storable vs" "0 \<le> now" "now \<le> later" "later \<le> i64_max"
  shows "telemetry_snapshot powf t' provider category later = telemetry_snapshot powf t provider category later"
proof -
  let ?t0 = "with_storage_and_retention True start (Some []) days"
  have t0: "tm_observations ?t0 = []" "tm_storage ?t0 = Some []" "tm_window_seconds ?t0 = uint days * 86400"
    by (simp_all add: with_storage_and_retention_def restore_best_effort_def telemetry_load_def
        List.map_filter_def retention_window)
  have st: "tm_storage t = Some (map row_of (tm_observations t))"
    unfolding t_def by (rule record_all_mirrors) (simp add: t0)
  have so: "sorted (times (tm_observations t))" "list_all storable (tm_observations t)"
    using record_all_sorted [of ?t0 vs] assms(3,4) by (simp_all add: t0 t_def)
  have w: "tm_window_seconds t = uint days * 86400" by (simp add: t_def record_all_window t0)
  have t': "tm_observations t' = filter (\<lambda>v. now - uint days * 86400 \<le> ob_observed_at v) (tm_observations t)"
    "tm_window_seconds t' = uint days * 86400"
    using assms(5-7) by (simp_all add: t'_def with_storage_and_retention_def restore_best_effort_def st
        telemetry_load_sorted so retention_window cutoff_exact)
  have "filter (in_view provider category (later - uint days * 86400)) (tm_observations t')
      = filter (in_view provider category (later - uint days * 86400)) (tm_observations t)"
    unfolding t' using assms(6) by (auto simp: in_view_def intro!: filter_cong)
  then show ?thesis
    using assms(5-7) by (simp add: telemetry_snapshot_def window_days_def w t'(2) cutoff_exact)
qed

section \<open>Witnesses\<close>

definition sample_observation :: telemetry_observation where
  "sample_observation = \<lparr> ob_observed_at = 100, ob_provider = lit ''p'', ob_category = Cat_Code,
     ob_outcome = To_Success, ob_latency_ms = 5, ob_total_results = 2, ob_unique_results = 2,
     ob_duplicate_ratio = Fin 0, ob_top_k_contribution = Fin 1, ob_diversity = Fin (1 / 2),
     ob_cost_units = 1, ob_request_id = None \<rparr>"

lemma sample_decays: "powf_decays (\<lambda>_ _. Fin 1)"
  by (simp add: powf_decays_def weight_def)


theorem telemetry_survives_restart_witness:
  "telemetry_snapshot (\<lambda>_ _. Fin 1)
     (with_storage_and_retention True 200 (tm_storage (record_all [sample_observation, sample_observation]
        (with_storage_and_retention True 0 (Some []) 30))) 30) (lit ''p'') (Some Cat_Code) 300 =
   telemetry_snapshot (\<lambda>_ _. Fin 1)
     (record_all [sample_observation, sample_observation] (with_storage_and_retention True 0 (Some []) 30))
     (lit ''p'') (Some Cat_Code) 300"
  by (rule telemetry_survives_restart) (simp_all add: sample_observation_def storable_def i64_max_def)

end
