(* ===== verification/Router.thy ===== *)
theory Router
  imports Planning Telemetry Progressive
begin

text \<open>
  \<open>router.rs\<close>: eligibility, the adaptive score, the order of the providers, the
  primary/expansion roles and the first round. The score only orders providers of the same role.
  \<open>powi(2)\<close> is the square.
\<close>

record provider_descriptor =
  pd_name :: rstr
  pd_capabilities :: provider_capabilities
  pd_available :: bool

datatype ProviderRole = Primary | Expansion

fun role_as_str :: "ProviderRole \<Rightarrow> string" where
  "role_as_str Primary = ''primary''"
| "role_as_str Expansion = ''expansion''"

record role_assignment =
  ra_active :: bool
  ra_primary_provider :: rstr
  ra_expansion_providers :: "rstr list"

definition legacy :: role_assignment where
  "legacy = \<lparr> ra_active = False, ra_primary_provider = [], ra_expansion_providers = [] \<rparr>"

definition primary_expansion :: "rstr \<Rightarrow> rstr list \<Rightarrow> role_assignment" where
  "primary_expansion p es = \<lparr> ra_active = True, ra_primary_provider = p, ra_expansion_providers = es \<rparr>"

definition role_of :: "role_assignment \<Rightarrow> rstr \<Rightarrow> ProviderRole option" where
  "role_of roles name =
     (if \<not> ra_active roles then None
      else if name = ra_primary_provider roles then Some Primary
      else if name \<in> set (ra_expansion_providers roles) then Some Expansion
      else None)"

record adaptive_recommendation =
  ar_ordered_providers :: "rstr list"
  ar_first_round_providers :: "rstr list"
  ar_provider_budget_requests :: "(rstr, u32) btree_map"
  ar_expected_marginal_gain_by_provider :: "(rstr, f64) btree_map"
  ar_provider_states :: "(rstr, ProviderValueState) btree_map"
  ar_excluded_providers :: "(rstr, rstr) btree_map"
  ar_fallback :: bool
  ar_provider_roles :: "(rstr, ProviderRole) btree_map"
  ar_primary_provider :: "rstr option"
  ar_expansion_providers :: "rstr list"
  ar_debug_reasons :: "rstr list"

section \<open>Eligibility and score\<close>

definition supports_required_filters :: "query \<Rightarrow> provider_capabilities \<Rightarrow> bool" where
  "supports_required_filters q c \<longleftrightarrow>
     (q_domains q = [] \<or> cap_site_filter c)
     \<and> (q_file_types q = [] \<or> cap_file_filter c)
     \<and> (q_language q = None \<or> cap_language c)
     \<and> (q_region q = None \<or> cap_region c)
     \<and> (q_date_from q = None \<and> q_date_to q = None \<or> cap_time_range c)"

definition capability_relevance :: "Category \<Rightarrow> provider_capabilities \<Rightarrow> f64" where
  "capability_relevance category c =
     one_if (case category of Cat_Code \<Rightarrow> cap_code c | Cat_Documentation \<Rightarrow> cap_docs c
       | Cat_News \<Rightarrow> cap_news c | Cat_Academic \<Rightarrow> cap_academic c | _ \<Rightarrow> False)"

definition expected_marginal_gain :: "provider_value_snapshot \<Rightarrow> f64" where
  "expected_marginal_gain s =
     (if pv_state s = Bootstrap then Fin 0
      else let useful_yield = f64_mul (pv_average_unique_results s) (f64_sub (Fin 1) (pv_duplicate_ratio s));
               bounded_yield = f64_div useful_yield (f64_add (Fin 1) useful_yield);
               quality = f64_div (f64_add (f64_add (pv_top_k_contribution s) (pv_diversity s)) (pv_success_rate s)) (Fin 3);
               in_time = f64_sub (Fin 1) (pv_timeout_rate s);
               timeout_penalty = f64_mul in_time in_time;
               latency_factor = f64_div (Fin 1) (f64_add (Fin 1) (f64_div (pv_average_latency_ms s) (Fin 3000)));
               cost_factor = f64_div (Fin 1) (f64_add (Fin 1) (pv_average_cost_units s))
           in f64_max (f64_mul (f64_mul (f64_mul (f64_mul (f64_mul bounded_yield quality) (pv_success_rate s))
                timeout_penalty) latency_factor) cost_factor) (Fin 0))"

text \<open>Index, descriptor and snapshot of every eligible provider; the excluded ones with the reason.\<close>

type_synonym eligible_row = "nat \<times> provider_descriptor \<times> provider_value_snapshot"

definition eligible :: "query \<Rightarrow> provider_descriptor \<Rightarrow> bool" where
  "eligible q p \<longleftrightarrow> pd_available p \<and> supports_required_filters q (pd_capabilities p)"

definition eligibility_step ::
    "(f64 \<Rightarrow> f64 \<Rightarrow> f64) \<Rightarrow> query \<Rightarrow> classification \<Rightarrow> telemetry \<Rightarrow> i64
     \<Rightarrow> (rstr, rstr) btree_map \<times> eligible_row list \<Rightarrow> nat \<times> provider_descriptor
     \<Rightarrow> (rstr, rstr) btree_map \<times> eligible_row list" where
  "eligibility_step powf q c tel now acc ip =
     (case acc of (excluded, rows) \<Rightarrow> case ip of (index, p) \<Rightarrow>
        if \<not> pd_available p then (bt_insert (pd_name p) (lit ''provider_unavailable'') excluded, rows)
        else if \<not> supports_required_filters q (pd_capabilities p)
        then (bt_insert (pd_name p) (lit ''required_capability_missing'') excluded, rows)
        else (excluded, rows @ [(index, p,
               snapshot_for_routing powf tel (pd_name p) (cl_primary_category c) now)]))"

record scored_row =
  sc_index :: nat
  sc_name :: rstr
  sc_snapshot :: provider_value_snapshot
  sc_expected_gain :: f64
  sc_exploration_due :: bool
  sc_score :: f64

fun adaptive_weight :: "ProviderValueState \<Rightarrow> f64" where
  "adaptive_weight Bootstrap = Fin 0"
| "adaptive_weight Learning = Fin (1 / 4)"
| "adaptive_weight Mature = Fin (3 / 4)"

fun health_penalty :: "ProviderHealth \<Rightarrow> f64" where
  "health_penalty Degraded = Fin (1 / 2)"
| "health_penalty Unavailable = Fin (3 / 2)"
| "health_penalty Healthy = Fin 0"

definition score_provider ::
    "classification \<Rightarrow> search_policy \<Rightarrow> nat \<Rightarrow> u64 \<Rightarrow> eligible_row \<Rightarrow> scored_row" where
  "score_provider c pol n total_samples row =
     (case row of (index, p, s) \<Rightarrow>
       let expected_gain = expected_marginal_gain s;
           exploration_due = (0 < total_samples \<and> (pv_sample s = 0
             \<or> f64_lt (f64_div (f64_of_nat (unat (pv_sample s))) (f64_of_nat (unat total_samples)))
                  (sy_minimum_exploration_ratio pol)));
           base = f64_add (f64_mul (f64_of_nat (n - index)) (f64_lit 1 100))
                    (capability_relevance (cl_primary_category c) (pd_capabilities p));
           exploration_boost = (if exploration_due then Fin 2 else Fin 0);
           cost_penalty = f64_mul (f64_of_nat (unat (case cap_estimated_cost (pd_capabilities p) of
               None \<Rightarrow> 0 | Some u \<Rightarrow> u))) (f64_lit 5 100);
           score = f64_sub (f64_sub (f64_add (f64_add base (f64_mul expected_gain (adaptive_weight (pv_state s))))
                     exploration_boost) (health_penalty (pv_health s))) cost_penalty
       in \<lparr> sc_index = index, sc_name = pd_name p, sc_snapshot = s, sc_expected_gain = expected_gain,
            sc_exploration_due = exploration_due, sc_score = score \<rparr>)"

definition scored_cmp :: "scored_row \<Rightarrow> scored_row \<Rightarrow> ordering" where
  "scored_cmp l r =
     then_with (total_cmp (sc_score r) (sc_score l))
       (then_with (ord_cmp (sc_index l) (sc_index r)) (ord_cmp (sc_name l) (sc_name r)))"

section \<open>Roles\<close>

text \<open>The partition of the score order into primary, expansion and unassigned providers.\<close>

record partition_state =
  ps_primary :: "rstr list"
  ps_expansion :: "rstr list"
  ps_unroled :: "rstr list"
  ps_role_map :: "(rstr, ProviderRole) btree_map"

definition partition_step :: "role_assignment \<Rightarrow> partition_state \<Rightarrow> rstr \<Rightarrow> partition_state" where
  "partition_step roles s name =
     (case role_of roles name of
       Some Primary \<Rightarrow> s\<lparr> ps_role_map := bt_insert name Primary (ps_role_map s), ps_primary := ps_primary s @ [name] \<rparr>
     | Some Expansion \<Rightarrow> s\<lparr> ps_role_map := bt_insert name Expansion (ps_role_map s), ps_expansion := ps_expansion s @ [name] \<rparr>
     | None \<Rightarrow> s\<lparr> ps_unroled := ps_unroled s @ [name] \<rparr>)"

definition partition_roles :: "role_assignment \<Rightarrow> rstr list \<Rightarrow> partition_state" where
  "partition_roles roles names =
     foldl (partition_step roles)
       \<lparr> ps_primary = [], ps_expansion = [], ps_unroled = [], ps_role_map = bt_empty \<rparr> names"

definition order_by_role ::
    "role_assignment \<Rightarrow> rstr list \<Rightarrow> rstr list \<times> (rstr, ProviderRole) btree_map \<times> rstr option \<times> rstr list" where
  "order_by_role roles score_ordered =
     (if ra_active roles then
        let s = partition_roles roles score_ordered
        in (ps_primary s @ ps_expansion s @ ps_unroled s, ps_role_map s,
            (case ps_primary s of [] \<Rightarrow> None | p # _ \<Rightarrow> Some p), ps_expansion s)
      else (score_ordered, bt_empty, None, []))"

definition first_round :: "role_assignment \<Rightarrow> search_policy \<Rightarrow> rstr list \<Rightarrow> rstr option \<Rightarrow> rstr list" where
  "first_round roles pol ordered primary =
     (if ra_active roles then (case primary of Some p \<Rightarrow> [p] | None \<Rightarrow> take 1 ordered)
      else take (min (min (length ordered) (sy_first_round_min_providers pol)) (sy_first_round_max_providers pol)) ordered)"

definition recommend_reasons ::
    "role_assignment \<Rightarrow> bool \<Rightarrow> rstr option \<Rightarrow> rstr list \<Rightarrow> scored_row list \<Rightarrow> rstr list" where
  "recommend_reasons roles fallback primary expansion scored =
     [if fallback then lit ''bootstrap_static_routing'' else lit ''provider_value_adaptive_routing'']
     @ (if ra_active roles then
          (case primary of Some p \<Rightarrow> [lit ''primary_provider:'' @ p] | None \<Rightarrow> [lit ''primary_provider_unavailable''])
          @ (if expansion \<noteq> [] then [lit ''expansion_providers:'' @ join_with (lit '','') expansion] else [])
        else [])
     @ map (\<lambda>r. lit ''minimum_exploration:'' @ sc_name r) (filter sc_exploration_due scored)"

text \<open>The excluded providers, whether nothing is known yet, and the scored providers, best first.\<close>

definition rank_providers ::
    "(f64 \<Rightarrow> f64 \<Rightarrow> f64) \<Rightarrow> query \<Rightarrow> classification \<Rightarrow> provider_descriptor list \<Rightarrow> telemetry \<Rightarrow> search_policy
     \<Rightarrow> i64 \<Rightarrow> (rstr, rstr) btree_map \<times> bool \<times> scored_row list" where
  "rank_providers powf q c providers tel pol now =
     (let (excluded, rows) = foldl (eligibility_step powf q c tel now) (bt_empty, []) (enumerate 0 providers);
          total_samples = sum_list (map (\<lambda>(_, _, s). pv_sample s) rows);
          fallback = list_all (\<lambda>(_, _, s). pv_state s = Bootstrap) rows
      in (excluded, fallback,
          sort_by scored_cmp (map (score_provider c pol (length providers) total_samples) rows)))"

definition recommend_with_roles ::
    "(f64 \<Rightarrow> f64 \<Rightarrow> f64) \<Rightarrow> query \<Rightarrow> classification \<Rightarrow> provider_descriptor list \<Rightarrow> telemetry \<Rightarrow> search_policy
     \<Rightarrow> role_assignment \<Rightarrow> i64 \<Rightarrow> adaptive_recommendation" where
  "recommend_with_roles powf q c providers tel pol0 roles now =
     (let pol = effective_search_policy pol0;
          (excluded, fallback, scored) = rank_providers powf q c providers tel pol now;
          (ordered, role_map, primary, expansion) = order_by_role roles (map sc_name scored)
      in \<lparr> ar_ordered_providers = ordered,
           ar_first_round_providers = first_round roles pol ordered primary,
           ar_provider_budget_requests = bt_collect (map (\<lambda>p. (p, 1)) ordered),
           ar_expected_marginal_gain_by_provider = bt_collect (map (\<lambda>r. (sc_name r, sc_expected_gain r)) scored),
           ar_provider_states = bt_collect (map (\<lambda>r. (sc_name r, pv_state (sc_snapshot r))) scored),
           ar_excluded_providers = excluded,
           ar_fallback = fallback,
           ar_provider_roles = role_map,
           ar_primary_provider = primary,
           ar_expansion_providers = expansion,
           ar_debug_reasons = recommend_reasons roles fallback primary expansion scored \<rparr>)"

definition recommend ::
    "(f64 \<Rightarrow> f64 \<Rightarrow> f64) \<Rightarrow> query \<Rightarrow> classification \<Rightarrow> provider_descriptor list \<Rightarrow> telemetry \<Rightarrow> search_policy
     \<Rightarrow> i64 \<Rightarrow> adaptive_recommendation" where
  "recommend powf q c providers tel pol now = recommend_with_roles powf q c providers tel pol legacy now"

text \<open>The router without telemetry.\<close>

definition static_recommend :: "query \<Rightarrow> classification \<Rightarrow> provider_descriptor list \<Rightarrow> routing_recommendation" where
  "static_recommend q c providers =
     (let selected = map pd_name (take 3 (filter (\<lambda>p.
            (q_domains q = [] \<or> cap_site_filter (pd_capabilities p))
            \<and> (q_file_types q = [] \<or> cap_file_filter (pd_capabilities p))
            \<and> (q_language q = None \<or> cap_language (pd_capabilities p))
            \<and> (q_region q = None \<or> cap_region (pd_capabilities p))) (filter pd_available providers)))
      in \<lparr> rec_selected_providers = selected,
           rec_provider_budget_requests = bt_collect (map (\<lambda>name. (name, 1)) selected),
           rec_debug_reasons = [lit ''bootstrap_static_routing''] \<rparr>)"

section \<open>The order of the providers\<close>

lemma eligibility_fold:
  "foldl (eligibility_step powf q c tel now) (ex, rows) ips =
     (fold (\<lambda>(k, v). bt_insert k v) (map (\<lambda>(i, p). (pd_name p, if pd_available p
          then lit ''required_capability_missing'' else lit ''provider_unavailable''))
        (filter (\<lambda>(i, p). \<not> eligible q p) ips)) ex,
      rows @ map (\<lambda>(i, p). (i, p, snapshot_for_routing powf tel (pd_name p) (cl_primary_category c) now))
        (filter (\<lambda>(i, p). eligible q p) ips))"
proof (induction ips arbitrary: ex rows)
  case (Cons ip ips)
  obtain i p where ip: "ip = (i, p)" by fastforce
  show ?case using Cons.IH
    by (simp add: ip eligibility_step_def eligible_def del: lit_simps)
qed simp

lemma map_snd_filter_enumerate:
  "map (f \<circ> snd) (filter (\<lambda>(i, p). P p) (enumerate n xs)) = map f (filter P xs)"
  by (induction xs arbitrary: n) (auto simp: enumerate_simps)

lemma snd_set_enumerate: "(\<lambda>(i, p). f p) ` set (filter (\<lambda>(i, p). P p) (enumerate n xs)) = f ` set (filter P xs)"
  by (induction xs arbitrary: n) (auto simp: enumerate_simps)

lemma score_provider_name [simp]: "sc_name (score_provider c pol n ts (i, p, s)) = pd_name p"
  by (simp add: score_provider_def Let_def)

interpretation scored_order: total_comparator scored_cmp
  unfolding scored_cmp_def [abs_def] total_cmp_def
  by (intro total_comparator_then total_comparator_ord total_comparator_reverse [OF total_comparator_ord])

lemma partition_roles_fold:
  "foldl (partition_step roles) s names =
     \<lparr> ps_primary = ps_primary s @ filter (\<lambda>n. role_of roles n = Some Primary) names,
       ps_expansion = ps_expansion s @ filter (\<lambda>n. role_of roles n = Some Expansion) names,
       ps_unroled = ps_unroled s @ filter (\<lambda>n. role_of roles n = None) names,
       ps_role_map = ps_role_map (foldl (partition_step roles) s names) \<rparr>"
proof (induction names arbitrary: s)
  case (Cons n names)
  show ?case
    using Cons.IH [of "partition_step roles s n"]
    by (cases "role_of roles n" rule: option.exhaust; cases "the (role_of roles n)")
      (auto simp: partition_step_def)
qed simp

lemma partition_roles_simps:
  "ps_primary (partition_roles roles names) = filter (\<lambda>n. role_of roles n = Some Primary) names"
  "ps_expansion (partition_roles roles names) = filter (\<lambda>n. role_of roles n = Some Expansion) names"
  "ps_unroled (partition_roles roles names) = filter (\<lambda>n. role_of roles n = None) names"
  unfolding partition_roles_def by (subst partition_roles_fold, simp)+

lemma role_of_Primary: "role_of roles n = Some Primary \<longleftrightarrow> ra_active roles \<and> n = ra_primary_provider roles"
  by (simp add: role_of_def)

definition tier :: "role_assignment \<Rightarrow> rstr \<Rightarrow> nat" where
  "tier roles n = (case role_of roles n of Some Primary \<Rightarrow> 0 | Some Expansion \<Rightarrow> 1 | None \<Rightarrow> 2)"

lemma sorted_tier: "\<forall>n\<in>set ns. tier roles n = k \<Longrightarrow> sorted_wrt (\<lambda>a b. tier roles a \<le> tier roles b) ns"
  by (induction ns) auto

lemma order_by_role_facts:
  assumes "order_by_role roles names = (ordered, role_map, primary, expansion)"
  shows "mset ordered = mset names"
    and "sorted_wrt (\<lambda>a b. tier roles a \<le> tier roles b) ordered"
    and "filter (\<lambda>n. role_of roles n = r) ordered = filter (\<lambda>n. role_of roles n = r) names"
    and "primary = (if ra_active roles \<and> ra_primary_provider roles \<in> set names then Some (ra_primary_provider roles) else None)"
proof -
  let ?f = "\<lambda>r. filter (\<lambda>n. role_of roles n = r) names"
  have three: "role_of roles n = Some Primary \<or> role_of roles n = Some Expansion \<or> role_of roles n = None" for n
    by (cases "role_of roles n" rule: option.exhaust; cases "the (role_of roles n)") auto
  have inactive: "\<not> ra_active roles \<Longrightarrow> role_of roles n = None" for n by (simp add: role_of_def)
  have ord: "ordered = (if ra_active roles then ?f (Some Primary) @ ?f (Some Expansion) @ ?f None else names)"
    using assms by (auto simp: order_by_role_def Let_def partition_roles_simps split: if_splits)
  have "mset (?f (Some Primary) @ ?f (Some Expansion) @ ?f None) = mset names"
  proof (induction names)
    case (Cons n names)
    with three [of n] show ?case by auto
  qed simp
  then show "mset ordered = mset names" unfolding ord by presburger
  show "sorted_wrt (\<lambda>a b. tier roles a \<le> tier roles b) ordered"
  proof -
    have same: "sorted_wrt (\<lambda>a b. tier roles a \<le> tier roles b) (?f r)" for r
      by (rule sorted_tier [where k = "case r of Some Primary \<Rightarrow> 0 | Some Expansion \<Rightarrow> 1 | None \<Rightarrow> 2"]) (auto simp: tier_def)
    moreover have "sorted_wrt (\<lambda>a b. tier roles a \<le> tier roles b) names" if "\<not> ra_active roles"
      by (rule sorted_tier [where k = 2]) (simp add: inactive that tier_def)
    ultimately show ?thesis unfolding ord by (auto simp: sorted_wrt_append) (auto simp: tier_def)
  qed
  show "filter (\<lambda>n. role_of roles n = r) ordered = filter (\<lambda>n. role_of roles n = r) names"
    unfolding ord by (cases r rule: option.exhaust; cases "the r") (auto simp: filter_empty_conv intro!: filter_cong)
  show "primary = (if ra_active roles \<and> ra_primary_provider roles \<in> set names then Some (ra_primary_provider roles) else None)"
    using assms
    by (auto simp: order_by_role_def Let_def partition_roles_simps role_of_Primary filter_empty_conv
        dest!: filter_eq_ConsD split: if_splits list.splits)
qed

lemma rank_providers_facts:
  assumes "rank_providers powf q c providers tel pol now = (ex, fb, scored)"
  shows "mset (map sc_name scored) = mset (map pd_name (filter (eligible q) providers))"
    and "set (bt_keys ex) = pd_name ` set (filter (\<lambda>p. \<not> eligible q p) providers)"
proof -
  have "ex = bt_collect (map (\<lambda>(i, p). (pd_name p, if pd_available p
          then lit ''required_capability_missing'' else lit ''provider_unavailable''))
        (filter (\<lambda>(i, p). \<not> eligible q p) (enumerate 0 providers)))"
    using assms by (simp add: rank_providers_def Let_def eligibility_fold bt_collect_def del: lit_simps)
  then have "set (bt_keys ex) = fst ` set (map (\<lambda>(i, p). (pd_name p, if pd_available p
          then lit ''required_capability_missing'' else lit ''provider_unavailable''))
        (filter (\<lambda>(i, p). \<not> eligible q p) (enumerate 0 providers)))"
    by (simp only: bt_keys_collect)
  also have "\<dots> = (\<lambda>(i, p). pd_name p) ` set (filter (\<lambda>(i, p). \<not> eligible q p) (enumerate 0 providers))"
    by (force simp: image_iff)
  finally show "set (bt_keys ex) = pd_name ` set (filter (\<lambda>p. \<not> eligible q p) providers)"
    by (simp only: snd_set_enumerate)
  let ?row = "\<lambda>(i, p). (i, p, snapshot_for_routing powf tel (pd_name p) (cl_primary_category c) now)"
  obtain ts where "scored = sort_by scored_cmp (map (score_provider c pol (length providers) ts)
      (map ?row (filter (\<lambda>(i, p). eligible q p) (enumerate 0 providers))))"
    using assms unfolding rank_providers_def Let_def eligibility_fold prod.case append_Nil by blast
  then have "mset (map sc_name scored) = mset (map (pd_name \<circ> snd) (filter (\<lambda>(i, p). eligible q p) (enumerate 0 providers)))"
    by (simp add: image_mset.compositionality comp_def case_prod_beta)
  then show "mset (map sc_name scored) = mset (map pd_name (filter (eligible q) providers))"
    by (simp only: map_snd_filter_enumerate)
qed

lemma first_round_empty:
  assumes "primary = (if ra_active roles \<and> ra_primary_provider roles \<in> set names then Some (ra_primary_provider roles) else None)"
    and "mset ordered = mset names" "0 < sy_first_round_min_providers pol" "0 < sy_first_round_max_providers pol"
  shows "first_round roles pol ordered primary = [] \<longleftrightarrow> names = []"
proof -
  have "ordered = [] \<longleftrightarrow> names = []" using assms(2) by (metis mset_zero_iff)
  with assms show ?thesis by (auto simp: first_round_def min_def split: option.split)
qed


end
