(* ===== verification/Complementarity.thy ===== *)
theory Complementarity
  imports Router Ranking
begin

text \<open>
  \<open>complementarity.rs\<close>: what the primary and the expansion providers contributed, read off the
  provenance of the deduplicated results. Counters are \<open>u32\<close> and wrap as in a release build.
\<close>

definition has_role :: "role_assignment \<Rightarrow> deduplicated_result \<Rightarrow> ProviderRole \<Rightarrow> bool" where
  "has_role roles r want \<longleftrightarrow> list_ex (\<lambda>name. role_of roles name = Some want) (dr_providers r)"

definition host_of :: "url url_api \<Rightarrow> deduplicated_result \<Rightarrow> rstr option" where
  "host_of api r = map_option to_ascii_lowercase (url_host_str api (dr_canonical_url r))"

record role_counts =
  rn_found_primary :: u32
  rn_found_expansion :: u32
  rn_overlap_confirmed :: u32
  rn_unique_primary :: u32
  rn_unique_expansion :: u32
  rn_primary_hosts :: "rstr btree_set"
  rn_expansion_hosts :: "rstr btree_set"
  rn_all_hosts :: "rstr btree_set"

definition role_counts_zero :: role_counts where
  "role_counts_zero = \<lparr> rn_found_primary = 0, rn_found_expansion = 0, rn_overlap_confirmed = 0,
     rn_unique_primary = 0, rn_unique_expansion = 0, rn_primary_hosts = [], rn_expansion_hosts = [],
     rn_all_hosts = [] \<rparr>"

definition add_host :: "rstr option \<Rightarrow> rstr btree_set \<Rightarrow> rstr btree_set" where
  "add_host host s = (case host of None \<Rightarrow> s | Some h \<Rightarrow> bs_insert h s)"

definition count_step :: "url url_api \<Rightarrow> role_assignment \<Rightarrow> role_counts \<Rightarrow> deduplicated_result \<Rightarrow> role_counts" where
  "count_step api roles n r =
     (let in_primary = has_role roles r Primary;
          in_expansion = has_role roles r Expansion;
          host = host_of api r;
          n1 = n\<lparr> rn_all_hosts := add_host host (rn_all_hosts n) \<rparr>;
          n2 = (if in_primary then n1\<lparr> rn_found_primary := rn_found_primary n1 + 1,
                   rn_primary_hosts := add_host host (rn_primary_hosts n1) \<rparr> else n1);
          n3 = (if in_expansion then n2\<lparr> rn_found_expansion := rn_found_expansion n2 + 1,
                   rn_expansion_hosts := add_host host (rn_expansion_hosts n2) \<rparr> else n2)
      in case (in_primary, in_expansion) of
           (True, True) \<Rightarrow> n3\<lparr> rn_overlap_confirmed := rn_overlap_confirmed n3 + 1 \<rparr>
         | (True, False) \<Rightarrow> n3\<lparr> rn_unique_primary := rn_unique_primary n3 + 1 \<rparr>
         | (False, True) \<Rightarrow> n3\<lparr> rn_unique_expansion := rn_unique_expansion n3 + 1 \<rparr>
         | (False, False) \<Rightarrow> n3)"

definition difference_count :: "rstr btree_set \<Rightarrow> rstr btree_set \<Rightarrow> u32" where
  "difference_count a b = of_nat (length (filter (\<lambda>x. x \<notin> set b) a))"

definition overlap_possible :: "role_assignment \<Rightarrow> deduplicated_result list \<Rightarrow> u32" where
  "overlap_possible roles deduped =
     (let expansion_only_urls = bs_collect (map dr_canonical_url
            (filter (\<lambda>r. \<not> has_role roles r Primary \<and> has_role roles r Expansion) deduped))
      in of_nat (length (filter (\<lambda>r. list_ex (\<lambda>u. u \<in> set expansion_only_urls) (dr_possible_duplicate_with r))
           (filter (\<lambda>r. has_role roles r Primary \<and> \<not> has_role roles r Expansion) deduped))))"

definition compute_complementarity_metrics ::
    "url url_api \<Rightarrow> deduplicated_result list \<Rightarrow> role_assignment \<Rightarrow> complementarity_metrics option" where
  "compute_complementarity_metrics api deduped roles =
     (if \<not> ra_active roles then None
      else let n = foldl (count_step api roles) role_counts_zero deduped;
               expansion_ran = (list_ex (\<lambda>name. list_ex (\<lambda>r. name \<in> set (dr_providers r)) deduped)
                   (ra_expansion_providers roles) \<or> 0 < rn_found_expansion n);
               denominator = f64_of_nat (unat (max (rn_found_expansion n) 1));
               ratio = (\<lambda>k :: u32. if expansion_ran then Some (f64_div (f64_of_nat (unat k)) denominator) else None)
           in Some \<lparr> cm_schema_version = SCHEMA_VERSION,
                cm_found_primary = rn_found_primary n, cm_found_expansion = rn_found_expansion n,
                cm_overlap_confirmed = rn_overlap_confirmed n,
                cm_overlap_possible = overlap_possible roles deduped,
                cm_unique_primary = rn_unique_primary n, cm_unique_expansion = rn_unique_expansion n,
                cm_primary_unique_domains = difference_count (rn_primary_hosts n) (rn_expansion_hosts n),
                cm_expansion_unique_domains = difference_count (rn_expansion_hosts n) (rn_primary_hosts n),
                cm_final_unique_domains = of_nat (length (rn_all_hosts n)),
                cm_expansion_new_domains = difference_count (rn_expansion_hosts n) (rn_primary_hosts n),
                cm_expansion_overlap_ratio = ratio (rn_overlap_confirmed n),
                cm_expansion_unique_ratio = ratio (rn_unique_expansion n),
                cm_relevance = relevance_metrics_default \<rparr>)"

section \<open>What the counters count\<close>

definition hosts_where :: "url url_api \<Rightarrow> (deduplicated_result \<Rightarrow> bool) \<Rightarrow> deduplicated_result list \<Rightarrow> rstr list" where
  "hosts_where api P rs = bs_collect (List.map_filter (host_of api) (filter P rs))"

lemma bs_insert_collect: "bs_insert x (bs_collect xs) = bs_collect (xs @ [x])"
proof -
  have "insort x (bs_collect xs) = bs_collect (xs @ [x])" if "x \<notin> set xs"
    using that
    by (intro sorted_distinct_set_unique)
      (simp_all add: bs_collect_def sorted_insort distinct_insort set_insort_key)
  moreover have "bs_collect xs = bs_collect (xs @ [x])" if "x \<in> set xs"
    using that by (simp add: bs_collect_sorted_list_of_set insert_absorb)
  ultimately show ?thesis by (simp add: bs_insert_def)
qed

lemma add_host_hosts:
  "hosts_where api P (rs @ [r]) = (if P r then add_host (host_of api r) (hosts_where api P rs) else hosts_where api P rs)"
  by (simp add: hosts_where_def add_host_def List.map_filter_def bs_insert_collect split: option.split)

abbreviation wcount :: "('a \<Rightarrow> bool) \<Rightarrow> 'a list \<Rightarrow> u32" where
  "wcount P xs \<equiv> of_nat (length (filter P xs))"

lemma count_fold:
  "foldl (count_step api roles) role_counts_zero rs =
    \<lparr> rn_found_primary = wcount (\<lambda>r. has_role roles r Primary) rs,
      rn_found_expansion = wcount (\<lambda>r. has_role roles r Expansion) rs,
      rn_overlap_confirmed = wcount (\<lambda>r. has_role roles r Primary \<and> has_role roles r Expansion) rs,
      rn_unique_primary = wcount (\<lambda>r. has_role roles r Primary \<and> \<not> has_role roles r Expansion) rs,
      rn_unique_expansion = wcount (\<lambda>r. \<not> has_role roles r Primary \<and> has_role roles r Expansion) rs,
      rn_primary_hosts = hosts_where api (\<lambda>r. has_role roles r Primary) rs,
      rn_expansion_hosts = hosts_where api (\<lambda>r. has_role roles r Expansion) rs,
      rn_all_hosts = hosts_where api (\<lambda>_. True) rs \<rparr>"
proof (induction rs rule: rev_induct)
  case Nil
  show ?case by (simp add: role_counts_zero_def hosts_where_def List.map_filter_def bs_collect_def)
next
  case (snoc r rs)
  then show ?case
    by (cases "has_role roles r Primary"; cases "has_role roles r Expansion")
      (simp_all add: count_step_def add_host_hosts Let_def)
qed

lemma unat_wcount: "length xs < 2 ^ 32 \<Longrightarrow> unat (wcount P xs) = length (filter P xs)"
proof -
  assume "length xs < 2 ^ 32"
  then have "length (filter P xs) < 2 ^ 32" by (meson le_less_trans length_filter_le)
  then show ?thesis by (simp add: unsigned_of_nat take_bit_nat_eq_self)
qed

lemma length_filter_split:
  "length (filter P xs) = length (filter (\<lambda>x. P x \<and> Q x) xs) + length (filter (\<lambda>x. P x \<and> \<not> Q x) xs)"
  by (induction xs) auto

lemma length_filter_split':
  "length (filter P xs) = length (filter (\<lambda>x. Q x \<and> P x) xs) + length (filter (\<lambda>x. \<not> Q x \<and> P x) xs)"
  by (induction xs) auto

lemma ratio_in_unit:
  fixes found k :: u32
  assumes "unat k \<le> unat found"
  shows "in_unit (f64_div (f64_of_nat (unat k)) (f64_of_nat (unat (max found 1))))"
proof (rule f64_ratio_unit)
  show "0 < unat (max found 1)" by (auto simp: max_def unat_gt_0)
  show "unat k \<le> unat (max found 1)" using assms by (auto simp: max_def word_le_nat_alt)
  show "unat (max found 1) < 2 ^ 64" using unsigned_less [of "max found 1", where 'a = nat] by simp
qed

lemma hosts_where_set: "set (hosts_where api P rs) = {h. \<exists>r\<in>set rs. P r \<and> host_of api r = Some h}"
  by (force simp: hosts_where_def List.map_filter_def)

lemma difference_count_card: "distinct a \<Longrightarrow> difference_count a b = of_nat (card (set a - set b))"
proof -
  assume "distinct a"
  then have "length (filter (\<lambda>x. x \<notin> set b) a) = card (set a - set b)"
    by (metis distinct_card distinct_filter set_diff_eq set_filter)
  then show ?thesis by (simp add: difference_count_def)
qed

lemma distinct_hosts [simp]: "distinct (hosts_where api P rs)"
  by (simp add: hosts_where_def)

text \<open>
  The contribution counters partition the results. With roles active and fewer than \<open>2 ^ 32\<close>
  results, the results found by the primary are the confirmed overlap and its exclusive ones, and
  likewise for the expansion providers; both ratios, when present, are in the unit interval; the new
  domains are the hosts of expansion results that no primary result has. Without roles there is no
  metric.
\<close>

theorem complementarity_partition:
  assumes "length deduped < 2 ^ 32"
  shows "case compute_complementarity_metrics api deduped roles of
      None \<Rightarrow> \<not> ra_active roles
    | Some m \<Rightarrow> ra_active roles
        \<and> unat (cm_found_primary m) = length (filter (\<lambda>r. has_role roles r Primary) deduped)
        \<and> unat (cm_found_expansion m) = length (filter (\<lambda>r. has_role roles r Expansion) deduped)
        \<and> unat (cm_found_primary m) = unat (cm_overlap_confirmed m) + unat (cm_unique_primary m)
        \<and> unat (cm_found_expansion m) = unat (cm_overlap_confirmed m) + unat (cm_unique_expansion m)
        \<and> pred_option in_unit (cm_expansion_overlap_ratio m)
        \<and> pred_option in_unit (cm_expansion_unique_ratio m)
        \<and> cm_expansion_new_domains m = of_nat (card
            ({h. \<exists>r\<in>set deduped. has_role roles r Expansion \<and> host_of api r = Some h}
             - {h. \<exists>r\<in>set deduped. has_role roles r Primary \<and> host_of api r = Some h}))"
proof (cases "ra_active roles")
  case True
  let ?p = "\<lambda>r. has_role roles r Primary" and ?e = "\<lambda>r. has_role roles r Expansion"
  note un = unat_wcount [OF assms]
  have sp: "unat (wcount ?p deduped) = unat (wcount (\<lambda>r. ?p r \<and> ?e r) deduped) + unat (wcount (\<lambda>r. ?p r \<and> \<not> ?e r) deduped)"
    "unat (wcount ?e deduped) = unat (wcount (\<lambda>r. ?p r \<and> ?e r) deduped) + unat (wcount (\<lambda>r. \<not> ?p r \<and> ?e r) deduped)"
    unfolding un by (rule length_filter_split length_filter_split')+
  then have "unat (wcount (\<lambda>r. ?p r \<and> ?e r) deduped) \<le> unat (wcount ?e deduped)"
    "unat (wcount (\<lambda>r. \<not> ?p r \<and> ?e r) deduped) \<le> unat (wcount ?e deduped)" by linarith+
  note ratios = this [THEN ratio_in_unit]
  have dom: "difference_count (hosts_where api ?e deduped) (hosts_where api ?p deduped) = of_nat (card
            ({h. \<exists>r\<in>set deduped. ?e r \<and> host_of api r = Some h}
             - {h. \<exists>r\<in>set deduped. ?p r \<and> host_of api r = Some h}))"
    by (simp add: difference_count_card hosts_where_set)
  obtain m where m: "compute_complementarity_metrics api deduped roles = Some m"
    using True by (simp add: compute_complementarity_metrics_def Let_def)
  have f: "cm_found_primary m = wcount ?p deduped" "cm_found_expansion m = wcount ?e deduped"
    "cm_overlap_confirmed m = wcount (\<lambda>r. ?p r \<and> ?e r) deduped"
    "cm_unique_primary m = wcount (\<lambda>r. ?p r \<and> \<not> ?e r) deduped"
    "cm_unique_expansion m = wcount (\<lambda>r. \<not> ?p r \<and> ?e r) deduped"
    "cm_expansion_new_domains m = difference_count (hosts_where api ?e deduped) (hosts_where api ?p deduped)"
    using m [symmetric] True by (simp_all add: compute_complementarity_metrics_def count_fold Let_def)
  have "pred_option in_unit (cm_expansion_overlap_ratio m)" "pred_option in_unit (cm_expansion_unique_ratio m)"
    using m [symmetric] True ratios by (simp_all add: compute_complementarity_metrics_def count_fold Let_def)
  then show ?thesis
    unfolding m option.case f dom by (intro conjI True un sp refl)
qed (simp add: compute_complementarity_metrics_def)

definition sample_roles :: role_assignment where
  "sample_roles = primary_expansion (lit ''p'') [lit ''e'']"

theorem complementarity_partition_witness:
  "case compute_complementarity_metrics sample_api [(sample_dedup (lit ''https://a.b/''))\<lparr> dr_providers := [lit ''p'', lit ''e''] \<rparr>] sample_roles of
     None \<Rightarrow> False
   | Some m \<Rightarrow> unat (cm_found_primary m) = unat (cm_overlap_confirmed m) + unat (cm_unique_primary m)
       \<and> unat (cm_found_expansion m) = 1"
  using complementarity_partition [of "[(sample_dedup (lit ''https://a.b/''))\<lparr> dr_providers := [lit ''p'', lit ''e''] \<rparr>]" sample_roles sample_api]
  by (simp add: sample_roles_def primary_expansion_def has_role_def role_of_def split: option.splits)

end
