(* ===== verification/Relevance_Semantics.thy ===== *)
theory Relevance_Semantics
  imports Text
begin

text \<open>
  \<open>relevance_semantics.rs\<close>: the bounded semantic layer of the relevance assessment. A light English
  stemmer, a fixed table of concept aliases, the detection of a query intent from its wording, and the
  positive and negative evidence a title and a snippet give for it. Everything is decided by string
  functions and fixed tables; the Unicode tables are the record \<open>unicode\<close> of \<open>Text\<close>.
\<close>

section \<open>Morphology\<close>

definition MIN_STEM_LEN :: nat where "MIN_STEM_LEN = 5"

definition strip_suffix_str :: "rstr \<Rightarrow> rstr \<Rightarrow> rstr option" where
  "strip_suffix_str s suffix = (if ends_with s suffix then Some (take (length s - length suffix) s) else None)"

definition strip_prefix_str :: "rstr \<Rightarrow> rstr \<Rightarrow> rstr option" where
  "strip_prefix_str s prefix = (if starts_with s prefix then Some (drop (length prefix) s) else None)"

text \<open>The text after the first occurrence of a pattern.\<close>

definition find_rest :: "rstr \<Rightarrow> rstr \<Rightarrow> rstr option" where
  "find_rest s p = map_option snd (split_once_str p s)"

text \<open>\<open>trim_start_matches\<close> with a string pattern removes every leading repetition.\<close>

function trim_start_str :: "rstr \<Rightarrow> rstr \<Rightarrow> rstr" where
  "trim_start_str p s = (if p \<noteq> [] \<and> starts_with s p then trim_start_str p (drop (length p) s) else s)"
  by pat_completeness auto
termination
proof (relation "measure (\<lambda>(p, s). length s)")
  fix p s :: rstr
  assume "p \<noteq> [] \<and> starts_with s p"
  then have "p \<noteq> []" "length p \<le> length s" by (auto simp: starts_with_iff)
  then show "((p, drop (length p) s), p, s) \<in> measure (\<lambda>(p, s). length s)" by (cases p) auto
qed simp

definition suffix_rules :: "(string \<times> string) list" where
  "suffix_rules =
    [(''ization'', ''ize''), (''izations'', ''ize''), ('' isation'', ''ise''), (''ability'', ''able''),
     (''ibility'', ''ible''), (''ational'', ''ate''), (''utions'', ''ute''), (''ution'', ''ute''),
     (''ation'', ''ate''), (''ations'', ''ate''), (''ition'', ''ite''), (''itions'', ''ite''),
     (''ingly'', ''''), (''edly'', ''''), (''fully'', ''ful''), (''ously'', ''ous''), (''ly'', ''''),
     (''ements'', ''e''), (''ement'', ''e''), (''ments'', ''''), (''ment'', ''''), (''ness'', ''''),
     (''ing'', ''''), (''edes'', ''ede''), (''ers'', ''''), (''ors'', ''''), (''er'', ''''),
     (''or'', ''''), (''ed'', ''''), (''ies'', ''y''), (''es'', ''''), (''s'', '''')]"

text \<open>Undoubling of a final consonant left by an empty replacement.\<close>

definition undouble :: "rstr \<Rightarrow> rstr" where
  "undouble out =
     (if 2 \<le> length out \<and> out ! (length out - 1) = out ! (length out - 2)
         \<and> out ! (length out - 1) \<notin> set (lit ''aeiou'')
      then butlast out else out)"

fun strip_rules :: "(string \<times> string) list \<Rightarrow> rstr \<Rightarrow> rstr option" where
  "strip_rules [] t = None"
| "strip_rules ((suffix, replacement) # rules) t =
     (case strip_suffix_str t (lit suffix) of
        None \<Rightarrow> strip_rules rules t
      | Some base \<Rightarrow>
          if byte_len base + length replacement < 3 then strip_rules rules t
          else Some (if replacement = [] then undouble (base @ lit replacement) else base @ lit replacement))"

definition strip_suffix :: "rstr \<Rightarrow> rstr option" where
  "strip_suffix t = strip_rules suffix_rules t"

definition stem :: "rstr \<Rightarrow> rstr option" where
  "stem token =
     (if byte_len token < MIN_STEM_LEN then None
      else if \<not> list_all is_ascii_lower token then None
      else case strip_suffix token of None \<Rightarrow> None
        | Some candidate \<Rightarrow> if byte_len candidate < 3 \<or> candidate = token then None else Some candidate)"

definition stem_set :: "rstr btree_set \<Rightarrow> rstr btree_set" where
  "stem_set toks = bs_collect (List.map_filter stem toks)"

section \<open>Concept aliases\<close>

type_synonym concept_alias_set = "string \<times> string list"

definition ALIAS_SETS :: "concept_alias_set list" where
  "ALIAS_SETS =
    [(''documentation'', [''docs'', ''doc'', ''documentation'', ''reference'', ''manual'', ''api reference'',
        ''api docs'', ''handbook'']),
     (''repository'', [''repo'', ''repos'', ''repository'', ''repositories'', ''source code'']),
     (''asynchronous'', [''async'', ''asynchronous'', ''asynchronously'', ''async await'', ''non blocking'',
        ''nonblocking'']),
     (''database'', [''db'', ''database'', ''databases'', ''datastore'', ''rdbms'']),
     (''kubernetes'', [''k8s'', ''kubernetes'', ''kube'']),
     (''configuration'', [''config'', ''configuration'', ''configure'', ''configuring'', ''setup'', ''set up'']),
     (''standard library'', [''std'', ''stdlib'', ''standard library'']),
     (''tutorial'', [''tutorial'', ''tutorials'', ''guide'', ''walkthrough'', ''getting started'',
        ''quickstart'', ''quick start'']),
     (''javascript'', [''js'', ''javascript'', ''ecmascript'', ''node js'', ''nodejs'']),
     (''postgresql'', [''postgres'', ''postgresql'', ''pg'']),
     (''performance'', [''perf'', ''performance'', ''optimization'', ''optimisation'', ''optimize'', ''optimise'']),
     (''authentication'', [''auth'', ''authentication'', ''authenticate'']),
     (''autoscaling'', [''hpa'', ''autoscaling'', ''autoscaler'', ''horizontal pod autoscaler'']),
     (''specification'', [''spec'', ''specification'', ''rfc''])]"

definition concepts_present :: "rstr btree_set \<Rightarrow> rstr \<Rightarrow> rstr btree_set" where
  "concepts_present toks normalized =
     bs_collect (map (lit \<circ> fst) (filter (\<lambda>(_, aliases). list_ex (\<lambda>alias.
        if CHR '' '' \<in> set alias then contains_str normalized (lit alias) else lit alias \<in> set toks) aliases)
      ALIAS_SETS))"

section \<open>Query intent\<close>

datatype QueryIntent =
    FactualCapital rstr | FactualAttribution rstr | Intent_Documentation rstr | Intent_Tutorial rstr
  | Intent_Repository rstr | Intent_Definition rstr

fun intent_subject :: "QueryIntent \<Rightarrow> rstr" where
  "intent_subject (FactualCapital s) = s"
| "intent_subject (FactualAttribution s) = s"
| "intent_subject (Intent_Documentation s) = s"
| "intent_subject (Intent_Tutorial s) = s"
| "intent_subject (Intent_Repository s) = s"
| "intent_subject (Intent_Definition s) = s"

fun intent_tag :: "QueryIntent \<Rightarrow> string" where
  "intent_tag (FactualCapital _) = ''factual_capital''"
| "intent_tag (FactualAttribution _) = ''factual_attribution''"
| "intent_tag (Intent_Documentation _) = ''documentation''"
| "intent_tag (Intent_Tutorial _) = ''tutorial''"
| "intent_tag (Intent_Repository _) = ''repository''"
| "intent_tag (Intent_Definition _) = ''definition''"

definition clean_subject :: "unicode \<Rightarrow> rstr \<Rightarrow> rstr" where
  "clean_subject uc s =
     collapse_whitespace (trim_matches (\<lambda>c. \<not> uc_is_alphanumeric uc c) (normalized_text uc s))"

text \<open>The first pattern of a list that leaves a nonempty subject.\<close>

fun first_intent ::
    "unicode \<Rightarrow> (rstr \<Rightarrow> rstr \<Rightarrow> rstr option) \<Rightarrow> (rstr \<Rightarrow> QueryIntent) \<Rightarrow> rstr \<Rightarrow> string list \<Rightarrow> QueryIntent option" where
  "first_intent uc chop mk q [] = None"
| "first_intent uc chop mk q (p # ps) =
     (case chop q (lit p) of
        Some rest \<Rightarrow> if clean_subject uc rest \<noteq> [] then Some (mk (clean_subject uc rest))
                     else first_intent uc chop mk q ps
      | None \<Rightarrow> first_intent uc chop mk q ps)"

fun or_else :: "'a option \<Rightarrow> 'a option \<Rightarrow> 'a option" where
  "or_else None b = b"
| "or_else (Some a) b = Some a"

definition capital_intent :: "unicode \<Rightarrow> rstr \<Rightarrow> QueryIntent option" where
  "capital_intent uc q =
     or_else (first_intent uc find_rest FactualCapital q [''capital of ''])
       (case or_else (strip_suffix_str q (lit '' capital city'')) (strip_suffix_str q (lit '' capital'')) of
          Some rest \<Rightarrow> let entity = clean_subject uc rest in
            if entity \<noteq> [] \<and> \<not> contains_str entity (lit ''gains'') then Some (FactualCapital entity) else None
        | None \<Rightarrow> None)"

definition definition_intent :: "unicode \<Rightarrow> rstr \<Rightarrow> QueryIntent option" where
  "definition_intent uc q =
     or_else
       (case or_else (strip_prefix_str q (lit ''what is '')) (strip_prefix_str q (lit ''what are '')) of
          Some rest \<Rightarrow>
            let subject = clean_subject uc (trim_start_str (lit ''the '') (trim_start_str (lit ''a '') rest)) in
            if subject \<noteq> [] \<and> length (split_whitespace q) \<le> 6 then Some (Intent_Definition subject) else None
        | None \<Rightarrow> None)
       (first_intent uc strip_prefix_str Intent_Definition q [''define ''])"

definition detect_intent :: "unicode \<Rightarrow> query \<Rightarrow> QueryIntent option" where
  "detect_intent uc query =
     (if q_quoted_terms query \<noteq> [] then None
      else let q = normalized_text uc (q_normalized_query query) in
        if split_whitespace q = [] then None
        else or_else (capital_intent uc q)
          (or_else (first_intent uc find_rest FactualAttribution q
             [''who wrote '', ''who painted '', ''who invented '', ''who discovered '', ''who composed ''])
          (or_else (first_intent uc find_rest FactualAttribution q
             [''author of '', ''inventor of '', ''creator of '', ''composer of ''])
          (or_else (first_intent uc strip_prefix_str Intent_Documentation q [''documentation for ''])
          (or_else (first_intent uc strip_suffix_str Intent_Documentation q
             ['' documentation'', '' docs'', '' api reference'', '' api docs'', '' reference'', '' manual'', '' cheat sheet''])
          (or_else (first_intent uc strip_suffix_str Intent_Repository q
             ['' github'', '' repository'', '' repo'', '' source code'', '' on github''])
          (or_else (first_intent uc strip_suffix_str Intent_Tutorial q
             ['' tutorial'', '' guide'', '' walkthrough'', '' quickstart'', '' for beginners''])
          (or_else (first_intent uc find_rest Intent_Tutorial q
             [''getting started with '', ''how to use '', ''how to configure '', ''how to set up ''])
          (definition_intent uc q)))))))))"

section \<open>Evidence\<close>

record negative_relevance_evidence =
  ne_subject_mismatch :: bool
  ne_entity_mismatch :: bool
  ne_weak_generic_match :: bool
  ne_alias_conflict :: bool

definition negative_evidence_default :: negative_relevance_evidence where
  "negative_evidence_default = \<lparr> ne_subject_mismatch = False, ne_entity_mismatch = False,
     ne_weak_generic_match = False, ne_alias_conflict = False \<rparr>"

definition is_blocking :: "negative_relevance_evidence \<Rightarrow> bool" where
  "is_blocking n \<longleftrightarrow> ne_subject_mismatch n \<or> ne_entity_mismatch n"

definition KNOWN_SUBJECTS :: "string list" where
  "KNOWN_SUBJECTS = [''postgresql'', ''postgres'', ''mysql'', ''sqlite'', ''mariadb'', ''mongodb'', ''redis'',
    ''rust'', ''python'', ''java'', ''javascript'', ''typescript'', ''golang'', ''kotlin'', ''swift'', ''ruby'',
    ''php'', ''scala'', ''haskell'', ''erlang'', ''elixir'', ''csharp'', ''kubernetes'', ''docker'', ''terraform'',
    ''ansible'', ''react'', ''angular'', ''vue'', ''svelte'', ''django'', ''flask'', ''rails'', ''spring'',
    ''kafka'', ''rabbitmq'', ''nginx'', ''apache'', ''envoy'']"

definition ALIAS_CONFLICT_FAMILIES :: "string list list" where
  "ALIAS_CONFLICT_FAMILIES =
    [[''sqlite'', ''postgresql'', ''postgres'', ''mysql'', ''mariadb'', ''mongodb'', ''oracle''],
     [''rust'', ''python'', ''java'', ''javascript'', ''typescript'', ''golang'', ''kotlin'', ''swift'', ''ruby'', ''php''],
     [''react'', ''angular'', ''vue'', ''svelte''],
     [''kubernetes'', ''nomad'', ''mesos''],
     [''kafka'', ''rabbitmq'', ''pulsar'', ''nats'']]"

definition generic_only :: "rstr btree_set \<Rightarrow> rstr btree_set" where
  "generic_only matched = filter (\<lambda>t. t \<in> set (map lit [''capital'', ''gains'', ''tax'', ''rates'', ''country'',
     ''guide'', ''list'', ''world'', ''best'', ''top'', ''introduction'', ''overview'', ''review'', ''comparison''])) matched"

definition subject_terms :: "unicode \<Rightarrow> rstr \<Rightarrow> rstr btree_set" where
  "subject_terms uc subject = filter (\<lambda>t. 2 \<le> byte_len t) (tokens uc subject)"

record semantic_assessment =
  sa_stemmed_term_matches :: "rstr btree_set"
  sa_alias_matches :: "rstr btree_set"
  sa_query_intent :: "rstr option"
  sa_subject_terms :: "rstr btree_set"
  sa_subject_match :: bool
  sa_entity_match :: bool
  sa_negative_evidence :: negative_relevance_evidence

definition semantic_assessment_default :: semantic_assessment where
  "semantic_assessment_default = \<lparr> sa_stemmed_term_matches = [], sa_alias_matches = [], sa_query_intent = None,
     sa_subject_terms = [], sa_subject_match = False, sa_entity_match = False,
     sa_negative_evidence = negative_evidence_default \<rparr>"

text \<open>Whether a query token that did not match exactly matches after stemming, or by a common stem prefix.\<close>

definition stem_rescued :: "rstr btree_set \<Rightarrow> rstr btree_set \<Rightarrow> rstr \<Rightarrow> bool" where
  "stem_rescued text_tokens text_stems qt =
     ((case stem qt of Some s \<Rightarrow> s \<in> set text_tokens \<or> s \<in> set text_stems | None \<Rightarrow> False)
      \<or> qt \<in> set text_stems
      \<or> (case stem qt of Some s \<Rightarrow> 6 \<le> byte_len s
            \<and> (list_ex (\<lambda>ts. starts_with ts (take 5 s)) text_stems
               \<or> list_ex (\<lambda>tt. starts_with tt (take 5 s) \<and> 6 \<le> byte_len tt) text_tokens)
         | None \<Rightarrow> False))"

definition stemmed_matches :: "rstr btree_set \<Rightarrow> rstr btree_set \<Rightarrow> rstr btree_set \<Rightarrow> rstr btree_set \<Rightarrow> rstr btree_set" where
  "stemmed_matches q_tokens text_tokens text_stems matched =
     bs_collect (map (\<lambda>qt. case stem qt of Some s \<Rightarrow> s | None \<Rightarrow> qt)
       (filter (\<lambda>qt. qt \<notin> set matched \<and> stem_rescued text_tokens text_stems qt) q_tokens))"

definition subject_matches :: "rstr btree_set \<Rightarrow> rstr btree_set \<Rightarrow> rstr btree_set \<Rightarrow> bool" where
  "subject_matches terms text_tokens text_stems =
     (let present = length (filter (\<lambda>t. t \<in> set text_tokens \<or> t \<in> set text_stems) terms)
      in if length terms = 0 then False
         else if length terms = 1 then 0 < present
         else 2 \<le> present \<and> length terms < present * 2)"

definition subject_evidence ::
    "rstr btree_set \<Rightarrow> rstr btree_set \<Rightarrow> rstr btree_set \<Rightarrow> rstr btree_set \<Rightarrow> rstr btree_set \<Rightarrow> bool \<times> bool" where
  "subject_evidence terms q_tokens title_tokens text_tokens text_stems =
     (if terms = [] then (False, False)
      else let m = subject_matches terms text_tokens text_stems
           in (m, \<not> m \<and> list_ex (\<lambda>k. lit k \<in> set title_tokens \<and> lit k \<notin> set terms \<and> lit k \<notin> set q_tokens) KNOWN_SUBJECTS))"

text \<open>The three verdicts of the capital intent: entity match, entity mismatch, generic match only.\<close>

definition capital_evidence ::
    "unicode \<Rightarrow> rstr \<Rightarrow> rstr btree_set \<Rightarrow> rstr btree_set \<Rightarrow> rstr \<Rightarrow> rstr btree_set \<Rightarrow> bool \<times> bool \<times> bool" where
  "capital_evidence uc entity text_tokens text_stems text_norm matched =
     (let ent_terms = subject_terms uc entity;
          has = (\<lambda>s. contains_str text_norm (lit s));
          ent_present = (list_all (\<lambda>t. t \<in> set text_tokens \<or> t \<in> set text_stems) ent_terms \<and> ent_terms \<noteq> []);
          asserts = (list_all (\<lambda>t. contains_str text_norm (lit ''capital of '' @ t)
                         \<or> contains_str text_norm (lit ''capital city of '' @ t)) ent_terms
                     \<or> (ent_present \<and> (has ''is the capital'' \<or> has ''federal capital'' \<or> has ''national capital'')));
          competing = (has ''capital of the province'' \<or> has ''capital of the state''
                       \<or> (has ''is the capital'' \<and> \<not> ent_present
                          \<and> \<not> contains_str text_norm (lit ''capital of '' @ entity)))
      in (asserts \<and> \<not> competing, competing \<and> \<not> asserts,
          \<not> ent_present \<and> lit ''capital'' \<notin> set text_tokens \<and> set matched \<subseteq> set (generic_only matched)))"

definition attribution_cues :: "string list" where
  "attribution_cues = [''wrote'', ''author'', ''written by'', ''painted'', ''co-design'', ''co-designing'',
     ''designed'', ''invented'', ''developed'', ''known for'', ''fathers of'']"

definition attribution_evidence :: "unicode \<Rightarrow> rstr \<Rightarrow> rstr btree_set \<Rightarrow> rstr \<Rightarrow> bool" where
  "attribution_evidence uc work text_tokens text_norm =
     (let work_terms = subject_terms uc work
      in work_terms \<noteq> [] \<and> length work_terms \<le> length (filter (\<lambda>t. t \<in> set text_tokens) work_terms) * 2
         \<and> list_ex (\<lambda>cue. contains_str text_norm (lit cue)) attribution_cues)"

definition only_in_url :: "rstr btree_set \<Rightarrow> rstr btree_set \<Rightarrow> rstr \<Rightarrow> rstr btree_set \<Rightarrow> bool" where
  "only_in_url title_tokens snippet_tokens url_blob matched \<longleftrightarrow>
     matched \<noteq> [] \<and> \<not> list_ex (\<lambda>t. t \<in> set title_tokens \<or> t \<in> set snippet_tokens) matched
     \<and> list_all (\<lambda>t. contains_str url_blob t) matched"

definition family_conflict :: "rstr btree_set \<Rightarrow> rstr btree_set \<Rightarrow> string list \<Rightarrow> bool" where
  "family_conflict q_tokens text_tokens family =
     (case (find (\<lambda>m. lit m \<in> set q_tokens) family, find (\<lambda>m. lit m \<in> set text_tokens) family) of
        (Some qm, Some rm) \<Rightarrow> qm \<noteq> rm \<and> lit qm \<notin> set text_tokens
      | _ \<Rightarrow> False)"

definition assess_semantics ::
    "unicode \<Rightarrow> query \<Rightarrow> rstr option \<Rightarrow> rstr option \<Rightarrow> rstr \<Rightarrow> rstr btree_set \<Rightarrow> semantic_assessment" where
  "assess_semantics uc query title snippet url_blob matched =
     (let q_norm = normalized_text uc (q_normalized_query query);
          q_tokens = tokens uc (q_normalized_query query);
          norm_of = (\<lambda>t. case t of None \<Rightarrow> [] | Some s \<Rightarrow> normalized_text uc s);
          tokens_of = (\<lambda>t. case t of None \<Rightarrow> [] | Some s \<Rightarrow> tokens uc s);
          text_tokens = bs_collect (tokens_of title @ tokens_of snippet);
          text_norm = norm_of title @ [32] @ norm_of snippet;
          text_stems = stem_set text_tokens;
          alias_matches = filter (\<lambda>c. c \<in> set (concepts_present text_tokens text_norm)) (concepts_present q_tokens q_norm);
          intent = detect_intent uc query;
          terms = (case intent of None \<Rightarrow> [] | Some i \<Rightarrow> subject_terms uc (intent_subject i));
          (subject_match, subject_mismatch) = subject_evidence terms q_tokens (tokens_of title) text_tokens text_stems;
          (entity_match, entity_mismatch, generic) = (case intent of
              Some (FactualCapital entity) \<Rightarrow> capital_evidence uc entity text_tokens text_stems text_norm matched
            | Some (FactualAttribution work) \<Rightarrow> (attribution_evidence uc work text_tokens text_norm, False, False)
            | _ \<Rightarrow> (False, False, False));
          weak = (generic \<or> only_in_url (tokens_of title) (tokens_of snippet) url_blob matched);
          conflict = list_ex (family_conflict q_tokens text_tokens) ALIAS_CONFLICT_FAMILIES
      in \<lparr> sa_stemmed_term_matches = stemmed_matches q_tokens text_tokens text_stems matched,
           sa_alias_matches = alias_matches, sa_query_intent = map_option (lit \<circ> intent_tag) intent,
           sa_subject_terms = terms, sa_subject_match = subject_match, sa_entity_match = entity_match,
           sa_negative_evidence = \<lparr> ne_subject_mismatch = subject_mismatch, ne_entity_mismatch = entity_mismatch,
             ne_weak_generic_match = weak, ne_alias_conflict = conflict \<rparr> \<rparr>)"

text \<open>
  The rule for British spelling carries a blank before its suffix, so no single token ends with it: the two
  spellings of one word get different stems, and \<open>organisation\<close> only loses its \<open>ion\<close>.
\<close>

lemma stem_isation_rule_dead:
  "stem (lit ''organisation'') = Some (lit ''organisate'') \<and> stem (lit ''organization'') = Some (lit ''organize'')"
proof
  show "stem (lit ''organisation'') = Some (lit ''organisate'')" by code_simp
  show "stem (lit ''organization'') = Some (lit ''organize'')" by code_simp
qed

end
