(* ===== verification/Relevance.thy ===== *)
theory Relevance
  imports Relevance_Semantics Complementarity
begin

text \<open>
  \<open>relevance.rs\<close>: the deterministic relevance verdict of a result, from lexical coverage and the
  bounded semantic evidence, and the relevance metrics per role. \<open>Url::path\<close> is the argument \<open>path\<close>.
\<close>

record relevance_thresholds =
  th_relevant_title_coverage :: f64
  th_relevant_combined_coverage :: f64
  th_relevant_snippet_coverage :: f64
  th_possibly_relevant_coverage :: f64
  th_not_relevant_ceiling :: f64
  th_min_title_tokens_without_snippet :: nat
  th_semantic_morphology :: bool
  th_semantic_aliases :: bool
  th_semantic_intent :: bool

definition relevance_thresholds_default :: relevance_thresholds where
  "relevance_thresholds_default = \<lparr> th_relevant_title_coverage = Fin (3 / 4),
     th_relevant_combined_coverage = Fin 1, th_relevant_snippet_coverage = f64_lit 90 100,
     th_possibly_relevant_coverage = f64_lit 40 100, th_not_relevant_ceiling = Fin (1 / 4),
     th_min_title_tokens_without_snippet = 2, th_semantic_morphology = True, th_semantic_aliases = True,
     th_semantic_intent = True \<rparr>"

definition lexical_only :: relevance_thresholds where
  "lexical_only = relevance_thresholds_default\<lparr> th_semantic_morphology := False, th_semantic_aliases := False,
     th_semantic_intent := False \<rparr>"

definition with_morphology :: relevance_thresholds where
  "with_morphology = relevance_thresholds_default\<lparr> th_semantic_morphology := True, th_semantic_aliases := False,
     th_semantic_intent := False \<rparr>"

definition with_aliases :: relevance_thresholds where
  "with_aliases = relevance_thresholds_default\<lparr> th_semantic_morphology := True, th_semantic_aliases := True,
     th_semantic_intent := False \<rparr>"

definition any_semantic :: "relevance_thresholds \<Rightarrow> bool" where
  "any_semantic t \<longleftrightarrow> th_semantic_morphology t \<or> th_semantic_aliases t \<or> th_semantic_intent t"

datatype RelevanceClassification = Rc_Relevant | Rc_PossiblyRelevant | Rc_NotRelevant | Rc_Unknown

record result_relevance_assessment =
  rra_title_term_coverage :: f64
  rra_snippet_term_coverage :: f64
  rra_url_term_coverage :: f64
  rra_exact_phrase_match :: bool
  rra_matched_query_terms :: u32
  rra_query_terms_total :: u32
  rra_had_sufficient_text :: bool
  rra_provider_rank_is_top :: "bool option"
  rra_classification :: RelevanceClassification
  rra_stemmed_term_matches :: "rstr list"
  rra_alias_matches :: "rstr list"
  rra_query_intent :: "rstr option"
  rra_subject_terms :: "rstr list"
  rra_subject_match :: bool
  rra_entity_match :: bool
  rra_negative_evidence :: negative_relevance_evidence

section \<open>Lexical evidence\<close>

definition STOP_WORDS :: "string list" where
  "STOP_WORDS = [''a'', ''an'', ''and'', ''are'', ''as'', ''at'', ''be'', ''by'', ''for'', ''from'', ''how'',
     ''in'', ''is'', ''it'', ''of'', ''on'', ''or'', ''the'', ''to'', ''vs'', ''what'', ''when'', ''where'',
     ''which'', ''who'', ''why'', ''with'']"

definition significant_query_terms :: "unicode \<Rightarrow> query \<Rightarrow> rstr btree_set" where
  "significant_query_terms uc q =
     bs_collect (filter (\<lambda>t. t \<notin> set (map lit STOP_WORDS)) (tokens uc (q_normalized_query q))
       @ concat (map (tokens uc) (q_quoted_terms q)))"

definition quoted_phrases :: "unicode \<Rightarrow> query \<Rightarrow> rstr list" where
  "quoted_phrases uc q = filter (\<lambda>p. p \<noteq> []) (map (normalized_text uc) (q_quoted_terms q))"

definition coverage :: "unicode \<Rightarrow> rstr option \<Rightarrow> rstr btree_set \<Rightarrow> f64 \<times> rstr btree_set" where
  "coverage uc field terms =
     (case field of None \<Rightarrow> (Fin 0, [])
      | Some f \<Rightarrow> if terms = [] then (Fin 0, [])
          else let matched = filter (\<lambda>t. t \<in> set (tokens uc f)) terms
               in (f64_div (f64_of_nat (length matched)) (f64_of_nat (length terms)), matched))"

definition url_tokens :: "url url_api \<Rightarrow> (url \<Rightarrow> rstr) \<Rightarrow> deduplicated_result \<Rightarrow> rstr" where
  "url_tokens api path r =
     (let u = dr_canonical_url r in
      join_with [32] ((case url_host_str api u of None \<Rightarrow> [] | Some h \<Rightarrow> [h])
        @ [map (\<lambda>c. if c \<in> set (lit ''/-_.'') then 32 else c) (path u)]))"

definition rank_is_top :: "(rstr, rank option) btree_map \<Rightarrow> bool option" where
  "rank_is_top ranks =
     (case List.map_filter (\<lambda>r. r) (bt_values ranks) of [] \<Rightarrow> None | rs \<Rightarrow> Some (list_ex (\<lambda>r. r = 1) rs))"

section \<open>The verdict\<close>

definition intent_rescue_qualifies :: "rstr option \<Rightarrow> bool \<Rightarrow> bool \<Rightarrow> rstr btree_set \<Rightarrow> f64 \<Rightarrow> bool" where
  "intent_rescue_qualifies tag subject_match entity_match alias_hits semantic_cov =
     (case tag of None \<Rightarrow> False
      | Some t \<Rightarrow>
          if t = lit ''factual_attribution'' then entity_match
          else if t = lit ''factual_capital''
          then entity_match \<or> (subject_match \<and> (alias_hits \<noteq> [] \<or> f64_le (f64_lit 6 10) semantic_cov))
          else subject_match \<and> (alias_hits \<noteq> [] \<or> f64_le (f64_lit 6 10) semantic_cov))"

definition demote_weak :: "bool \<Rightarrow> f64 \<Rightarrow> relevance_thresholds \<Rightarrow> RelevanceClassification" where
  "demote_weak has_snippet combined th =
     (if has_snippet \<and> f64_le combined (f64_max (th_not_relevant_ceiling th) (Fin (1 / 2))) then Rc_NotRelevant
      else if has_snippet then Rc_PossiblyRelevant
      else Rc_Unknown)"

text \<open>The evidence the verdict is a function of.\<close>

record relevance_evidence =
  ev_title_cov :: f64
  ev_snippet_cov :: f64
  ev_url_cov :: f64
  ev_matched :: nat
  ev_exact_phrase_match :: bool
  ev_had_sufficient_text :: bool
  ev_has_snippet :: bool
  ev_provider_rank_is_top :: "bool option"
  ev_semantic_cov :: f64
  ev_morph_hits :: nat
  ev_alias_hits :: "rstr btree_set"
  ev_intent_tag :: "rstr option"
  ev_intent_active :: bool
  ev_subject_match :: bool
  ev_entity_match :: bool
  ev_negative :: negative_relevance_evidence

definition combined_coverage :: "relevance_evidence \<Rightarrow> f64" where
  "combined_coverage e = f64_add (ev_title_cov e) (f64_mul (Fin (1 / 2)) (ev_snippet_cov e))"

definition lexical_strong :: "relevance_thresholds \<Rightarrow> relevance_evidence \<Rightarrow> bool" where
  "lexical_strong th e \<longleftrightarrow>
     f64_le (th_relevant_title_coverage th) (ev_title_cov e)
     \<or> f64_le (th_relevant_combined_coverage th) (combined_coverage e)
     \<or> (f64_le (th_relevant_snippet_coverage th) (ev_snippet_cov e) \<and> 2 \<le> ev_matched e)"

definition lexical_moderate :: "relevance_thresholds \<Rightarrow> relevance_evidence \<Rightarrow> bool" where
  "lexical_moderate th e \<longleftrightarrow> \<not> lexical_strong th e
     \<and> (f64_le (th_possibly_relevant_coverage th) (ev_title_cov e)
        \<or> f64_le (th_possibly_relevant_coverage th) (ev_snippet_cov e)
        \<or> f64_le (th_possibly_relevant_coverage th) (combined_coverage e)
        \<or> f64_le (Fin (1 / 2)) (ev_semantic_cov e))"

definition strong_semantic_rescue :: "relevance_evidence \<Rightarrow> bool" where
  "strong_semantic_rescue e \<longleftrightarrow> \<not> is_blocking (ev_negative e) \<and> ev_subject_match e
     \<and> (ev_alias_hits e \<noteq> [] \<or> ev_entity_match e \<or> f64_le (Fin (3 / 4)) (ev_semantic_cov e))"

definition partial_evidence :: "relevance_thresholds \<Rightarrow> relevance_evidence \<Rightarrow> bool" where
  "partial_evidence th e \<longleftrightarrow>
     (let blocking = is_blocking (ev_negative e); combined = combined_coverage e in
      f64_le (th_possibly_relevant_coverage th) (ev_title_cov e)
      \<or> f64_le (th_possibly_relevant_coverage th) (ev_snippet_cov e)
      \<or> f64_le (th_possibly_relevant_coverage th) combined
      \<or> (f64_le (th_possibly_relevant_coverage th) (ev_url_cov e) \<and> ev_matched e \<noteq> 0)
      \<or> (ev_provider_rank_is_top e = Some True \<and> ev_matched e \<noteq> 0 \<and> f64_lt (Fin 0) combined)
      \<or> (f64_le (Fin (1 / 2)) (ev_semantic_cov e) \<and> \<not> blocking)
      \<or> (ev_alias_hits e \<noteq> [] \<and> 1 \<le> ev_morph_hits e + ev_matched e \<and> \<not> blocking))"

definition classify_relevance :: "relevance_thresholds \<Rightarrow> relevance_evidence \<Rightarrow> RelevanceClassification" where
  "classify_relevance th e =
     (let blocking = is_blocking (ev_negative e); combined = combined_coverage e in
      if \<not> ev_had_sufficient_text e then Rc_Unknown
      else if ev_exact_phrase_match e then Rc_Relevant
      else if lexical_strong th e \<and> blocking then (if ev_has_snippet e then Rc_PossiblyRelevant else Rc_Unknown)
      else if lexical_strong th e then Rc_Relevant
      else if lexical_moderate th e \<and> strong_semantic_rescue e then Rc_Relevant
      else if \<not> blocking \<and> ev_intent_active e
        \<and> intent_rescue_qualifies (ev_intent_tag e) (ev_subject_match e) (ev_entity_match e) (ev_alias_hits e) (ev_semantic_cov e)
      then Rc_Relevant
      else if partial_evidence th e
      then (if blocking \<or> ne_weak_generic_match (ev_negative e) then demote_weak (ev_has_snippet e) combined th
            else Rc_PossiblyRelevant)
      else if ev_has_snippet e \<and> f64_le combined (th_not_relevant_ceiling th) then Rc_NotRelevant
      else if ev_has_snippet e then Rc_PossiblyRelevant
      else Rc_Unknown)"

definition gated_negative :: "relevance_thresholds \<Rightarrow> semantic_assessment \<Rightarrow> negative_relevance_evidence" where
  "gated_negative th s =
     (if th_semantic_intent th then sa_negative_evidence s
      else negative_evidence_default\<lparr> ne_alias_conflict :=
        th_semantic_aliases th \<and> ne_alias_conflict (sa_negative_evidence s) \<rparr>)"

definition gather_evidence ::
    "unicode \<Rightarrow> url url_api \<Rightarrow> (url \<Rightarrow> rstr) \<Rightarrow> query \<Rightarrow> deduplicated_result \<Rightarrow> relevance_thresholds
     \<Rightarrow> semantic_assessment \<times> relevance_evidence" where
  "gather_evidence uc api path q r th =
     (let terms = significant_query_terms uc q;
          phrases = quoted_phrases uc q;
          (title_cov, title_matched) = coverage uc (dr_title r) terms;
          (snippet_cov, snippet_matched) = coverage uc (dr_snippet r) terms;
          url_blob = url_tokens api path r;
          (url_cov, url_matched) = coverage uc (Some url_blob) terms;
          all_matched = bs_collect (title_matched @ snippet_matched @ url_matched);
          norm_of = (\<lambda>t. case t of None \<Rightarrow> [] | Some s \<Rightarrow> normalized_text uc s);
          title_token_count = (case dr_title r of None \<Rightarrow> 0 | Some t \<Rightarrow> length (tokens uc t));
          has_snippet = (case dr_snippet r of None \<Rightarrow> False | Some s \<Rightarrow> trim s \<noteq> []);
          s = (if any_semantic th then assess_semantics uc q (dr_title r) (dr_snippet r) url_blob all_matched
               else semantic_assessment_default);
          morph_hits = (if th_semantic_morphology th then length (sa_stemmed_term_matches s) else 0);
          alias_hits = (if th_semantic_aliases th then sa_alias_matches s else []);
          intent_active = (th_semantic_intent th \<and> sa_query_intent s \<noteq> None);
          semantic_matched = length all_matched + morph_hits + length alias_hits
      in (s, \<lparr> ev_title_cov = title_cov, ev_snippet_cov = snippet_cov, ev_url_cov = url_cov,
           ev_matched = length all_matched,
           ev_exact_phrase_match = (phrases \<noteq> [] \<and> list_ex (\<lambda>p. contains_str (norm_of (dr_title r)) p
               \<or> contains_str (norm_of (dr_snippet r)) p) phrases),
           ev_had_sufficient_text = (has_snippet \<or> max (th_min_title_tokens_without_snippet th) 1 \<le> title_token_count),
           ev_has_snippet = has_snippet,
           ev_provider_rank_is_top = rank_is_top (dr_provider_ranks r),
           ev_semantic_cov = (if terms = [] then Fin 0
             else f64_min (f64_div (f64_of_nat semantic_matched) (f64_of_nat (length terms))) (Fin 1)),
           ev_morph_hits = morph_hits, ev_alias_hits = alias_hits, ev_intent_tag = sa_query_intent s,
           ev_intent_active = intent_active,
           ev_subject_match = (intent_active \<and> sa_subject_match s),
           ev_entity_match = (intent_active \<and> sa_entity_match s),
           ev_negative = gated_negative th s \<rparr>))"

definition assess_result ::
    "unicode \<Rightarrow> url url_api \<Rightarrow> (url \<Rightarrow> rstr) \<Rightarrow> query \<Rightarrow> deduplicated_result \<Rightarrow> relevance_thresholds
     \<Rightarrow> result_relevance_assessment" where
  "assess_result uc api path q r th =
     (let (s, e) = gather_evidence uc api path q r th
      in \<lparr> rra_title_term_coverage = ev_title_cov e, rra_snippet_term_coverage = ev_snippet_cov e,
           rra_url_term_coverage = ev_url_cov e, rra_exact_phrase_match = ev_exact_phrase_match e,
           rra_matched_query_terms = of_nat (ev_matched e),
           rra_query_terms_total = of_nat (length (significant_query_terms uc q)),
           rra_had_sufficient_text = ev_had_sufficient_text e,
           rra_provider_rank_is_top = ev_provider_rank_is_top e,
           rra_classification = classify_relevance th e,
           rra_stemmed_term_matches = (if th_semantic_morphology th then sa_stemmed_term_matches s else []),
           rra_alias_matches = (if th_semantic_aliases th then sa_alias_matches s else []),
           rra_query_intent = (if th_semantic_intent th then sa_query_intent s else None),
           rra_subject_terms = (if ev_intent_active e then sa_subject_terms s else []),
           rra_subject_match = ev_subject_match e, rra_entity_match = ev_entity_match e,
           rra_negative_evidence = ev_negative e \<rparr>)"

section \<open>Metrics per role\<close>

record relevance_counts =
  rq_relevant_primary :: u32
  rq_relevant_expansion :: u32
  rq_unique_relevant_primary :: u32
  rq_unique_relevant_expansion :: u32
  rq_possibly_primary :: u32
  rq_possibly_expansion :: u32
  rq_not_primary :: u32
  rq_not_expansion :: u32
  rq_unknown_primary :: u32
  rq_unknown_expansion :: u32
  rq_excl_relevant :: u32
  rq_excl_not_relevant :: u32
  rq_assessable :: u32

definition relevance_counts_zero :: relevance_counts where
  "relevance_counts_zero = \<lparr> rq_relevant_primary = 0, rq_relevant_expansion = 0, rq_unique_relevant_primary = 0,
     rq_unique_relevant_expansion = 0, rq_possibly_primary = 0, rq_possibly_expansion = 0, rq_not_primary = 0,
     rq_not_expansion = 0, rq_unknown_primary = 0, rq_unknown_expansion = 0, rq_excl_relevant = 0,
     rq_excl_not_relevant = 0, rq_assessable = 0 \<rparr>"

definition count_primary :: "bool \<Rightarrow> RelevanceClassification \<Rightarrow> relevance_counts \<Rightarrow> relevance_counts" where
  "count_primary overlap cls n =
     (case cls of
       Rc_Relevant \<Rightarrow> (let n1 = n\<lparr> rq_relevant_primary := rq_relevant_primary n + 1 \<rparr> in
         if \<not> overlap then n1\<lparr> rq_unique_relevant_primary := rq_unique_relevant_primary n1 + 1 \<rparr> else n1)
     | Rc_PossiblyRelevant \<Rightarrow> n\<lparr> rq_possibly_primary := rq_possibly_primary n + 1 \<rparr>
     | Rc_NotRelevant \<Rightarrow> n\<lparr> rq_not_primary := rq_not_primary n + 1 \<rparr>
     | Rc_Unknown \<Rightarrow> n\<lparr> rq_unknown_primary := rq_unknown_primary n + 1 \<rparr>)"

definition count_expansion :: "bool \<Rightarrow> RelevanceClassification \<Rightarrow> relevance_counts \<Rightarrow> relevance_counts" where
  "count_expansion overlap cls n =
     (case cls of
       Rc_Relevant \<Rightarrow> (let n1 = n\<lparr> rq_relevant_expansion := rq_relevant_expansion n + 1 \<rparr> in
         if \<not> overlap then n1\<lparr> rq_unique_relevant_expansion := rq_unique_relevant_expansion n1 + 1,
           rq_excl_relevant := rq_excl_relevant n1 + 1 \<rparr> else n1)
     | Rc_PossiblyRelevant \<Rightarrow> n\<lparr> rq_possibly_expansion := rq_possibly_expansion n + 1 \<rparr>
     | Rc_NotRelevant \<Rightarrow> (let n1 = n\<lparr> rq_not_expansion := rq_not_expansion n + 1 \<rparr> in
         if \<not> overlap then n1\<lparr> rq_excl_not_relevant := rq_excl_not_relevant n1 + 1 \<rparr> else n1)
     | Rc_Unknown \<Rightarrow> n\<lparr> rq_unknown_expansion := rq_unknown_expansion n + 1 \<rparr>)"

definition relevance_step ::
    "(deduplicated_result \<Rightarrow> result_relevance_assessment) \<Rightarrow> role_assignment \<Rightarrow> relevance_counts
     \<Rightarrow> deduplicated_result \<Rightarrow> relevance_counts" where
  "relevance_step assess roles n r =
     (let in_primary = has_role roles r Primary; in_expansion = has_role roles r Expansion in
      if \<not> in_primary \<and> \<not> in_expansion then n
      else let overlap = (in_primary \<and> in_expansion);
               a = assess r;
               n1 = (if rra_had_sufficient_text a then n\<lparr> rq_assessable := rq_assessable n + 1 \<rparr> else n);
               n2 = (if in_primary then count_primary overlap (rra_classification a) n1 else n1)
           in if in_expansion then count_expansion overlap (rra_classification a) n2 else n2)"

definition assess_relevance ::
    "unicode \<Rightarrow> url url_api \<Rightarrow> (url \<Rightarrow> rstr) \<Rightarrow> query \<Rightarrow> deduplicated_result list \<Rightarrow> role_assignment
     \<Rightarrow> complementarity_metrics \<Rightarrow> relevance_thresholds \<Rightarrow> relevance_metrics option" where
  "assess_relevance uc api path q deduped roles m th =
     (if \<not> ra_active roles then None
      else let n = foldl (relevance_step (\<lambda>r. assess_result uc api path q r th) roles) relevance_counts_zero deduped;
               per = (\<lambda>(a :: u32) (b :: u32). Some (f64_div (f64_of_nat (unat a)) (f64_of_nat (unat (max b 1)))));
               conclusive = rq_excl_relevant n + rq_excl_not_relevant n;
               noise = per (rq_excl_not_relevant n) conclusive;
               total = of_nat (length (filter (\<lambda>r. has_role roles r Primary \<or> has_role roles r Expansion) deduped)) :: u32
           in Some \<lparr> rm_status = (if 0 < total \<and> rq_assessable n * 2 < total then InsufficientEvidence else Assessed),
                rm_relevant_primary = Some (rq_relevant_primary n),
                rm_relevant_expansion = Some (rq_relevant_expansion n),
                rm_unique_relevant_primary = Some (rq_unique_relevant_primary n),
                rm_unique_relevant_expansion = Some (rq_unique_relevant_expansion n),
                rm_possibly_relevant_primary = Some (rq_possibly_primary n),
                rm_possibly_relevant_expansion = Some (rq_possibly_expansion n),
                rm_not_relevant_primary = Some (rq_not_primary n),
                rm_not_relevant_expansion = Some (rq_not_expansion n),
                rm_unknown_primary = Some (rq_unknown_primary n),
                rm_unknown_expansion = Some (rq_unknown_expansion n),
                rm_expansion_relevant_ratio = per (rq_relevant_expansion n) (cm_found_expansion m),
                rm_raw_to_relevant_expansion_ratio = per (rq_unique_relevant_expansion n) (cm_unique_expansion m),
                rm_expansion_confirmed_noise_rate = noise,
                rm_expansion_noise_rate = noise \<rparr>)"

definition enrich_relevance_metrics ::
    "unicode \<Rightarrow> url url_api \<Rightarrow> (url \<Rightarrow> rstr) \<Rightarrow> query \<Rightarrow> deduplicated_result list \<Rightarrow> role_assignment
     \<Rightarrow> relevance_thresholds \<Rightarrow> complementarity_metrics \<Rightarrow> complementarity_metrics" where
  "enrich_relevance_metrics uc api path q deduped roles th m =
     (case assess_relevance uc api path q deduped roles m th of
        Some relevance \<Rightarrow> m\<lparr> cm_relevance := relevance \<rparr>
      | None \<Rightarrow> m)"

section \<open>What a verdict rests on\<close>

lemma classify_relevant:
  "classify_relevance th e = Rc_Relevant \<longleftrightarrow>
     ev_had_sufficient_text e \<and> (ev_exact_phrase_match e \<or> (\<not> is_blocking (ev_negative e) \<and>
       (lexical_strong th e
        \<or> (lexical_moderate th e \<and> strong_semantic_rescue e)
        \<or> (ev_intent_active e \<and> intent_rescue_qualifies (ev_intent_tag e) (ev_subject_match e) (ev_entity_match e)
              (ev_alias_hits e) (ev_semantic_cov e)))))"
proof -
  have "demote_weak b c th \<noteq> Rc_Relevant" for b c by (simp add: demote_weak_def)
  moreover have "strong_semantic_rescue e \<Longrightarrow> \<not> is_blocking (ev_negative e)" by (simp add: strong_semantic_rescue_def)
  ultimately show ?thesis
    unfolding classify_relevance_def Let_def by (auto split: if_splits)
qed

lemma rescue_needs_match:
  "intent_rescue_qualifies tag sm em ah cov \<Longrightarrow> sm \<or> em"
  by (auto simp: intent_rescue_qualifies_def simp del: lit_simps split: option.splits if_splits)

lemma gather_evidence_gates:
  assumes "gather_evidence uc api path q r th = (s, e)"
  shows "ev_subject_match e \<or> ev_entity_match e \<Longrightarrow> ev_intent_active e"
    and "ev_intent_active e \<Longrightarrow> th_semantic_intent th"
    and "\<not> any_semantic th \<Longrightarrow> \<not> is_blocking (ev_negative e)"
  using assms
  by (auto simp: gather_evidence_def Let_def case_prod_beta gated_negative_def any_semantic_def is_blocking_def
      negative_evidence_default_def semantic_assessment_default_def)

text \<open>
  C37. Nothing but textual evidence makes a result relevant. A result judged relevant had enough text and
  contains a quoted phrase of the query, or no blocking counter-evidence and either strong lexical
  coverage or a detected intent whose subject or entity the text supports: provider rank, aliases and
  stems never suffice by themselves. With the semantic layers off, relevance is exactly enough text
  with a phrase or strong coverage.
\<close>

theorem relevant_rests_on_text:
  fixes q :: query and r :: deduplicated_result and th :: relevance_thresholds and api :: "url url_api"
    and uc :: unicode and path :: "url \<Rightarrow> rstr"
  defines "a \<equiv> assess_result uc api path q r th" and "e \<equiv> snd (gather_evidence uc api path q r th)"
  shows "(rra_classification a = Rc_Relevant \<longrightarrow>
      rra_had_sufficient_text a \<and> (rra_exact_phrase_match a \<or> (\<not> is_blocking (rra_negative_evidence a)
        \<and> (lexical_strong th e \<or> (rra_query_intent a \<noteq> None \<and> (rra_subject_match a \<or> rra_entity_match a))))))
    \<and> (\<not> any_semantic th \<longrightarrow>
      (rra_classification a = Rc_Relevant \<longleftrightarrow> rra_had_sufficient_text a \<and> (rra_exact_phrase_match a \<or> lexical_strong th e)))"
proof -
  obtain s where ge: "gather_evidence uc api path q r th = (s, e)" by (metis e_def prod.collapse)
  note gates = gather_evidence_gates [OF ge]
  have a: "rra_classification a = classify_relevance th e" "rra_had_sufficient_text a = ev_had_sufficient_text e"
    "rra_exact_phrase_match a = ev_exact_phrase_match e" "rra_negative_evidence a = ev_negative e"
    "rra_subject_match a = ev_subject_match e" "rra_entity_match a = ev_entity_match e"
    by (simp_all add: a_def assess_result_def ge)
  have intent: "ev_intent_active e \<Longrightarrow> rra_query_intent a \<noteq> None"
  proof -
    assume act: "ev_intent_active e"
    have "ev_intent_active e = (th_semantic_intent th \<and> sa_query_intent s \<noteq> None)"
      using ge by (auto simp: gather_evidence_def Let_def case_prod_beta)
    with act show "rra_query_intent a \<noteq> None" by (simp add: a_def assess_result_def ge)
  qed
  have sub: "strong_semantic_rescue e \<Longrightarrow> ev_subject_match e" by (simp add: strong_semantic_rescue_def)
  show ?thesis
  proof (rule conjI; rule impI)
    assume "rra_classification a = Rc_Relevant"
    then show "rra_had_sufficient_text a \<and> (rra_exact_phrase_match a \<or> (\<not> is_blocking (rra_negative_evidence a)
        \<and> (lexical_strong th e \<or> (rra_query_intent a \<noteq> None \<and> (rra_subject_match a \<or> rra_entity_match a)))))"
      unfolding a classify_relevant using gates(1) intent sub rescue_needs_match by blast
  next
    assume off: "\<not> any_semantic th"
    then have "\<not> ev_intent_active e" using gates(2) by (auto simp: any_semantic_def)
    then have "\<not> strong_semantic_rescue e" using gates(1) sub by blast
    with off gates(3) \<open>\<not> ev_intent_active e\<close>
    show "(rra_classification a = Rc_Relevant) = (rra_had_sufficient_text a \<and> (rra_exact_phrase_match a \<or> lexical_strong th e))"
      unfolding a classify_relevant by blast
  qed
qed

section \<open>The metrics partition the results of a role\<close>

abbreviation (input) judged :: "(deduplicated_result \<Rightarrow> result_relevance_assessment) \<Rightarrow> RelevanceClassification \<Rightarrow> deduplicated_result \<Rightarrow> bool" where
  "judged assess cls r \<equiv> rra_classification (assess r) = cls"

lemma relevance_fold:
  fixes assess :: "deduplicated_result \<Rightarrow> result_relevance_assessment" and roles :: role_assignment
  defines "p \<equiv> \<lambda>r. has_role roles r Primary" and "x \<equiv> \<lambda>r. has_role roles r Expansion"
  shows "foldl (relevance_step assess roles) relevance_counts_zero rs =
    \<lparr> rq_relevant_primary = wcount (\<lambda>r. p r \<and> judged assess Rc_Relevant r) rs,
      rq_relevant_expansion = wcount (\<lambda>r. x r \<and> judged assess Rc_Relevant r) rs,
      rq_unique_relevant_primary = wcount (\<lambda>r. p r \<and> \<not> x r \<and> judged assess Rc_Relevant r) rs,
      rq_unique_relevant_expansion = wcount (\<lambda>r. \<not> p r \<and> x r \<and> judged assess Rc_Relevant r) rs,
      rq_possibly_primary = wcount (\<lambda>r. p r \<and> judged assess Rc_PossiblyRelevant r) rs,
      rq_possibly_expansion = wcount (\<lambda>r. x r \<and> judged assess Rc_PossiblyRelevant r) rs,
      rq_not_primary = wcount (\<lambda>r. p r \<and> judged assess Rc_NotRelevant r) rs,
      rq_not_expansion = wcount (\<lambda>r. x r \<and> judged assess Rc_NotRelevant r) rs,
      rq_unknown_primary = wcount (\<lambda>r. p r \<and> judged assess Rc_Unknown r) rs,
      rq_unknown_expansion = wcount (\<lambda>r. x r \<and> judged assess Rc_Unknown r) rs,
      rq_excl_relevant = wcount (\<lambda>r. \<not> p r \<and> x r \<and> judged assess Rc_Relevant r) rs,
      rq_excl_not_relevant = wcount (\<lambda>r. \<not> p r \<and> x r \<and> judged assess Rc_NotRelevant r) rs,
      rq_assessable = wcount (\<lambda>r. (p r \<or> x r) \<and> rra_had_sufficient_text (assess r)) rs \<rparr>"
proof (induction rs rule: rev_induct)
  case Nil
  show ?case by (simp add: relevance_counts_zero_def)
next
  case (snoc r rs)
  then show ?case
    by (cases "p r"; cases "x r"; cases "rra_classification (assess r)"; cases "rra_had_sufficient_text (assess r)")
      (simp_all add: relevance_step_def Let_def count_primary_def count_expansion_def p_def x_def)
qed

lemma length_filter_classes:
  "length (filter P rs) = length (filter (\<lambda>r. P r \<and> judged assess Rc_Relevant r) rs)
     + length (filter (\<lambda>r. P r \<and> judged assess Rc_PossiblyRelevant r) rs)
     + length (filter (\<lambda>r. P r \<and> judged assess Rc_NotRelevant r) rs)
     + length (filter (\<lambda>r. P r \<and> judged assess Rc_Unknown r) rs)"
proof (induction rs)
  case (Cons r rs)
  then show ?case by (cases "P r"; cases "rra_classification (assess r)") simp_all
qed simp

lemma length_filter_mono: "(\<And>r. P r \<Longrightarrow> Q r) \<Longrightarrow> length (filter P rs) \<le> length (filter Q rs)"
  by (induction rs) auto

text \<open>
  The relevance metrics are a partition of the structural ones: with fewer than \<open>2 ^ 32\<close> results, the
  four verdicts of a role add up to the results found for it, the relevant results exclusive to the
  expansion are among its exclusive results, and the reported ratios and the noise rate are in the
  unit interval.
\<close>

theorem relevance_partition:
  assumes "length deduped < 2 ^ 32"
    and "compute_complementarity_metrics api deduped roles = Some m"
    and "assess_relevance uc api path q deduped roles m th = Some rm"
  shows "unat (cm_found_primary m) = unat (the (rm_relevant_primary rm)) + unat (the (rm_possibly_relevant_primary rm))
        + unat (the (rm_not_relevant_primary rm)) + unat (the (rm_unknown_primary rm))
    \<and> unat (cm_found_expansion m) = unat (the (rm_relevant_expansion rm)) + unat (the (rm_possibly_relevant_expansion rm))
        + unat (the (rm_not_relevant_expansion rm)) + unat (the (rm_unknown_expansion rm))
    \<and> unat (the (rm_unique_relevant_expansion rm)) \<le> unat (cm_unique_expansion m)
    \<and> list_all (pred_option in_unit) [rm_expansion_relevant_ratio rm, rm_raw_to_relevant_expansion_ratio rm,
        rm_expansion_confirmed_noise_rate rm]"
proof -
  let ?as = "\<lambda>r. assess_result uc api path q r th"
  let ?p = "\<lambda>r. has_role roles r Primary" and ?x = "\<lambda>r. has_role roles r Expansion"
  note un = unat_wcount [OF assms(1)]
  have act: "ra_active roles" using assms(2) by (simp add: compute_complementarity_metrics_def split: if_splits)
  have m: "cm_found_primary m = wcount ?p deduped" "cm_found_expansion m = wcount ?x deduped"
    "cm_unique_expansion m = wcount (\<lambda>r. \<not> ?p r \<and> ?x r) deduped"
    using assms(2) [symmetric] act by (simp_all add: compute_complementarity_metrics_def count_fold Let_def)
  have excl: "wcount (\<lambda>r. \<not> ?p r \<and> ?x r \<and> judged ?as Rc_Relevant r) deduped
      + wcount (\<lambda>r. \<not> ?p r \<and> ?x r \<and> judged ?as Rc_NotRelevant r) deduped
      = wcount (\<lambda>r. \<not> ?p r \<and> ?x r \<and> (judged ?as Rc_Relevant r \<or> judged ?as Rc_NotRelevant r)) deduped"
    by (induction deduped) auto
  have le: "unat (wcount (\<lambda>r. ?x r \<and> judged ?as Rc_Relevant r) deduped) \<le> unat (cm_found_expansion m)"
    "unat (wcount (\<lambda>r. \<not> ?p r \<and> ?x r \<and> judged ?as Rc_Relevant r) deduped) \<le> unat (cm_unique_expansion m)"
    "unat (wcount (\<lambda>r. \<not> ?p r \<and> ?x r \<and> judged ?as Rc_NotRelevant r) deduped)
      \<le> unat (wcount (\<lambda>r. \<not> ?p r \<and> ?x r \<and> (judged ?as Rc_Relevant r \<or> judged ?as Rc_NotRelevant r)) deduped)"
    unfolding m un by (rule length_filter_mono; blast)+
  have rm: "the (rm_relevant_primary rm) = wcount (\<lambda>r. ?p r \<and> judged ?as Rc_Relevant r) deduped"
    "the (rm_possibly_relevant_primary rm) = wcount (\<lambda>r. ?p r \<and> judged ?as Rc_PossiblyRelevant r) deduped"
    "the (rm_not_relevant_primary rm) = wcount (\<lambda>r. ?p r \<and> judged ?as Rc_NotRelevant r) deduped"
    "the (rm_unknown_primary rm) = wcount (\<lambda>r. ?p r \<and> judged ?as Rc_Unknown r) deduped"
    "the (rm_relevant_expansion rm) = wcount (\<lambda>r. ?x r \<and> judged ?as Rc_Relevant r) deduped"
    "the (rm_possibly_relevant_expansion rm) = wcount (\<lambda>r. ?x r \<and> judged ?as Rc_PossiblyRelevant r) deduped"
    "the (rm_not_relevant_expansion rm) = wcount (\<lambda>r. ?x r \<and> judged ?as Rc_NotRelevant r) deduped"
    "the (rm_unknown_expansion rm) = wcount (\<lambda>r. ?x r \<and> judged ?as Rc_Unknown r) deduped"
    "the (rm_unique_relevant_expansion rm) = wcount (\<lambda>r. \<not> ?p r \<and> ?x r \<and> judged ?as Rc_Relevant r) deduped"
    using assms(3) [symmetric] act by (simp_all add: assess_relevance_def relevance_fold Let_def)
  have "list_all (pred_option in_unit) [rm_expansion_relevant_ratio rm, rm_raw_to_relevant_expansion_ratio rm,
        rm_expansion_confirmed_noise_rate rm]"
    using assms(3) [symmetric] act le [THEN ratio_in_unit]
    by (simp add: assess_relevance_def relevance_fold Let_def excl)
  then show ?thesis
    using le(2) length_filter_classes [of ?p deduped ?as] length_filter_classes [of ?x deduped ?as]
    unfolding rm m un by blast
qed

section \<open>A vacuous capital\<close>

lemma contains_part: "contains_str s (a @ p @ b) \<Longrightarrow> contains_str s p"
  by (metis append.assoc contains_str_iff)

text \<open>
  A query for the capital of a one-character entity accepts every text: the entity has no term to
  look for, so the check that the text names its capital holds vacuously, and any result with two title
  words and no mention of a capital is judged relevant, with the default thresholds and whatever the
  query and the result have in common.
\<close>

theorem short_capital_accepts_everything:
  assumes "detect_intent uc q = Some (FactualCapital entity)" "subject_terms uc entity = []"
    and "dr_title r = Some title" "2 \<le> length (tokens uc title)" "dr_snippet r = None"
    and "\<not> contains_str (normalized_text uc title @ [32]) (lit ''capital'')"
  shows "rra_classification (assess_result uc api path q r relevance_thresholds_default) = Rc_Relevant"
proof -
  let ?th = relevance_thresholds_default
  let ?text = "normalized_text uc title @ [32]"
  have no: "\<not> contains_str ?text (lit ''capital of the province'')" "\<not> contains_str ?text (lit ''capital of the state'')"
    "\<not> contains_str ?text (lit ''is the capital'')"
    using contains_part [of ?text "[]" "lit ''capital''" "lit '' of the province''"]
      contains_part [of ?text "[]" "lit ''capital''" "lit '' of the state''"]
      contains_part [of ?text "lit ''is the ''" "lit ''capital''" "[]"] assms(6) by auto
  obtain s e where ge: "gather_evidence uc api path q r ?th = (s, e)" by fastforce
  have ev: "ev_had_sufficient_text e" "ev_intent_active e" "ev_intent_tag e = Some (lit ''factual_capital'')"
    "ev_entity_match e" "\<not> is_blocking (ev_negative e)"
    using ge assms(1-5) no
    by (auto simp: gather_evidence_def Let_def case_prod_beta relevance_thresholds_default_def any_semantic_def
        assess_semantics_def capital_evidence_def gated_negative_def is_blocking_def subject_evidence_def
        simp del: lit_simps)
  then have "intent_rescue_qualifies (ev_intent_tag e) (ev_subject_match e) (ev_entity_match e) (ev_alias_hits e) (ev_semantic_cov e)"
    by (simp add: intent_rescue_qualifies_def)
  with ev show ?thesis by (simp add: assess_result_def ge classify_relevant)
qed

section \<open>Instances\<close>

text \<open>On ASCII text the folding of the concrete parameters is lower-casing, which the simplifier evaluates.\<close>

lemma fold_char_ascii: "c < 128 \<Longrightarrow> fold_char ascii_unicode c = [ascii_lower c]"
  by (simp add: fold_char_def ascii_unicode_def)

lemma normalized_text_ascii:
  "list_all (\<lambda>c. c < 128) s \<Longrightarrow> normalized_text ascii_unicode s = collapse_whitespace (map ascii_lower s)"
proof -
  assume "list_all (\<lambda>c. c < 128) s"
  then have "map (fold_char ascii_unicode) s = map (\<lambda>c. [ascii_lower c]) s"
    by (simp add: list_all_iff fold_char_ascii)
  then have "concat (map (fold_char ascii_unicode) s) = map ascii_lower s" by (simp only: concat_map_singleton)
  moreover have "uc_nfkc ascii_unicode s = s" by (simp add: ascii_unicode_def)
  ultimately show ?thesis by (simp add: normalized_text_def)
qed

lemma is_alnum_ascii: "uc_is_alphanumeric ascii_unicode = is_ascii_alphanumeric" by (simp add: ascii_unicode_def)


lemmas ascii_eval = normalized_text_ascii is_alnum_ascii collapse_whitespace_def rstr_simps

definition capital_query :: query where
  "capital_query = sample_query\<lparr> q_normalized_query := lit ''capital of x'' \<rparr>"

definition flights_result :: deduplicated_result where
  "flights_result = (sample_dedup (lit ''https://a.b/''))\<lparr> dr_title := Some (lit ''cheap flights'') \<rparr>"

theorem short_capital_accepts_everything_witness:
  "rra_classification (assess_result ascii_unicode sample_api (\<lambda>_. []) capital_query flights_result
     relevance_thresholds_default) = Rc_Relevant"
proof (rule short_capital_accepts_everything)
  show "detect_intent ascii_unicode capital_query = Some (FactualCapital (lit ''x''))"
    by (simp add: detect_intent_def capital_intent_def capital_query_def sample_query_def find_rest_def
        clean_subject_def ascii_eval)
  show "subject_terms ascii_unicode (lit ''x'') = []"
    by (simp add: subject_terms_def tokens_def alnum_pieces_def ascii_eval bs_collect_def)
  show "dr_title flights_result = Some (lit ''cheap flights'')" "dr_snippet flights_result = None"
    by (simp_all add: flights_result_def sample_dedup_def del: lit_simps)
  show "2 \<le> length (tokens ascii_unicode (lit ''cheap flights''))"
    by (simp add: tokens_def alnum_pieces_def ascii_eval bs_collect_def)
  show "\<not> contains_str (normalized_text ascii_unicode (lit ''cheap flights'') @ [32]) (lit ''capital'')"
    by (simp add: ascii_eval)
qed

definition rust_query :: query where
  "rust_query = sample_query\<lparr> q_normalized_query := lit ''rust'', q_quoted_terms := [lit ''rust borrow''] \<rparr>"

definition rust_result :: deduplicated_result where
  "rust_result = (sample_dedup (lit ''https://a.b/''))\<lparr> dr_title := Some (lit ''rust borrow checker'') \<rparr>"

lemma rust_relevant:
  "rra_classification (assess_result ascii_unicode sample_api (\<lambda>_. []) rust_query rust_result lexical_only) = Rc_Relevant"
proof -
  let ?e = "snd (gather_evidence ascii_unicode sample_api (\<lambda>_. []) rust_query rust_result lexical_only)"
  have "ev_exact_phrase_match ?e"
    by (simp add: gather_evidence_def Let_def case_prod_beta quoted_phrases_def rust_query_def rust_result_def ascii_eval)
  moreover have "ev_had_sufficient_text ?e"
    by (simp add: gather_evidence_def Let_def case_prod_beta rust_result_def tokens_def alnum_pieces_def ascii_eval
        bs_collect_def lexical_only_def relevance_thresholds_default_def sample_dedup_def)
  ultimately show ?thesis by (simp add: assess_result_def case_prod_beta classify_relevant)
qed

theorem relevant_rests_on_text_witness:
  "rra_had_sufficient_text (assess_result ascii_unicode sample_api (\<lambda>_. []) rust_query rust_result lexical_only)
   \<and> (rra_exact_phrase_match (assess_result ascii_unicode sample_api (\<lambda>_. []) rust_query rust_result lexical_only)
      \<or> lexical_strong lexical_only (snd (gather_evidence ascii_unicode sample_api (\<lambda>_. []) rust_query rust_result lexical_only)))"
proof -
  have "\<not> any_semantic lexical_only" by (simp add: lexical_only_def any_semantic_def)
  with rust_relevant show ?thesis
    using relevant_rests_on_text [of ascii_unicode sample_api "\<lambda>_. []" rust_query rust_result lexical_only] by blast
qed

theorem relevance_partition_witness:
  "case compute_complementarity_metrics sample_api [rust_result] sample_roles of None \<Rightarrow> False
   | Some m \<Rightarrow> (case assess_relevance ascii_unicode sample_api (\<lambda>_. []) rust_query [rust_result] sample_roles m lexical_only of
       None \<Rightarrow> False
     | Some rm \<Rightarrow> unat (cm_found_primary m) = unat (the (rm_relevant_primary rm)) + unat (the (rm_possibly_relevant_primary rm))
        + unat (the (rm_not_relevant_primary rm)) + unat (the (rm_unknown_primary rm)))"
proof -
  have act: "ra_active sample_roles" by (simp add: sample_roles_def primary_expansion_def)
  then obtain m where m: "compute_complementarity_metrics sample_api [rust_result] sample_roles = Some m"
    by (simp add: compute_complementarity_metrics_def Let_def)
  obtain rm where rm: "assess_relevance ascii_unicode sample_api (\<lambda>_. []) rust_query [rust_result] sample_roles m lexical_only = Some rm"
    using act by (simp add: assess_relevance_def Let_def)
  show ?thesis
    using relevance_partition [OF _ m rm] by (simp add: m rm)
qed


end
