(* ===== verification/Fanout.thy ===== *)
theory Fanout
  imports Router Optics
begin

text \<open>
  The provider fan-out of \<^verbatim>\<open>execution.rs\<close>: the orchestrator and its builders, the retry loop of one
  provider call with its backoff and jitter, and \<open>execute_parallel\<close>, which runs one task per selected
  provider and accounts for every one of them. What the runtime decides is an argument: when permits
  arrive, what \<open>provider.search\<close> answers at each attempt, the clock readings, and the order in which the
  tasks are joined. A task that panics is the value None, as \<open>JoinSet\<close> reports it.
\<close>

section \<open>Providers and the orchestrator\<close>

datatype ProviderAvailability = Av_Available | Av_Unavailable rstr rstr

record provider =
  po_name :: rstr
  po_capabilities :: provider_capabilities
  po_availability :: ProviderAvailability

record orchestrator =
  os_budget :: budget
  os_provider_timeout_ms :: u64
  os_global_concurrency :: nat
  os_per_provider_concurrency :: nat
  os_max_retries :: u32
  os_retry_jitter_ms :: u64
  os_ranking_policy :: ranking_policy
  os_diversity_policy :: diversity_policy
  os_optics :: "optics_document option"
  os_search_policy :: search_policy
  os_role_assignment :: role_assignment
  os_telemetry :: telemetry
  os_routing_trace :: "round_trace list"
  os_last_plan :: "search_plan option"
  os_request_id :: "rstr option"

definition orchestrator_new :: "budget \<Rightarrow> u64 \<Rightarrow> orchestrator" where
  "orchestrator_new b timeout_ms =
     \<lparr> os_budget = b, os_provider_timeout_ms = timeout_ms, os_global_concurrency = 4,
       os_per_provider_concurrency = 1, os_max_retries = 1, os_retry_jitter_ms = 25,
       os_ranking_policy = ranking_policy_default, os_diversity_policy = diversity_policy_default,
       os_optics = None, os_search_policy = search_policy_default, os_role_assignment = legacy,
       os_telemetry = telemetry_new, os_routing_trace = [], os_last_plan = None, os_request_id = None \<rparr>"

definition with_execution_limits :: "nat \<Rightarrow> nat \<Rightarrow> u32 \<Rightarrow> u64 \<Rightarrow> orchestrator \<Rightarrow> orchestrator" where
  "with_execution_limits global per_provider retries jitter os =
     os\<lparr> os_global_concurrency := max global 1, os_per_provider_concurrency := max per_provider 1,
        os_max_retries := min retries 2, os_retry_jitter_ms := jitter \<rparr>"

definition with_role_assignment :: "role_assignment \<Rightarrow> orchestrator \<Rightarrow> orchestrator" where
  "with_role_assignment roles os = os\<lparr> os_role_assignment := roles \<rparr>"

definition with_telemetry :: "telemetry \<Rightarrow> orchestrator \<Rightarrow> orchestrator" where
  "with_telemetry t os = os\<lparr> os_telemetry := t \<rparr>"

definition with_request_id :: "rstr option \<Rightarrow> orchestrator \<Rightarrow> orchestrator" where
  "with_request_id rid os = os\<lparr> os_request_id := rid \<rparr>"

definition with_search_policy :: "search_policy \<Rightarrow> orchestrator \<Rightarrow> orchestrator" where
  "with_search_policy p os = (if is_ok (search_policy_validate p) then os\<lparr> os_search_policy := p \<rparr> else os)"

definition with_result_policies :: "ranking_policy \<Rightarrow> diversity_policy \<Rightarrow> orchestrator \<Rightarrow> orchestrator" where
  "with_result_policies rp dp os =
     (if is_ok (ranking_policy_validate rp) \<and> is_ok (diversity_policy_validate dp)
      then os\<lparr> os_ranking_policy := rp, os_diversity_policy := dp \<rparr> else os)"

definition with_optics :: "optics_document option \<Rightarrow> orchestrator \<Rightarrow> orchestrator" where
  "with_optics document os = os\<lparr> os_optics := document \<rparr>"

section \<open>One provider call\<close>

text \<open>What \<open>tokio::time::timeout\<close> around \<open>provider.search\<close> yields at one attempt.\<close>

datatype provider_reply = Answered "provider_error + provider_result" | Elapsed | Panicked

record call_env =
  ca_permits :: bool
  ca_remaining_ns :: "nat \<Rightarrow> nat"
  ca_reply :: "nat \<Rightarrow> provider_reply"
  ca_left_ns :: "nat \<Rightarrow> int"
  ca_subsec_nanos :: "nat \<Rightarrow> u64"
  ca_counter :: "nat \<Rightarrow> u64"
  ca_latency_ms :: u64
  ca_observed_at :: i64

fun is_recoverable :: "ProviderErrorKind \<Rightarrow> bool" where
  "is_recoverable Pe_Timeout = True"
| "is_recoverable Pe_RateLimit = True"
| "is_recoverable Pe_Network = True"
| "is_recoverable Pe_Unavailable = True"
| "is_recoverable _ = False"

fun error_kind_code :: "ProviderErrorKind \<Rightarrow> string" where
  "error_kind_code Pe_Timeout = ''provider_timeout''"
| "error_kind_code Pe_RateLimit = ''provider_rate_limit''"
| "error_kind_code Pe_Auth = ''provider_auth''"
| "error_kind_code Pe_Network = ''provider_network''"
| "error_kind_code Pe_InvalidResponse = ''provider_invalid_response''"
| "error_kind_code Pe_ParserError = ''provider_parser_error''"
| "error_kind_code Pe_Quota = ''provider_quota''"
| "error_kind_code Pe_Unavailable = ''provider_unavailable''"

definition composite_error_of :: "provider_error \<Rightarrow> composite_error" where
  "composite_error_of e =
     \<lparr> ce_code = lit (error_kind_code (pe_kind e)), ce_message = pe_message e,
       ce_providers = [pe_provider e], ce_recoverable = is_recoverable (pe_kind e) \<rparr>"

definition timeout_error :: "rstr \<Rightarrow> string \<Rightarrow> provider_error" where
  "timeout_error name message =
     \<lparr> pe_schema_version = SCHEMA_VERSION, pe_provider = name, pe_kind = Pe_Timeout,
       pe_message = lit message, pe_retry_after_ms = None \<rparr>"

definition provider_mix :: "rstr \<Rightarrow> u64" where
  "provider_mix name = foldl (\<lambda>state byte. xor (word_rotl 5 state) (of_nat byte)) 0 (as_bytes name)"

text \<open>\<open>maximum_ms + 1\<close> overflows at the largest value, and the remainder by zero panics.\<close>

definition retry_jitter :: "rstr \<Rightarrow> nat \<Rightarrow> u64 \<Rightarrow> call_env \<Rightarrow> u64 option" where
  "retry_jitter name attempt maximum_ms env =
     (if maximum_ms = 0 then Some 0
      else if maximum_ms + 1 = 0 then None
      else Some (xor (xor (xor (ca_subsec_nanos env attempt) (provider_mix name)) (of_nat attempt))
                  (ca_counter env attempt) mod (maximum_ms + 1)))"

definition attempt_reply :: "rstr \<Rightarrow> u64 \<Rightarrow> call_env \<Rightarrow> nat \<Rightarrow> (provider_error + provider_result) option" where
  "attempt_reply name timeout_ms env k =
     (if min (unat timeout_ms * 1000000) (ca_remaining_ns env k) = 0
      then Some (Err (timeout_error name ''provider deadline exceeded''))
      else case ca_reply env k of
          Answered r \<Rightarrow> Some r
        | Elapsed \<Rightarrow> Some (Err (timeout_error name ''provider deadline exceeded''))
        | Panicked \<Rightarrow> None)"

definition retry_delay :: "provider_error + provider_result \<Rightarrow> u64 option" where
  "retry_delay r =
     (case r of
        Ok _ \<Rightarrow> None
      | Err e \<Rightarrow> if is_recoverable (pe_kind e)
          then Some (case pe_retry_after_ms e of None \<Rightarrow> 50 | Some d \<Rightarrow> d) else None)"

definition backoff_ms :: "u64 \<Rightarrow> nat \<Rightarrow> u64 \<Rightarrow> u64" where
  "backoff_ms delay attempt jitter =
     saturating_add (saturating_mul delay (push_bit (attempt - 1) 1)) jitter"

function retry_loop ::
    "rstr \<Rightarrow> u64 \<Rightarrow> u32 \<Rightarrow> u64 \<Rightarrow> call_env \<Rightarrow> nat \<Rightarrow> (provider_error + provider_result) option" where
  "retry_loop name timeout_ms max_retries jitter_max env attempt =
     (case attempt_reply name timeout_ms env attempt of
        None \<Rightarrow> None
      | Some r \<Rightarrow>
          (case retry_delay r of
             None \<Rightarrow> Some r
           | Some delay \<Rightarrow>
               if unat max_retries \<le> attempt then Some r
               else (case retry_jitter name (attempt + 1) jitter_max env of
                   None \<Rightarrow> None
                 | Some jitter \<Rightarrow>
                     if ca_left_ns env attempt \<le> int (unat (backoff_ms delay (attempt + 1) jitter)) * 1000000
                     then Some r
                     else retry_loop name timeout_ms max_retries jitter_max env (attempt + 1))))"
  by pat_completeness auto
termination by (relation "measure (\<lambda>(_, _, m, _, _, k). unat m - k)") auto

declare retry_loop.simps [simp del]

section \<open>The fan-out of a round\<close>

record finished_task =
  ft_name :: rstr
  ft_reply :: "provider_error + provider_result"
  ft_latency_ms :: u64
  ft_category :: Category
  ft_estimated_cost :: "u64 option"
  ft_observed_at :: i64

record parallel_output =
  px_provider_results :: "provider_result list"
  px_providers_used :: "rstr list"
  px_providers_failed :: "rstr list"
  px_providers_partial :: "rstr list"
  px_errors :: "provider_error list"
  px_elapsed_ms :: u64
  px_budget_remaining :: budget_snapshot
  px_observations :: "telemetry_observation list"

text \<open>
  The environment of one fan-out: the call environment of the task at each position of the plan, and the
  order in which \<open>join_next\<close> hands the finished tasks out.
\<close>

record parallel_env =
  pv_call :: "nat \<Rightarrow> call_env"
  pv_order :: "finished_task option list \<Rightarrow> finished_task option list"
  pv_elapsed_ms :: u64

definition empty_parallel_output :: "budget_snapshot \<Rightarrow> parallel_output" where
  "empty_parallel_output b =
     \<lparr> px_provider_results = [], px_providers_used = [], px_providers_failed = [], px_providers_partial = [],
       px_errors = [], px_elapsed_ms = 0, px_budget_remaining = b, px_observations = [] \<rparr>"

definition provider_task :: "orchestrator \<Rightarrow> search_plan \<Rightarrow> rstr \<Rightarrow> provider \<Rightarrow> call_env \<Rightarrow> finished_task option" where
  "provider_task os plan name p env =
     (let timeout_ms = min (os_provider_timeout_ms os) (gb_deadline_ms (sp_global_budget plan));
          outcome = (if \<not> ca_permits env
            then Some (Err (timeout_error name ''provider concurrency deadline exceeded''))
            else retry_loop name timeout_ms (os_max_retries os) (os_retry_jitter_ms os) env 0)
      in map_option (\<lambda>r. \<lparr> ft_name = name, ft_reply = r, ft_latency_ms = ca_latency_ms env,
            ft_category = cl_primary_category (sp_classification plan),
            ft_estimated_cost = cap_estimated_cost (po_capabilities p),
            ft_observed_at = ca_observed_at env \<rparr>) outcome)"

definition task_observation :: "orchestrator \<Rightarrow> finished_task \<Rightarrow> telemetry_observation" where
  "task_observation os t =
     from_provider_result (ft_observed_at t)
       \<lparr> ti_provider = ft_name t, ti_category = ft_category t, ti_latency_ms = ft_latency_ms t,
         ti_total_results = (case ft_reply t of Ok r \<Rightarrow> length (pr_results r) | Err _ \<Rightarrow> 0),
         ti_unique_results = (case ft_reply t of Ok r \<Rightarrow> length (bs_collect (map pi_url (pr_results r))) | Err _ \<Rightarrow> 0),
         ti_error = (case ft_reply t of
             Ok r \<Rightarrow> (case pr_errors r of [] \<Rightarrow> None | e # _ \<Rightarrow> Some (pe_kind e))
           | Err e \<Rightarrow> Some (pe_kind e)),
         ti_partial = (case ft_reply t of Ok r \<Rightarrow> pr_status r = Exec_Partial | Err _ \<Rightarrow> False),
         ti_estimated_cost = ft_estimated_cost t, ti_request_id = os_request_id os \<rparr>"

definition join_step :: "orchestrator \<Rightarrow> parallel_output \<Rightarrow> finished_task option \<Rightarrow> parallel_output" where
  "join_step os out joined =
     (case joined of
        None \<Rightarrow> out
      | Some t \<Rightarrow>
          let seen = out\<lparr> px_observations := px_observations out @ [task_observation os t] \<rparr> in
          (case ft_reply t of
             Ok r \<Rightarrow> seen\<lparr> px_providers_used := px_providers_used out @ [ft_name t],
                 px_providers_partial := px_providers_partial out @ (if pr_status r = Exec_Partial then [ft_name t] else []),
                 px_errors := px_errors out @ pr_errors r,
                 px_provider_results := px_provider_results out @ [r] \<rparr>
           | Err e \<Rightarrow> seen\<lparr> px_providers_failed := px_providers_failed out @ [ft_name t],
                 px_errors := px_errors out @ [e] \<rparr>))"

definition spawn_tasks :: "orchestrator \<Rightarrow> search_plan \<Rightarrow> provider list \<Rightarrow> parallel_env \<Rightarrow> finished_task option list" where
  "spawn_tasks os plan providers env =
     (let by_name = bt_collect (map (\<lambda>p. (po_name p, p)) providers)
      in List.map_filter (\<lambda>(i, name). map_option (\<lambda>p. provider_task os plan name p (pv_call env i)) (bt_get by_name name))
           (zip [0..<length (sp_selected_providers plan)] (sp_selected_providers plan)))"

definition execute_parallel :: "orchestrator \<Rightarrow> search_plan \<Rightarrow> provider list \<Rightarrow> parallel_env \<Rightarrow> parallel_output" where
  "execute_parallel os plan providers env =
     (let selected = bs_collect (sp_selected_providers plan);
          out = foldl (join_step os) (empty_parallel_output (snapshot (os_budget os)))
                  (pv_order env (spawn_tasks os plan providers env));
          missing = filter (\<lambda>n. n \<notin> set (px_providers_used out @ px_providers_failed out)) selected
      in out\<lparr> px_providers_used := sort (px_providers_used out),
              px_providers_failed := sort (px_providers_failed out @ missing),
              px_providers_partial := sort (px_providers_partial out),
              px_elapsed_ms := pv_elapsed_ms env \<rparr>)"

text \<open>\<open>Vec::dedup\<close> after a sort.\<close>

definition merge_parallel_output :: "parallel_output \<Rightarrow> parallel_output \<Rightarrow> parallel_output" where
  "merge_parallel_output target source =
     \<lparr> px_provider_results = px_provider_results target @ px_provider_results source,
       px_providers_used = remdups_adj (sort (px_providers_used target @ px_providers_used source)),
       px_providers_failed = remdups_adj (sort (px_providers_failed target @ px_providers_failed source)),
       px_providers_partial = remdups_adj (sort (px_providers_partial target @ px_providers_partial source)),
       px_errors = px_errors target @ px_errors source,
       px_elapsed_ms = saturating_add (px_elapsed_ms target) (px_elapsed_ms source),
       px_budget_remaining = px_budget_remaining source,
       px_observations = px_observations target @ px_observations source \<rparr>"

section \<open>The retry contract\<close>

definition retried_at :: "rstr \<Rightarrow> u64 \<Rightarrow> call_env \<Rightarrow> nat \<Rightarrow> bool" where
  "retried_at name timeout_ms env k \<longleftrightarrow>
     (case attempt_reply name timeout_ms env k of Some r \<Rightarrow> retry_delay r \<noteq> None | None \<Rightarrow> False)"

text \<open>Why a recoverable failure is handed on: the retries are used up, or the backoff reaches the deadline.\<close>

definition gives_up :: "rstr \<Rightarrow> u32 \<Rightarrow> u64 \<Rightarrow> call_env \<Rightarrow> nat \<Rightarrow> u64 \<Rightarrow> bool" where
  "gives_up name max_retries jitter_max env k delay \<longleftrightarrow>
     k = unat max_retries
     \<or> (case retry_jitter name (k + 1) jitter_max env of None \<Rightarrow> False
        | Some jitter \<Rightarrow> ca_left_ns env k \<le> int (unat (backoff_ms delay (k + 1) jitter)) * 1000000)"

lemma retry_loop_from:
  assumes "k0 \<le> unat m"
  shows "case retry_loop name t m j env k0 of
      Some r \<Rightarrow> \<exists>k. k0 \<le> k \<and> k \<le> unat m \<and> attempt_reply name t env k = Some r
        \<and> (\<forall>i. k0 \<le> i \<and> i < k \<longrightarrow> retried_at name t env i)
        \<and> (\<forall>d. retry_delay r = Some d \<longrightarrow> gives_up name m j env k d)
    | None \<Rightarrow> j + 1 = 0 \<or> (\<exists>k. k0 \<le> k \<and> k \<le> unat m \<and> attempt_reply name t env k = None)"
  using assms
proof (induction "unat m - k0" arbitrary: k0 rule: less_induct)
  case less
  let ?here = "retry_loop name t m j env k0"
  show ?case
  proof (cases "attempt_reply name t env k0")
    case None
    then have "?here = None" by (simp add: retry_loop.simps)
    with None less.prems show ?thesis by (auto simp: split: option.splits)
  next
    case (Some r)
    have stop: ?thesis if "?here = Some r" "\<forall>d. retry_delay r = Some d \<longrightarrow> gives_up name m j env k0 d"
      using that Some less.prems by auto
    show ?thesis
    proof (cases "retry_delay r")
      case None
      with Some show ?thesis by (intro stop) (simp_all add: retry_loop.simps)
    next
      case d: (Some delay)
      then have here: "retried_at name t env k0" using Some by (simp add: retried_at_def)
      show ?thesis
      proof (cases "unat m \<le> k0")
        case True
        with Some d less.prems show ?thesis by (intro stop) (simp_all add: retry_loop.simps gives_up_def)
      next
        case more: False
        show ?thesis
        proof (cases "retry_jitter name (k0 + 1) j env")
          case None
          then have "j + 1 = 0" by (simp add: retry_jitter_def split: if_splits)
          moreover have "?here = None" using Some d more None by (simp add: retry_loop.simps)
          ultimately show ?thesis by simp
        next
          case jit: (Some jitter)
          show ?thesis
          proof (cases "ca_left_ns env k0 \<le> int (unat (backoff_ms delay (k0 + 1) jitter)) * 1000000")
            case True
            with Some d more jit show ?thesis by (intro stop) (simp_all add: retry_loop.simps gives_up_def)
          next
            case False
            have step: "?here = retry_loop name t m j env (k0 + 1)"
              using Some d more jit False by (simp add: retry_loop.simps [of _ _ _ _ _ k0])
            have shorter: "unat m - (k0 + 1) < unat m - k0" "k0 + 1 \<le> unat m" using more by auto
            note IH = less.hyps [OF shorter]
            show ?thesis
            proof (cases "retry_loop name t m j env (k0 + 1)")
              case None
              with IH more have "j + 1 = 0 \<or> (\<exists>k. k0 + 1 \<le> k \<and> k \<le> unat m \<and> attempt_reply name t env k = None)"
                by simp
              with None step show ?thesis by (auto dest: Suc_leD)
            next
              case (Some r')
              with IH more obtain k where k: "k0 + 1 \<le> k" "k \<le> unat m" "attempt_reply name t env k = Some r'"
                "\<forall>i. k0 + 1 \<le> i \<and> i < k \<longrightarrow> retried_at name t env i"
                "\<forall>d. retry_delay r' = Some d \<longrightarrow> gives_up name m j env k d" by auto
              have "retried_at name t env i" if "k0 \<le> i" "i < k" for i
                using that here k(4) by (cases "i = k0") auto
              with k Some step show ?thesis by (auto intro!: exI [of _ k])
            qed
          qed
        qed
      qed
    qed
  qed
qed


section \<open>Every selected provider is accounted for\<close>

definition joins_all :: "parallel_env \<Rightarrow> bool" where
  "joins_all env \<longleftrightarrow> (\<forall>ts. mset (pv_order env ts) = mset ts)"

abbreviation finished :: "finished_task option list \<Rightarrow> finished_task list" where
  "finished ts \<equiv> List.map_filter id ts"

abbreviation succeeded :: "finished_task \<Rightarrow> bool" where
  "succeeded t \<equiv> is_ok (ft_reply t)"

lemma join_step_simps:
  "join_step os out None = out"
  "ft_reply t = Ok r \<Longrightarrow> join_step os out (Some t) =
     out\<lparr> px_observations := px_observations out @ [task_observation os t],
         px_providers_used := px_providers_used out @ [ft_name t],
         px_providers_partial := px_providers_partial out @ (if pr_status r = Exec_Partial then [ft_name t] else []),
         px_errors := px_errors out @ pr_errors r, px_provider_results := px_provider_results out @ [r] \<rparr>"
  "ft_reply t = Err e \<Longrightarrow> join_step os out (Some t) =
     out\<lparr> px_observations := px_observations out @ [task_observation os t],
         px_providers_failed := px_providers_failed out @ [ft_name t], px_errors := px_errors out @ [e] \<rparr>"
  by (simp_all add: join_step_def Let_def)

lemma join_fold:
  "px_providers_used (foldl (join_step os) out ts) = px_providers_used out @ map ft_name (filter succeeded (finished ts))
   \<and> px_providers_failed (foldl (join_step os) out ts)
       = px_providers_failed out @ map ft_name (filter (\<lambda>t. \<not> succeeded t) (finished ts))
   \<and> px_observations (foldl (join_step os) out ts) = px_observations out @ map (task_observation os) (finished ts)
   \<and> length (px_provider_results (foldl (join_step os) out ts))
       = length (px_provider_results out) + length (filter succeeded (finished ts))"
proof (induction ts arbitrary: out)
  case (Cons t ts)
  show ?case
  proof (cases t)
    case (Some u)
    then show ?thesis
      by (cases "ft_reply u") (simp_all add: Cons.IH join_step_simps map_filter_simps)
  qed (simp add: Cons.IH join_step_simps map_filter_simps)
qed (simp add: map_filter_simps)

lemma join_partial:
  "set (px_providers_partial out) \<subseteq> set (px_providers_used out) \<Longrightarrow>
   set (px_providers_partial (foldl (join_step os) out ts)) \<subseteq> set (px_providers_used (foldl (join_step os) out ts))"
proof (induction ts arbitrary: out)
  case (Cons t ts)
  have "set (px_providers_partial (join_step os out t)) \<subseteq> set (px_providers_used (join_step os out t))"
    using Cons.prems by (auto simp: join_step_def Let_def split: option.splits sum.splits)
  then show ?case using Cons.IH by simp
qed simp

lemma finished_perm: "mset xs = mset ys \<Longrightarrow> mset (finished xs) = mset (finished ys)"
  by (simp add: List.map_filter_def)

lemma spawn_names:
  assumes "distinct (sp_selected_providers plan)"
  shows "distinct (map ft_name (finished (spawn_tasks os plan providers env)))
    \<and> set (map ft_name (finished (spawn_tasks os plan providers env))) \<subseteq> set (sp_selected_providers plan)"
proof -
  let ?sel = "sp_selected_providers plan"
  have task: "provider_task os plan n p e = Some t \<Longrightarrow> ft_name t = n" for n p e t
    by (auto simp: provider_task_def Let_def)
  let ?f = "\<lambda>(i, n). map_option (\<lambda>p. provider_task os plan n p (pv_call env i))
     (bt_get (bt_collect (map (\<lambda>p. (po_name p, p)) providers)) n)"
  have "distinct (map ft_name (finished (List.map_filter ?f xs)))
      \<and> set (map ft_name (finished (List.map_filter ?f xs))) \<subseteq> set (map snd xs)" if "distinct (map snd xs)" for xs
    using that
  proof (induction xs)
    case (Cons x xs)
    then show ?case
      by (cases "?f x") (auto simp: map_filter_simps dest!: task split: prod.splits option.splits)
  qed (simp add: map_filter_simps)
  from this [of "zip [0..<length ?sel] ?sel"] assms show ?thesis
    by (simp add: spawn_tasks_def Let_def)
qed

text \<open>The outcome of the fan-out before its lists are sorted and the missing providers are added.\<close>

definition joined_output :: "orchestrator \<Rightarrow> search_plan \<Rightarrow> provider list \<Rightarrow> parallel_env \<Rightarrow> parallel_output" where
  "joined_output os plan providers env =
     foldl (join_step os) (empty_parallel_output (snapshot (os_budget os))) (pv_order env (spawn_tasks os plan providers env))"

lemma execute_parallel_joined:
  "execute_parallel os plan providers env =
     (let out = joined_output os plan providers env
      in out\<lparr> px_providers_used := sort (px_providers_used out),
             px_providers_failed := sort (px_providers_failed out @ filter (\<lambda>n. n \<notin> set (px_providers_used out @ px_providers_failed out))
               (bs_collect (sp_selected_providers plan))),
             px_providers_partial := sort (px_providers_partial out), px_elapsed_ms := pv_elapsed_ms env \<rparr>)"
  by (simp add: execute_parallel_def joined_output_def Let_def)

lemma joined_output_facts:
  assumes "joins_all env"
  shows "mset (px_providers_used (joined_output os plan providers env) @ px_providers_failed (joined_output os plan providers env))
      = mset (map ft_name (finished (spawn_tasks os plan providers env)))"
    and "length (px_observations (joined_output os plan providers env)) = length (finished (spawn_tasks os plan providers env))"
    and "length (px_provider_results (joined_output os plan providers env)) = length (px_providers_used (joined_output os plan providers env))"
proof -
  let ?spawned = "spawn_tasks os plan providers env"
  define mid where "mid = joined_output os plan providers env"
  have fin: "mset (finished (pv_order env ?spawned)) = mset (finished ?spawned)"
    using assms by (intro finished_perm) (simp add: joins_all_def)
  have mid: "px_providers_used mid = map ft_name (filter succeeded (finished (pv_order env ?spawned)))"
    "px_providers_failed mid = map ft_name (filter (\<lambda>t. \<not> succeeded t) (finished (pv_order env ?spawned)))"
    "length (px_observations mid) = length (finished (pv_order env ?spawned))"
    "length (px_provider_results mid) = length (px_providers_used mid)"
    by (simp_all add: mid_def joined_output_def join_fold empty_parallel_output_def)
  have "mset (px_providers_used mid @ px_providers_failed mid)
      = image_mset ft_name (mset (filter succeeded (finished (pv_order env ?spawned)))
      + mset (filter (\<lambda>t. \<not> succeeded t) (finished (pv_order env ?spawned))))"
    unfolding mid(1,2) mset_append mset_map image_mset_union ..
  then have "mset (px_providers_used mid @ px_providers_failed mid) = image_mset ft_name (mset (finished (pv_order env ?spawned)))"
    unfolding mset_filter multiset_partition [of "mset (finished (pv_order env ?spawned))" succeeded, symmetric] .
  then show "mset (px_providers_used (joined_output os plan providers env) @ px_providers_failed (joined_output os plan providers env))
      = mset (map ft_name (finished ?spawned))"
    by (simp add: fin mid_def)
  show "length (px_observations (joined_output os plan providers env)) = length (finished ?spawned)"
    using mid(3) mset_eq_length [OF fin] by (simp add: mid_def)
  show "length (px_provider_results (joined_output os plan providers env)) = length (px_providers_used (joined_output os plan providers env))"
    using mid(4) by (simp add: mid_def)
qed

lemma fanout_partition:
  assumes "joins_all env" "distinct (sp_selected_providers plan)"
  shows "mset (px_providers_used (execute_parallel os plan providers env) @ px_providers_failed (execute_parallel os plan providers env))
    = mset (sp_selected_providers plan)"
proof -
  let ?sel = "sp_selected_providers plan"
  define mid where "mid = joined_output os plan providers env"
  let ?done = "px_providers_used mid @ px_providers_failed mid"
  note names = joined_output_facts(1) [OF assms(1), of os plan providers, folded mid_def]
  have once: "distinct ?done" "set ?done \<subseteq> set ?sel"
    using spawn_names [OF assms(2), of os providers env] mset_eq_imp_distinct_iff [OF names] mset_eq_setD [OF names]
    by auto
  have "mset ?done + mset (filter (\<lambda>n. n \<notin> set ?done) (bs_collect ?sel))
      = mset (?done @ filter (\<lambda>n. n \<notin> set ?done) (bs_collect ?sel))" by simp
  also have "\<dots> = mset ?sel"
    using once assms(2) by (subst set_eq_iff_mset_eq_distinct [symmetric]) (auto simp: bs_collect_def)
  finally show ?thesis
    unfolding execute_parallel_joined Let_def by (simp add: ac_simps flip: mid_def)
qed

text \<open>
  A fan-out accounts for every selected provider exactly once: the used and the failed providers, each
  list in order, are together the selected ones, whether a provider answered, failed, panicked or was
  never registered; each used provider contributed one result, the partial ones are among the used ones,
  and each finished call left one observation.
\<close>

theorem fanout_accounts:
  fixes os :: orchestrator and plan :: search_plan and providers :: "provider list" and env :: parallel_env
  defines "out \<equiv> execute_parallel os plan providers env"
  assumes "joins_all env" "distinct (sp_selected_providers plan)"
  shows "mset (px_providers_used out @ px_providers_failed out) = mset (sp_selected_providers plan)
    \<and> sorted (px_providers_used out) \<and> sorted (px_providers_failed out)
    \<and> set (px_providers_partial out) \<subseteq> set (px_providers_used out)
    \<and> length (px_provider_results out) = length (px_providers_used out)
    \<and> length (px_observations out) = length (finished (spawn_tasks os plan providers env))
    \<and> px_budget_remaining out = snapshot (os_budget os)"
proof -
  let ?mid = "joined_output os plan providers env"
  have "px_budget_remaining ?mid = snapshot (os_budget os)"
    unfolding joined_output_def
    by (rule foldl_invariant)
      (auto simp: empty_parallel_output_def join_step_def Let_def split: option.splits sum.splits)
  moreover have "set (px_providers_partial ?mid) \<subseteq> set (px_providers_used ?mid)"
    unfolding joined_output_def by (rule join_partial) (simp add: empty_parallel_output_def)
  ultimately show ?thesis
    using fanout_partition [OF assms(2,3), of os providers] joined_output_facts(2,3) [OF assms(2), of os plan providers]
    by (simp add: out_def execute_parallel_joined Let_def)
qed

definition sample_caps :: provider_capabilities where
  "sample_caps = \<lparr> cap_schema_version = SCHEMA_VERSION, cap_pagination = False, cap_language = False, cap_region = False,
     cap_time_range = False, cap_site_filter = False, cap_file_filter = False, cap_news = False, cap_code = False,
     cap_docs = False, cap_academic = False, cap_authentication = False, cap_estimated_cost = None \<rparr>"

definition sample_call :: "provider_reply \<Rightarrow> call_env" where
  "sample_call r = \<lparr> ca_permits = True, ca_remaining_ns = (\<lambda>_. 1000000000), ca_reply = (\<lambda>_. r), ca_left_ns = (\<lambda>_. 1000000000),
     ca_subsec_nanos = (\<lambda>_. 7), ca_counter = of_nat, ca_latency_ms = 12, ca_observed_at = 0 \<rparr>"

text \<open>One provider answers with nothing, the next panics, the third is not registered; the joins come in reverse.\<close>

definition sample_parallel_env :: parallel_env where
  "sample_parallel_env = \<lparr> pv_call = (\<lambda>i. sample_call (if i = 0
       then Answered (Ok \<lparr> pr_schema_version = SCHEMA_VERSION, pr_provider = lit ''p'', pr_status = Exec_Success, pr_results = [],
          pr_accepted_filters = [], pr_ignored_filters = [], pr_approximated_filters = [], pr_errors = [] \<rparr>)
       else Panicked)),
     pv_order = rev, pv_elapsed_ms = 15 \<rparr>"

definition sample_plan :: "rstr list \<Rightarrow> search_plan" where
  "sample_plan ps = fst (build_search_plan (lit ''now'') sample_query
     \<lparr> cl_schema_version = SCHEMA_VERSION, cl_primary_category = Cat_General, cl_secondary_categories = [], cl_confidence = Fin 0,
        cl_confidence_by_category = [], cl_reasons = [] \<rparr>
     \<lparr> rec_selected_providers = ps, rec_provider_budget_requests = [], rec_debug_reasons = [] \<rparr> (budget_new 4 1000))"

theorem fanout_accounts_witness:
  "let out = execute_parallel (orchestrator_new (budget_new 4 1000) 500) (sample_plan [lit ''p'', lit ''q'', lit ''r''])
       (map (\<lambda>n. \<lparr> po_name = n, po_capabilities = sample_caps, po_availability = Av_Available \<rparr>) [lit ''p'', lit ''q''])
       sample_parallel_env
   in mset (px_providers_used out @ px_providers_failed out) = {# lit ''p'', lit ''q'', lit ''r'' #}
      \<and> length (px_provider_results out) = length (px_providers_used out)"
proof -
  have sel: "sp_selected_providers (sample_plan [lit ''p'', lit ''q'', lit ''r'']) = [lit ''p'', lit ''q'', lit ''r'']"
    by (simp add: sample_plan_def build_search_plan_def Let_def budget_new_def reserve_provider_def bt_contains_key_def bt_get_def bt_empty_def)
  have "joins_all sample_parallel_env" by (simp add: joins_all_def sample_parallel_env_def)
  then show ?thesis
    using fanout_accounts [of sample_parallel_env "sample_plan [lit ''p'', lit ''q'', lit ''r'']"]
    unfolding Let_def sel by (simp add: sel del: mset_append)
qed

end
