(* ===== verification/Execution.thy ===== *)
theory Execution
  imports Fanout Classify Canonical Dedupe Relevance
begin

text \<open>
  The search orchestrator of \<^verbatim>\<open>execution.rs\<close>: the result pipeline, the decision after each round, the
  progressive loop and the response. The clock readings and the fan-out of round \<open>n\<close> are the \<open>n\<close>-th
  environment of the search; a panic of the pipeline is None. The loop is a total function: its measure
  is the number of providers not yet attempted.
\<close>

section \<open>The result pipeline\<close>

text \<open>What the code takes from the standard library, the url, time and unicode crates and the embedded list.\<close>

record 't platform =
  pf_powf :: "f64 \<Rightarrow> f64 \<Rightarrow> f64"
  pf_unicode :: unicode
  pf_time :: "'t time_api"
  pf_url :: "url url_api"
  pf_url_path :: "url \<Rightarrow> rstr"
  pf_trackers :: "rstr list"

record pipeline_output =
  pl_results :: "search_result list"
  pl_degradations :: "degradation list"
  pl_diversity :: diversity_metrics
  pl_deduped :: "deduplicated_result list"

definition pipeline_output_default :: pipeline_output where
  "pipeline_output_default =
     \<lparr> pl_results = [], pl_degradations = [], pl_diversity = diversity_metrics_default, pl_deduped = [] \<rparr>"

definition run_pipeline ::
    "'t platform \<Rightarrow> query \<Rightarrow> rstr \<Rightarrow> provider_result list \<Rightarrow> ranking_policy \<Rightarrow> diversity_policy
     \<Rightarrow> optics_document option \<Rightarrow> pipeline_output option" where
  "run_pipeline pf q reference_time provider_results rp dp optics =
     (let (normalized, degradations) = normalize (pf_time pf) (pf_url pf) provider_results;
          active_provider_count = length (bs_collect (map nr_provider normalized));
          deduped = deduplicate (pf_unicode pf) (pf_url pf) (map (canonicalize (pf_url pf)) normalized);
          ranked = rank (pf_powf pf) (pf_unicode pf) (pf_time pf) q reference_time active_provider_count deduped rp
      in map_option (\<lambda>adjusted. let diversified = diversify (pf_url pf) adjusted dp in
            \<lparr> pl_results = do_results diversified,
              pl_degradations = degradations @ concat (map nr_degradations normalized),
              pl_diversity = do_metrics diversified, pl_deduped = deduped \<rparr>)
          (apply_adjustments (pf_unicode pf) (pf_url pf) (pf_trackers pf) ranked optics))"

definition pending_explicit_filters :: "query \<Rightarrow> provider_result list \<Rightarrow> rstr btree_set" where
  "pending_explicit_filters q results =
     (let required = bs_collect (map lit
            ((if q_domains q \<noteq> [] then [''site''] else []) @ (if q_excluded_domains q \<noteq> [] then [''excluded_site''] else [])
             @ (if q_file_types q \<noteq> [] then [''filetype''] else []) @ (if q_language q \<noteq> None then [''language''] else [])
             @ (if q_region q \<noteq> None then [''region''] else []) @ (if q_date_from q \<noteq> None then [''date_from''] else [])
             @ (if q_date_to q \<noteq> None then [''date_to''] else [])));
          accepted = concat (map pr_accepted_filters results);
          covered = accepted @ (if lit ''time_range'' \<in> set accepted then map lit [''date_from'', ''date_to''] else [])
      in filter (\<lambda>f. f \<notin> set covered) required)"

section \<open>The decision after a round\<close>

record routing_decision_input =
  ri_coverage :: coverage_metrics
  ri_candidates :: "rstr list"
  ri_pending_filters :: "rstr btree_set"
  ri_remaining_ms :: u64
  ri_remaining_provider_calls :: u32
  ri_observed_gain :: "f64 option"
  ri_expected_gain_by_provider :: "(rstr, f64) btree_map"
  ri_policy :: search_policy
  ri_coverage_exception_used :: bool

record next_provider_decision =
  nd_provider :: rstr
  nd_uses_coverage_exception :: bool
  nd_debug_reason :: "rstr option"

definition expected_gain :: "routing_decision_input \<Rightarrow> rstr \<Rightarrow> f64" where
  "expected_gain i p = (case bt_get (ri_expected_gain_by_provider i) p of None \<Rightarrow> Fin 0 | Some g \<Rightarrow> g)"

definition expected_gain_low :: "routing_decision_input \<Rightarrow> bool" where
  "expected_gain_low i \<longleftrightarrow>
     cv_coverage_minimum (ri_coverage i) \<and> ri_candidates i \<noteq> [] \<and> ri_pending_filters i = []
     \<and> list_all (\<lambda>p. f64_lt (expected_gain i p) (sy_minimum_expected_marginal_gain (ri_policy i))) (ri_candidates i)"

definition observed_gain_low :: "routing_decision_input \<Rightarrow> bool" where
  "observed_gain_low i \<longleftrightarrow>
     (case ri_observed_gain i of None \<Rightarrow> False
      | Some g \<Rightarrow> f64_lt g (sy_minimum_marginal_gain (ri_policy i)) \<and> ri_pending_filters i = [])"

definition decide_progressive_round :: "routing_decision_input \<Rightarrow> SearchStopReason + next_provider_decision" where
  "decide_progressive_round i =
     (if ri_remaining_ms i = 0 then Err TimeExhausted
      else if ri_remaining_ms i < sy_minimum_remaining_deadline_ms (ri_policy i) then Err DeadlineNear
      else if ri_candidates i \<noteq> [] \<and> ri_remaining_provider_calls i = 0 then Err Stop_ProviderLimit
      else if cv_coverage_target (ri_coverage i) \<and> ri_pending_filters i = [] then Err CoverageTargetReached
      else if expected_gain_low i \<or> observed_gain_low i then Err MarginalGainLow
      else (case ri_candidates i of
          [] \<Rightarrow> Err ProvidersExhausted
        | first # _ \<Rightarrow>
            if cv_coverage_minimum (ri_coverage i) \<and> \<not> cv_low_diversity (ri_coverage i) \<and> ri_pending_filters i = []
            then Err ExplicitFilterSatisfied
            else if ri_pending_filters i \<noteq> []
            then Ok \<lparr> nd_provider = first, nd_uses_coverage_exception = False,
                   nd_debug_reason = Some (lit ''explicit_filter_pending:'' @ join_with (lit '','') (ri_pending_filters i)) \<rparr>
            else (case List.find (\<lambda>p. f64_le (sy_minimum_expected_marginal_gain (ri_policy i)) (expected_gain i p)) (ri_candidates i) of
                Some p \<Rightarrow> Ok \<lparr> nd_provider = p, nd_uses_coverage_exception = False, nd_debug_reason = None \<rparr>
              | None \<Rightarrow>
                  if \<not> cv_coverage_minimum (ri_coverage i) \<and> \<not> ri_coverage_exception_used i
                  then Ok \<lparr> nd_provider = first, nd_uses_coverage_exception = True,
                         nd_debug_reason = Some (lit ''coverage_exception_once'') \<rparr>
                  else Err MarginalGainLow)))"

definition trace_round ::
    "u32 \<Rightarrow> rstr list \<Rightarrow> rstr list \<Rightarrow> coverage_metrics \<Rightarrow> adaptive_recommendation \<Rightarrow> bool \<Rightarrow> f64 option
     \<Rightarrow> round_complementarity option \<Rightarrow> SearchStopReason option \<Rightarrow> rstr list \<Rightarrow> round_trace" where
  "trace_round n considered selected cov adaptive role_model_active observed complementarity stop reasons =
     \<lparr> rt_round = n, rt_providers_considered = considered, rt_providers_selected = selected,
       rt_providers_skipped = filter (\<lambda>p. p \<notin> set (bs_collect selected)) considered,
       rt_useful_results = cv_useful_results cov, rt_unique_domains = cv_unique_domains cov,
       rt_unique_providers = cv_unique_providers cov, rt_unique_result_types = cv_unique_result_types cov,
       rt_coverage_minimum = cv_coverage_minimum cov, rt_coverage_target = cv_coverage_target cov,
       rt_low_diversity = cv_low_diversity cov,
       rt_expected_marginal_gain_by_provider = bt_collect (List.map_filter
         (\<lambda>p. map_option (Pair p) (bt_get (ar_expected_marginal_gain_by_provider adaptive) p)) considered),
       rt_observed_marginal_gain = observed,
       rt_provider_roles = bt_collect (map (\<lambda>(n, role). (n, lit (role_as_str role))) (ar_provider_roles adaptive)),
       rt_primary_available = (if role_model_active then Some (ar_primary_provider adaptive \<noteq> None) else None),
       rt_complementarity = complementarity, rt_stop_reason = stop, rt_debug_reasons = reasons \<rparr>"

definition enrich_observation :: "search_result list \<Rightarrow> telemetry_observation \<Rightarrow> telemetry_observation" where
  "enrich_observation results ob =
     (let top_k = take 10 results;
          from = (\<lambda>r. ob_provider ob \<in> set (sr_providers r));
          contributed = filter from results
      in ob\<lparr> ob_top_k_contribution := (if top_k = [] then Fin 0
               else f64_div (f64_of_nat (length (filter from top_k))) (f64_of_nat (length top_k))),
             ob_diversity := (if contributed = [] then Fin 0
               else f64_div (f64_of_nat (length (bs_collect (map sr_domain contributed)))) (f64_of_nat (length contributed))) \<rparr>)"

definition enrich_telemetry :: "telemetry_observation list \<Rightarrow> search_result list \<Rightarrow> telemetry_observation list" where
  "enrich_telemetry observations results = map (enrich_observation results) observations"

section \<open>Planning\<close>

definition describe_provider :: "provider \<Rightarrow> provider_descriptor" where
  "describe_provider p = \<lparr> pd_name = po_name p, pd_capabilities = po_capabilities p,
     pd_available = (po_availability p = Av_Available) \<rparr>"

definition adaptive_recommendation_for ::
    "'t platform \<Rightarrow> orchestrator \<Rightarrow> query \<Rightarrow> classification \<Rightarrow> provider list \<Rightarrow> i64 \<Rightarrow> adaptive_recommendation" where
  "adaptive_recommendation_for pf os q c providers now =
     recommend_with_roles (pf_powf pf) q c (map describe_provider providers) (os_telemetry os) (os_search_policy os)
       (os_role_assignment os) now"

definition plan_search ::
    "'t platform \<Rightarrow> query \<Rightarrow> classification \<Rightarrow> provider list \<Rightarrow> i64 \<Rightarrow> rstr \<Rightarrow> orchestrator \<Rightarrow> search_plan \<times> orchestrator" where
  "plan_search pf q c providers now clock os =
     (let adaptive = adaptive_recommendation_for pf os q c providers now;
          (plan, b) = build_search_plan clock q c
            \<lparr> rec_selected_providers = ar_first_round_providers adaptive,
              rec_provider_budget_requests = ar_provider_budget_requests adaptive,
              rec_debug_reasons = ar_debug_reasons adaptive \<rparr> (os_budget os)
      in (plan, os\<lparr> os_budget := b \<rparr>))"

section \<open>One round\<close>

record round_env =
  re_clock :: rstr
  re_elapsed_at_plan :: u64
  re_parallel :: parallel_env
  re_elapsed_at_decision :: u64

record search_env =
  sv_now :: i64
  sv_round :: "nat \<Rightarrow> round_env"
  sv_elapsed_ms :: u64
  sv_store :: "nat \<Rightarrow> bool \<times> bool"

record search_state =
  ss_orchestrator :: orchestrator
  ss_next_selected :: "rstr list"
  ss_attempted :: "rstr btree_set"
  ss_accumulated :: parallel_output
  ss_pipeline :: pipeline_output
  ss_previous :: "search_result list"
  ss_reference_time :: "rstr option"
  ss_exception_used :: bool
  ss_round :: u32

record search_job =
  sj_query :: query
  sj_classification :: classification
  sj_providers :: "provider list"
  sj_adaptive :: adaptive_recommendation

definition round_plan :: "search_job \<Rightarrow> round_env \<Rightarrow> search_state \<Rightarrow> search_plan \<times> budget" where
  "round_plan job env s =
     (let os = ss_orchestrator s;
          (plan, b) = build_search_plan (re_clock env) (sj_query job) (sj_classification job)
            \<lparr> rec_selected_providers = ss_next_selected s,
              rec_provider_budget_requests = bt_collect (map (\<lambda>p. (p, 1)) (ss_next_selected s)),
              rec_debug_reasons = ar_debug_reasons (sj_adaptive job) \<rparr> (os_budget os)
      in (plan\<lparr> sp_global_budget := (sp_global_budget plan)\<lparr> gb_deadline_ms :=
                  saturating_sub (budget_deadline_ms (os_budget os)) (re_elapsed_at_plan env) \<rparr>,
                sp_expansion_policy := lit ''search_policy_v1'',
                sp_fallback_policy := lit (if ar_fallback (sj_adaptive job) then ''bootstrap_static'' else ''provider_value_adaptive''),
                sp_ranking_reference_time := (case ss_reference_time s of Some v \<Rightarrow> v | None \<Rightarrow> sp_ranking_reference_time plan) \<rparr>, b))"

text \<open>Planning, fan-out and pipeline of a round: the state before the decision, or None on a panic.\<close>

definition run_round :: "'t platform \<Rightarrow> search_job \<Rightarrow> round_env \<Rightarrow> search_state \<Rightarrow> (search_state \<times> rstr list) option" where
  "run_round pf job env s =
     (let (plan, b) = round_plan job env s;
          os = (ss_orchestrator s)\<lparr> os_budget := b, os_last_plan := Some plan \<rparr>;
          selected = sp_selected_providers plan;
          s' = s\<lparr> ss_orchestrator := os, ss_round := ss_round s + 1,
                 ss_reference_time := Some (sp_ranking_reference_time plan),
                 ss_attempted := fold bs_insert selected (ss_attempted s) \<rparr>
      in if selected = [] then Some (s', selected)
         else let acc = merge_parallel_output (ss_accumulated s) (execute_parallel os plan (sj_providers job) (re_parallel env))
              in map_option (\<lambda>p. (s'\<lparr> ss_accumulated := acc, ss_pipeline := p \<rparr>, selected))
                   (run_pipeline pf (sj_query job) (sp_ranking_reference_time plan) (px_provider_results acc)
                     (os_ranking_policy os) (os_diversity_policy os) (os_optics os)))"

definition unattempted :: "search_job \<Rightarrow> search_state \<Rightarrow> rstr list" where
  "unattempted job s = filter (\<lambda>p. p \<notin> set (ss_attempted s)) (ar_ordered_providers (sj_adaptive job))"

definition observed_gain_of :: "search_state \<Rightarrow> f64 option" where
  "observed_gain_of s =
     (if 1 < ss_round s then Some (observed_marginal_gain (ss_previous s) (pl_results (ss_pipeline s))) else None)"

definition round_coverage :: "search_state \<Rightarrow> coverage_metrics" where
  "round_coverage s =
     evaluate_coverage (pl_results (ss_pipeline s)) (pl_diversity (ss_pipeline s)) (os_search_policy (ss_orchestrator s))"

definition round_decision :: "search_job \<Rightarrow> round_env \<Rightarrow> search_state \<Rightarrow> SearchStopReason + next_provider_decision" where
  "round_decision job env s =
     (let os = ss_orchestrator s in
      decide_progressive_round
        \<lparr> ri_coverage = round_coverage s, ri_candidates = unattempted job s,
          ri_pending_filters = pending_explicit_filters (sj_query job) (px_provider_results (ss_accumulated s)),
          ri_remaining_ms = saturating_sub (budget_deadline_ms (os_budget os)) (re_elapsed_at_decision env),
          ri_remaining_provider_calls = snap_remaining_provider_calls (snapshot (os_budget os)),
          ri_observed_gain = observed_gain_of s,
          ri_expected_gain_by_provider = ar_expected_marginal_gain_by_provider (sj_adaptive job),
          ri_policy = os_search_policy os, ri_coverage_exception_used = ss_exception_used s \<rparr>)"

definition round_complementarity_of :: "url url_api \<Rightarrow> search_state \<Rightarrow> round_complementarity option" where
  "round_complementarity_of api s =
     map_option (\<lambda>m. \<lparr> rc_found_primary = cm_found_primary m, rc_found_expansion = cm_found_expansion m,
         rc_overlap_confirmed = cm_overlap_confirmed m, rc_unique_primary = cm_unique_primary m,
         rc_unique_expansion = cm_unique_expansion m, rc_expansion_new_domains = cm_expansion_new_domains m \<rparr>)
       (compute_complementarity_metrics api (pl_deduped (ss_pipeline s)) (os_role_assignment (ss_orchestrator s)))"

definition conclude_round ::
    "'t platform \<Rightarrow> search_job \<Rightarrow> round_env \<Rightarrow> rstr list \<Rightarrow> rstr list \<Rightarrow> search_state \<Rightarrow> search_state \<times> SearchStopReason option" where
  "conclude_round pf job env considered selected s =
     (let os = ss_orchestrator s;
          decision = round_decision job env s;
          reasons = (if ss_round s = 1 then ar_debug_reasons (sj_adaptive job) else [])
            @ (case decision of Ok next \<Rightarrow> (case nd_debug_reason next of None \<Rightarrow> [] | Some r \<Rightarrow> [r]) | Err _ \<Rightarrow> []);
          stop = (case decision of Err r \<Rightarrow> Some r | Ok _ \<Rightarrow> None);
          trace = trace_round (ss_round s) considered selected (round_coverage s) (sj_adaptive job)
            (ra_active (os_role_assignment os)) (observed_gain_of s) (round_complementarity_of (pf_url pf) s) stop reasons;
          s' = s\<lparr> ss_orchestrator := os\<lparr> os_routing_trace := os_routing_trace os @ [trace] \<rparr> \<rparr>
      in case decision of
           Err r \<Rightarrow> (s', Some r)
         | Ok next \<Rightarrow> (s'\<lparr> ss_exception_used := (ss_exception_used s \<or> nd_uses_coverage_exception next),
               ss_previous := pl_results (ss_pipeline s), ss_next_selected := [nd_provider next] \<rparr>, None))"

definition search_round ::
    "'t platform \<Rightarrow> search_env \<Rightarrow> search_job \<Rightarrow> search_state \<Rightarrow> (search_state \<times> SearchStopReason option) option" where
  "search_round pf sv job s =
     (let env = sv_round sv (unat (ss_round s + 1))
      in map_option (\<lambda>(s', selected). conclude_round pf job env (unattempted job s) selected s') (run_round pf job env s))"

section \<open>Termination of the loop\<close>

text \<open>The nx choice is one provider of the ranking that was not attempted yet, and a call is left for it.\<close>

definition next_ready :: "search_job \<Rightarrow> search_state \<Rightarrow> bool" where
  "next_ready job s \<longleftrightarrow>
     (\<exists>c. ss_next_selected s = [c] \<and> c \<in> set (unattempted job s))
     \<and> remaining_provider_calls (os_budget (ss_orchestrator s)) \<noteq> 0"

definition rounds_left :: "search_job \<Rightarrow> search_state \<Rightarrow> nat" where
  "rounds_left job s = 2 * card (set (unattempted job s)) + (if next_ready job s then 0 else 1)"

lemma fold_bs_insert: "set (fold bs_insert xs s) = set xs \<union> set s"
  by (induction xs arbitrary: s) (auto simp: bs_insert_def set_insort_key)

lemma build_search_plan_selected:
  assumes "build_search_plan clock q c r b = (plan, b')"
  shows "sp_selected_providers plan
      = filter (\<lambda>p. p \<in> set (take (unat (remaining_provider_calls b)) (rec_selected_providers r))) (rec_selected_providers r)
    \<and> unat (remaining_provider_calls b') = unat (remaining_provider_calls b) - length (rec_selected_providers r)
    \<and> budget_deadline_ms b' = budget_deadline_ms b"
proof -
  obtain m where m: "reserve_each (rec_selected_providers r) bt_empty b = (m, b')"
    and sel: "sp_selected_providers plan = filter (bt_contains_key m) (rec_selected_providers r)"
    using assms by (auto simp: build_search_plan_def Let_def split: prod.splits)
  have "bt_wf bt_empty" "\<not> bt_contains_key bt_empty p" for p :: rstr
    by (simp_all add: bt_wf_def bt_contains_key_def bt_get_def bt_empty_def)
  with reserve_each_spec [of bt_empty "rec_selected_providers r" b] show ?thesis
    by (auto simp: m sel intro!: filter_cong)
qed

lemma round_plan_selected:
  assumes "round_plan job env s = (plan, b)"
  shows "sp_selected_providers plan = filter (\<lambda>p. p \<in> set (take
        (unat (remaining_provider_calls (os_budget (ss_orchestrator s)))) (ss_next_selected s))) (ss_next_selected s)"
    and "unat (remaining_provider_calls b)
      = unat (remaining_provider_calls (os_budget (ss_orchestrator s))) - length (ss_next_selected s)"
    and "budget_deadline_ms b = budget_deadline_ms (os_budget (ss_orchestrator s))"
  using assms by (auto simp: round_plan_def Let_def dest!: build_search_plan_selected split: prod.splits)

lemma run_round_facts:
  assumes "run_round pf job env s = Some (s', selected)"
  obtains plan b where "round_plan job env s = (plan, b)" "selected = sp_selected_providers plan"
    "set (ss_attempted s') = set selected \<union> set (ss_attempted s)" "os_budget (ss_orchestrator s') = b"
    "ss_exception_used s' = ss_exception_used s" "ss_round s' = ss_round s + 1"
    "os_routing_trace (ss_orchestrator s') = os_routing_trace (ss_orchestrator s)"
  using assms
  by (auto simp: run_round_def Let_def fold_bs_insert split: prod.splits if_splits)

lemma decide_progressive_round_Ok:
  assumes "decide_progressive_round i = Ok nx"
  shows "nd_provider nx \<in> set (ri_candidates i)" "ri_remaining_provider_calls i \<noteq> 0"
  using assms
  by (auto simp: decide_progressive_round_def find_Some_iff in_set_conv_nth
      split: if_splits list.splits option.splits)


lemma conclude_round_continue:
  assumes "conclude_round pf job env considered selected s = (s', None)"
  obtains nx where "round_decision job env s = Ok nx" "ss_next_selected s' = [nd_provider nx]"
    "ss_attempted s' = ss_attempted s" "os_budget (ss_orchestrator s') = os_budget (ss_orchestrator s)"
  using assms by (auto simp: conclude_round_def Let_def split: sum.splits)

lemma search_round_decreases:
  assumes "search_round pf sv job s = Some (s'', None)"
  shows "rounds_left job s'' < rounds_left job s"
proof -
  let ?env = "sv_round sv (unat (ss_round s + 1))"
  obtain s' selected where r: "run_round pf job ?env s = Some (s', selected)"
    and c: "conclude_round pf job ?env (unattempted job s) selected s' = (s'', None)"
    using assms by (auto simp: search_round_def Let_def)
  obtain plan b where plan: "round_plan job ?env s = (plan, b)" "selected = sp_selected_providers plan"
    and att: "set (ss_attempted s') = set selected \<union> set (ss_attempted s)" "os_budget (ss_orchestrator s') = b"
    using r by (rule run_round_facts)
  obtain nx where d: "round_decision job ?env s' = Ok nx" and nx: "ss_next_selected s'' = [nd_provider nx]"
    "ss_attempted s'' = ss_attempted s'" "os_budget (ss_orchestrator s'') = os_budget (ss_orchestrator s')"
    using c by (rule conclude_round_continue)
  from decide_progressive_round_Ok [OF d [unfolded round_decision_def Let_def]]
  have "next_ready job s''" using nx by (simp add: next_ready_def unattempted_def snapshot_def)
  moreover have sub: "set (unattempted job s'') \<subseteq> set (unattempted job s)"
    using att nx by (auto simp: unattempted_def)
  moreover have "set (unattempted job s'') \<subset> set (unattempted job s)" if "next_ready job s"
  proof -
    from that obtain p where p: "ss_next_selected s = [p]" "p \<in> set (unattempted job s)"
      and calls: "remaining_provider_calls (os_budget (ss_orchestrator s)) \<noteq> 0" by (auto simp: next_ready_def)
    then have "selected = [p]"
      using round_plan_selected(1) [OF plan(1)] plan(2) by (simp add: take_Cons' unat_eq_zero)
    then have "p \<notin> set (unattempted job s'')" using att nx by (simp add: unattempted_def)
    with sub p(2) show ?thesis by auto
  qed
  ultimately show ?thesis
    using card_mono [OF _ sub] psubset_card_mono [of "set (unattempted job s)" "set (unattempted job s'')"]
    by (auto simp: rounds_left_def)
qed

function search_loop ::
    "'t platform \<Rightarrow> search_env \<Rightarrow> search_job \<Rightarrow> search_state \<Rightarrow> (search_state \<times> SearchStopReason) option" where
  "search_loop pf sv job s =
     (case search_round pf sv job s of
        None \<Rightarrow> None
      | Some (s', Some reason) \<Rightarrow> Some (s', reason)
      | Some (s', None) \<Rightarrow> search_loop pf sv job s')"
  by pat_completeness auto
termination
  by (relation "measure (\<lambda>(_, _, job, s). rounds_left job s)") (auto dest: search_round_decreases)

declare search_loop.simps [simp del]

section \<open>The search\<close>

definition availability_degradation :: "provider \<Rightarrow> degradation option" where
  "availability_degradation p =
     (case po_availability p of
        Av_Available \<Rightarrow> None
      | Av_Unavailable code message \<Rightarrow> Some \<lparr> deg_code = code, deg_component = po_name p, deg_message = message \<rparr>)"

text \<open>39 is the apostrophe around the provider name in the message.\<close>

definition search_degradations :: "orchestrator \<Rightarrow> adaptive_recommendation \<Rightarrow> provider list \<Rightarrow> degradation list" where
  "search_degradations os adaptive providers =
     List.map_filter availability_degradation providers
     @ (if ra_active (os_role_assignment os) \<and> ar_primary_provider adaptive = None
        then [\<lparr> deg_code = lit ''primary_provider_unavailable'', deg_component = lit ''routing'',
                deg_message = lit ''configured primary provider '' @ [39] @ ra_primary_provider (os_role_assignment os)
                  @ [39] @ lit '' was not eligible; search ran on expansion providers only'' \<rparr>] else [])"

definition search_start :: "orchestrator \<Rightarrow> adaptive_recommendation \<Rightarrow> search_state" where
  "search_start os adaptive =
     \<lparr> ss_orchestrator = os\<lparr> os_routing_trace := [], os_last_plan := None \<rparr>,
       ss_next_selected = ar_first_round_providers adaptive, ss_attempted = [],
       ss_accumulated = empty_parallel_output (snapshot (os_budget os)), ss_pipeline = pipeline_output_default,
       ss_previous = [], ss_reference_time = None, ss_exception_used = False, ss_round = 0 \<rparr>"

definition final_complementarity :: "'t platform \<Rightarrow> query \<Rightarrow> search_state \<Rightarrow> complementarity_metrics option" where
  "final_complementarity pf q s =
     (let roles = os_role_assignment (ss_orchestrator s); deduped = pl_deduped (ss_pipeline s)
      in map_option (enrich_relevance_metrics (pf_unicode pf) (pf_url pf) (pf_url_path pf) q deduped roles relevance_thresholds_default)
           (compute_complementarity_metrics (pf_url pf) deduped roles))"

fun cut_short :: "SearchStopReason \<Rightarrow> bool" where
  "cut_short TimeExhausted = True"
| "cut_short DeadlineNear = True"
| "cut_short Stop_ProviderLimit = True"
| "cut_short _ = False"

definition final_degradations :: "search_state \<Rightarrow> SearchStopReason \<Rightarrow> degradation list \<Rightarrow> degradation list" where
  "final_degradations s reason availability =
     pl_degradations (ss_pipeline s) @ availability
     @ (if pl_results (ss_pipeline s) \<noteq> [] \<and> \<not> cv_coverage_target (round_coverage s) \<and> cut_short reason
        then [\<lparr> deg_code = lit (stop_reason_as_str reason), deg_component = lit ''routing'',
                deg_message = lit ''progressive search stopped before target coverage'' \<rparr>] else [])"

definition final_errors :: "search_state \<Rightarrow> composite_error list" where
  "final_errors s =
     (let errors = map composite_error_of (px_errors (ss_accumulated s)); results = pl_results (ss_pipeline s)
      in if results = [] \<and> ss_attempted s = []
         then errors @ [\<lparr> ce_code = lit ''no_available_provider'',
                ce_message = lit ''no approved and configured provider is available'', ce_providers = [], ce_recoverable = False \<rparr>]
         else if results = [] \<and> errors = []
         then errors @ [\<lparr> ce_code = lit ''no_usable_results'',
                ce_message = lit ''providers returned no result that satisfied the Search contract'',
                ce_providers = px_providers_used (ss_accumulated s), ce_recoverable = False \<rparr>]
         else errors)"

definition final_status :: "search_state \<Rightarrow> degradation list \<Rightarrow> SearchStatus" where
  "final_status s degradations =
     (let results = pl_results (ss_pipeline s); acc = ss_accumulated s
      in if results = [] then Search_Failure
         else if results \<noteq> [] \<and> (degradations \<noteq> [] \<or> px_providers_failed acc \<noteq> [] \<or> px_providers_partial acc \<noteq> [])
         then Search_PartialSuccess else Search_Success)"

text \<open>The observations of the search go to the telemetry one after the other, each with its own storage outcome.\<close>

definition record_observations :: "(nat \<Rightarrow> bool \<times> bool) \<Rightarrow> telemetry_observation list \<Rightarrow> telemetry \<Rightarrow> telemetry" where
  "record_observations store obs t =
     fold (\<lambda>(i, ob). telemetry_record (fst (store i)) (snd (store i)) ob) (enumerate 0 obs) t"

definition finish_search ::
    "'t platform \<Rightarrow> search_env \<Rightarrow> query \<Rightarrow> degradation list \<Rightarrow> search_state \<Rightarrow> SearchStopReason \<Rightarrow> search_response \<times> orchestrator" where
  "finish_search pf sv q availability s reason =
     (let os = ss_orchestrator s; acc = ss_accumulated s; results = pl_results (ss_pipeline s);
          degradations = final_degradations s reason availability
      in (\<lparr> rs_schema_version = SCHEMA_VERSION, rs_query = q_raw_query q, rs_status = final_status s degradations,
            rs_results = results, rs_providers_used = px_providers_used acc, rs_providers_failed = px_providers_failed acc,
            rs_providers_partial = px_providers_partial acc, rs_errors = final_errors s, rs_degradations = degradations,
            rs_elapsed_ms = sv_elapsed_ms sv, rs_complementarity = final_complementarity pf q s,
            rs_total_results = None, rs_page = None, rs_page_size = None \<rparr>,
          os\<lparr> os_telemetry := record_observations (sv_store sv) (enrich_telemetry (px_observations acc) results) (os_telemetry os) \<rparr>))"

definition search_job_of :: "'t platform \<Rightarrow> search_env \<Rightarrow> query \<Rightarrow> provider list \<Rightarrow> orchestrator \<Rightarrow> search_job" where
  "search_job_of pf sv q providers os =
     (let c = classify (pf_unicode pf) q
      in \<lparr> sj_query = q, sj_classification = c, sj_providers = providers,
           sj_adaptive = adaptive_recommendation_for pf os q c providers (sv_now sv) \<rparr>)"

definition search ::
    "'t platform \<Rightarrow> search_env \<Rightarrow> query \<Rightarrow> provider list \<Rightarrow> orchestrator \<Rightarrow> (search_response \<times> orchestrator) option" where
  "search pf sv q providers os =
     (let job = search_job_of pf sv q providers os; adaptive = sj_adaptive job
      in map_option (\<lambda>(s, reason). finish_search pf sv q (search_degradations os adaptive providers) s reason)
           (search_loop pf sv job (search_start os adaptive)))"

end
