(* ===== verification/Search_Facts.thy ===== *)
theory Search_Facts
  imports Execution
begin

text \<open>
  What holds of every round and hence of every search: where the URLs of the pipeline come from, that a
  finite operator document never makes it panic, the accounting of provider calls, and the bound on the
  rounds. The properties over the whole search rest on the loop rule of this theory.
\<close>

section \<open>The pipeline\<close>

lemma diversify_step_original:
  "map sr_original_url (fst (snd (diversify_step api pol results acc i)))
     = map sr_original_url (fst (snd acc)) @ [dr_original_url (rr_result (results ! i))]"
  by (cases acc) (simp add: diversify_step_def Let_def)

lemma diversify_originals:
  "map sr_original_url (do_results (diversify api results p)) = map (\<lambda>r. dr_original_url (rr_result r)) results"
proof -
  let ?pol = "effective_diversity_policy p"
  have "map sr_original_url (fst (snd (foldl (diversify_step api ?pol results) diversify_init [0..<n])))
      = map (\<lambda>r. dr_original_url (rr_result r)) (take n results)" if "n \<le> length results" for n
    using that
  proof (induction n)
    case (Suc n)
    then show ?case by (simp add: diversify_step_original take_Suc_conv_app_nth)
  qed (simp add: diversify_init_def)
  moreover obtain st outp decisions where
    run: "foldl (diversify_step api ?pol results) diversify_init [0..<length results] = (st, outp, decisions)"
    by (metis surj_pair)
  moreover from run have "do_results (diversify api results p) = outp"
    by (simp add: diversify_def Let_def effective_diversity_policy_def diversify_init_def)
  ultimately show ?thesis by (metis fst_conv le_refl snd_conv take_all)
qed

lemma diversify_urls_ranks:
  "map sr_canonical_url (do_results (diversify api results p)) = map (\<lambda>r. dr_canonical_url (rr_result r)) results"
  "map sr_rank (do_results (diversify api results p)) = map rank_of_index [0..<length results]"
  by (rule diversify_run [of api p results], simp add: loop_inv_def)+

text \<open>A URL the outbound policy accepted from some text a provider returned.\<close>

definition admitted :: "url url_api \<Rightarrow> url \<Rightarrow> bool" where
  "admitted api u \<longleftrightarrow> (\<exists>raw. validate_search_url api raw = Ok u)"

lemma normalize_urls: "n \<in> set (fst (normalize tm api results)) \<Longrightarrow> admitted api (nr_url n)"
  by (auto simp: normalize_def normalize_fold admitted_def item_ok_def is_ok_iff)

lemma links_original [simp]: "dr_original_url (links us r) = dr_original_url r"
  by (induction us rule: rev_induct) (simp_all add: links_append link_def links_def)

lemma deduplicate_originals:
  assumes "d \<in> set (deduplicate uc api rs)"
  shows "dr_original_url d \<in> cr_original_url ` set rs"
proof -
  obtain g us where d: "d = links us (merge_confirmed_group g)" "(dr_canonical_url d, g) \<in> set (groups_of rs)"
    using assms by (rule deduplicate_member)
  from groups_of_values(1,2) [OF d(2)] have g: "g \<noteq> []" "set g \<subseteq> set rs" by blast+
  have same: "set (sort_by group_cmp g) = set g" by (rule set_sort_by)
  with g(1) have "sort_by group_cmp g \<noteq> []" by (metis set_empty)
  then have "hd (sort_by group_cmp g) \<in> set g" using same hd_in_set by blast
  moreover have "dr_original_url d = cr_original_url (hd (sort_by group_cmp g))"
    by (simp add: d(1) merge_confirmed_group_def Let_def)
  ultimately show ?thesis using g(2) by blast
qed

lemma run_pipeline_unfold:
  assumes "run_pipeline pf q now prs rp dp optics = Some out"
  obtains ranked adjusted where
    "ranked = rank (pf_powf pf) (pf_unicode pf) (pf_time pf) q now
       (length (bs_collect (map nr_provider (fst (normalize (pf_time pf) (pf_url pf) prs))))) (pl_deduped out) rp"
    "pl_deduped out = deduplicate (pf_unicode pf) (pf_url pf) (map (canonicalize (pf_url pf)) (fst (normalize (pf_time pf) (pf_url pf) prs)))"
    "apply_adjustments (pf_unicode pf) (pf_url pf) (pf_trackers pf) ranked optics = Some adjusted"
    "pl_results out = do_results (diversify (pf_url pf) adjusted dp)"
  using assms by (auto simp: run_pipeline_def Let_def split: prod.splits)

definition tame_optics :: "'t platform \<Rightarrow> optics_document option \<Rightarrow> bool" where
  "tame_optics pf optics \<longleftrightarrow> (\<forall>r. finite_multiplier (pf_unicode pf) (pf_url pf) optics r)"

lemma tame_optics_None [simp]: "tame_optics pf None"
  by (simp add: tame_optics_def finite_multiplier_def)

lemma ranked_in_unit: "list_all (\<lambda>r. in_unit (rr_score r)) (rank powf uc tm q now active results policy)"
  using rank_scores [of powf uc tm q now active results policy] by (simp add: list_all_iff)

lemma run_pipeline_total:
  assumes "tame_optics pf optics"
  shows "run_pipeline pf q now prs rp dp optics \<noteq> None"
proof -
  have "list_all (finite_multiplier (pf_unicode pf) (pf_url pf) optics) ranked" for ranked
    using assms by (simp add: tame_optics_def list_all_iff)
  from apply_adjustments_Some [OF ranked_in_unit this] show ?thesis
    by (fastforce simp: run_pipeline_def Let_def split: prod.splits)
qed

text \<open>What the results of a pipeline run satisfy: admitted URLs, one entry per canonical URL, ranks from one.\<close>

definition results_ok :: "url url_api \<Rightarrow> search_result list \<Rightarrow> bool" where
  "results_ok api rs \<longleftrightarrow> list_all (\<lambda>r. admitted api (sr_original_url r)) rs \<and> distinct (map sr_canonical_url rs)
     \<and> map sr_rank rs = map rank_of_index [0..<length rs]"

lemma map_panic_map:
  assumes "map_panic f xs = Some ys" "\<And>x y. f x = Some y \<Longrightarrow> g y = g x"
  shows "map g ys = map g xs"
  using assms by (induction xs arbitrary: ys) (auto split: option.splits)

lemma apply_adjustments_subset:
  assumes "apply_adjustments uc api trackers ranked optics = Some out"
  shows "mset (map rr_result out) \<subseteq># mset (map rr_result ranked)"
proof -
  have scaled: "scale_score m r = Some y \<Longrightarrow> rr_result y = rr_result r" for m r y
    by (auto simp: scale_score_def split: sum.splits)
  have pen: "penalise trackers api r = Some y \<Longrightarrow> rr_result y = rr_result r" for r y
    by (auto simp: penalise_def dest: scaled split: if_splits)
  have app: "apply_rules uc api d r = Some y \<Longrightarrow> rr_result y = rr_result r" for d r y
    by (auto simp: apply_rules_def Let_def split_beta dest: scaled split: if_splits)
  obtain p a where p: "map_panic (penalise trackers api) ranked = Some p"
    and a: "(case optics of None \<Rightarrow> Some p | Some document \<Rightarrow> map_panic (apply_rules uc api document)
       (if od_discard_non_matching document then filter (\<lambda>r. snd (multiplier_for uc api document r)) p else p)) = Some a"
    and out: "out = mark_tie_breaks (sort_by ranked_cmp a)"
    using assms by (auto simp: apply_adjustments_def split: option.splits)
  have "map rr_result p = map rr_result ranked" using p pen by (rule map_panic_map)
  moreover have "mset (map rr_result a) \<subseteq># mset (map rr_result p)"
  proof (cases optics)
    case (Some d)
    from a have "map rr_result a = map rr_result
        (if od_discard_non_matching d then filter (\<lambda>r. snd (multiplier_for uc api d r)) p else p)"
      unfolding Some option.case using app by (rule map_panic_map)
    then show ?thesis by (simp add: image_mset_subseteq_mono)
  qed (use a in simp)
  moreover have "mset (map rr_result out) = mset (map rr_result a)"
    unfolding out by (simp only: map_mark_tie_breaks [of rr_result, OF set_tie_break_simps(1)] mset_map mset_sort_by)
  ultimately show ?thesis by simp
qed

lemma rank_perm: "mset (map rr_result (rank powf uc tm q now active results policy)) = mset results"
proof -
  obtain p qt ph r where out: "rank powf uc tm q now active results policy =
      mark_tie_breaks (sort_by ranked_cmp (map (score_result powf uc tm p qt ph r active)
        (zip [0..<length results] (sort_by result_cmp results))))"
    by (rule rank_unfold)
  let ?xs = "map (score_result powf uc tm p qt ph r active) (zip [0..<length results] (sort_by result_cmp results))"
  have "map rr_result ?xs = sort_by result_cmp results" by (simp add: comp_def score_result_simps)
  then have "mset (map rr_result ?xs) = mset results" by (metis mset_sort_by)
  then show ?thesis
    unfolding out by (simp only: map_mark_tie_breaks [of rr_result, OF set_tie_break_simps(1)] mset_map mset_sort_by)
qed

lemma distinct_subseteq_mset:
  assumes "mset xs \<subseteq># mset ys" "distinct ys"
  shows "distinct xs"
proof -
  obtain zs where "mset ys = mset (xs @ zs)" using assms(1) by (metis ex_mset mset_append subset_mset.le_iff_add)
  with assms(2) show ?thesis by (metis distinct_append mset_eq_imp_distinct_iff)
qed

lemma run_pipeline_ok:
  assumes "run_pipeline pf q now prs rp dp optics = Some out"
  shows "results_ok (pf_url pf) (pl_results out)"
proof -
  obtain ranked adjusted where r: "ranked = rank (pf_powf pf) (pf_unicode pf) (pf_time pf) q now
       (length (bs_collect (map nr_provider (fst (normalize (pf_time pf) (pf_url pf) prs))))) (pl_deduped out) rp"
    and d: "pl_deduped out = deduplicate (pf_unicode pf) (pf_url pf)
      (map (canonicalize (pf_url pf)) (fst (normalize (pf_time pf) (pf_url pf) prs)))"
    and a: "apply_adjustments (pf_unicode pf) (pf_url pf) (pf_trackers pf) ranked optics = Some adjusted"
    and res: "pl_results out = do_results (diversify (pf_url pf) adjusted dp)"
    using assms by (rule run_pipeline_unfold)
  have sub: "mset (map rr_result adjusted) \<subseteq># mset (pl_deduped out)"
    using apply_adjustments_subset [OF a] by (simp only: r rank_perm)
  have one: "distinct (map dr_canonical_url (pl_deduped out))" by (simp only: d deduplicate_urls distinct_sorted_list_of_set)
  have "mset (map dr_canonical_url (map rr_result adjusted)) \<subseteq># mset (map dr_canonical_url (pl_deduped out))"
    using image_mset_subseteq_mono [OF sub, of dr_canonical_url] by (simp only: mset_map)
  from this one have "distinct (map dr_canonical_url (map rr_result adjusted))" by (rule distinct_subseteq_mset)
  moreover have "admitted (pf_url pf) (dr_original_url (rr_result x))" if "x \<in> set adjusted" for x
  proof -
    have "rr_result x \<in> set (pl_deduped out)" using set_mset_mono [OF sub] that by auto
    from deduplicate_originals [OF this [unfolded d]] show ?thesis
      by (auto simp: canonicalize_def Let_def split: prod.splits dest: normalize_urls)
  qed
  moreover have "list_all (\<lambda>r. admitted (pf_url pf) (sr_original_url r)) (pl_results out)
      = list_all (admitted (pf_url pf)) (map sr_original_url (pl_results out))"
    by (simp add: list.pred_map comp_def)
  moreover have "length (pl_results out) = length adjusted"
    using arg_cong [OF diversify_originals, of length] by (simp add: res)
  ultimately show ?thesis
    unfolding results_ok_def res by (simp add: diversify_urls_ranks diversify_originals list_all_iff comp_def)
qed

section \<open>The loop rule\<close>

text \<open>An invariant of the continuing rounds, and what the stopping round makes of it, hold of the whole loop.\<close>

lemma search_loop_rule:
  assumes "search_loop pf sv job s = Some (t, reason)" "I s"
    and cont: "\<And>s s'. I s \<Longrightarrow> search_round pf sv job s = Some (s', None) \<Longrightarrow> I s'"
    and stop: "\<And>s s' r. I s \<Longrightarrow> search_round pf sv job s = Some (s', Some r) \<Longrightarrow> Q s' r"
  shows "Q t reason"
  using assms(1,2)
proof (induction "rounds_left job s" arbitrary: s rule: less_induct)
  case less
  note unfold = less.prems(1) [unfolded search_loop.simps [of pf sv job s]]
  then obtain s' r where round: "search_round pf sv job s = Some (s', r)" by (cases "search_round pf sv job s") auto
  show ?case
  proof (cases r)
    case None
    then have later: "search_loop pf sv job s' = Some (t, reason)" using unfold round by simp
    from round None have "search_round pf sv job s = Some (s', None)" by simp
    from less.hyps [OF search_round_decreases [OF this] later cont [OF less.prems(2) this]] show ?thesis .
  next
    case (Some reason')
    with unfold round have "s' = t" "reason' = reason" by simp_all
    with stop [OF less.prems(2)] round Some show ?thesis by simp
  qed
qed

lemma search_loop_total:
  assumes "I s" and "\<And>s s'. I s \<Longrightarrow> search_round pf sv job s = Some (s', None) \<Longrightarrow> I s'"
    and "\<And>s. I s \<Longrightarrow> search_round pf sv job s \<noteq> None"
  shows "search_loop pf sv job s \<noteq> None"
  using assms(1)
proof (induction "rounds_left job s" arbitrary: s rule: less_induct)
  case less
  obtain s' r where round: "search_round pf sv job s = Some (s', r)" using assms(3) [OF less.prems] by auto
  show ?case
  proof (cases r)
    case None
    with round have step: "search_round pf sv job s = Some (s', None)" by simp
    from less.hyps [OF search_round_decreases [OF step] assms(2) [OF less.prems step]] step
    show ?thesis by (simp add: search_loop.simps [of pf sv job s])
  qed (simp add: search_loop.simps [of pf sv job s] round)
qed

section \<open>What a round does\<close>

text \<open>The effect of one round on the parts of the state that the properties speak of.\<close>

record round_effect =
  ef_plan :: search_plan
  ef_os :: orchestrator
  ef_env :: round_env

definition effect_of :: "search_job \<Rightarrow> search_env \<Rightarrow> search_state \<Rightarrow> round_effect" where
  "effect_of job sv s =
     (let env = sv_round sv (unat (ss_round s + 1)); (plan, b) = round_plan job env s
      in \<lparr> ef_plan = plan, ef_os = (ss_orchestrator s)\<lparr> os_budget := b, os_last_plan := Some plan \<rparr>, ef_env = env \<rparr>)"

abbreviation selected_of :: "search_job \<Rightarrow> search_env \<Rightarrow> search_state \<Rightarrow> rstr list" where
  "selected_of job sv s \<equiv> sp_selected_providers (ef_plan (effect_of job sv s))"

lemma search_round_effect:
  assumes "search_round pf sv job s = Some (s', r)"
  shows "set (ss_attempted s') = set (selected_of job sv s) \<union> set (ss_attempted s)"
    and "os_budget (ss_orchestrator s') = os_budget (ef_os (effect_of job sv s))"
    and "os_optics (ss_orchestrator s') = os_optics (ss_orchestrator s)"
    and "\<exists>trace. os_routing_trace (ss_orchestrator s') = os_routing_trace (ss_orchestrator s) @ [trace]
          \<and> rt_providers_selected trace = selected_of job sv s \<and> rt_stop_reason trace = r"
    and "ss_accumulated s' = (if selected_of job sv s = [] then ss_accumulated s
          else merge_parallel_output (ss_accumulated s)
            (execute_parallel (ef_os (effect_of job sv s)) (ef_plan (effect_of job sv s)) (sj_providers job)
              (re_parallel (ef_env (effect_of job sv s)))))"
    and "ss_pipeline s' = ss_pipeline s
          \<or> (\<exists>q now prs rp dp. run_pipeline pf q now prs rp dp (os_optics (ss_orchestrator s)) = Some (ss_pipeline s'))"
proof -
  let ?env = "sv_round sv (unat (ss_round s + 1))"
  obtain s1 selected where run: "run_round pf job ?env s = Some (s1, selected)"
    and con: "conclude_round pf job ?env (unattempted job s) selected s1 = (s', r)"
    using assms by (auto simp: search_round_def Let_def)
  obtain plan b where plan: "round_plan job ?env s = (plan, b)" by fastforce
  have ef: "effect_of job sv s = \<lparr> ef_plan = plan,
      ef_os = (ss_orchestrator s)\<lparr> os_budget := b, os_last_plan := Some plan \<rparr>, ef_env = ?env \<rparr>"
    by (simp add: effect_of_def plan)
  have same: "ss_attempted s' = ss_attempted s1" "os_budget (ss_orchestrator s') = os_budget (ss_orchestrator s1)"
    "os_optics (ss_orchestrator s') = os_optics (ss_orchestrator s1)"
    "ss_accumulated s' = ss_accumulated s1" "ss_pipeline s' = ss_pipeline s1"
    using con by (auto simp: conclude_round_def Let_def split: sum.splits)
  have trace: "\<exists>trace. os_routing_trace (ss_orchestrator s') = os_routing_trace (ss_orchestrator s1) @ [trace]
      \<and> rt_providers_selected trace = selected \<and> rt_stop_reason trace = r"
    using con by (auto simp: conclude_round_def trace_round_def Let_def split: sum.splits)
  show "set (ss_attempted s') = set (selected_of job sv s) \<union> set (ss_attempted s)"
    "os_budget (ss_orchestrator s') = os_budget (ef_os (effect_of job sv s))"
    "os_optics (ss_orchestrator s') = os_optics (ss_orchestrator s)"
    "\<exists>trace. os_routing_trace (ss_orchestrator s') = os_routing_trace (ss_orchestrator s) @ [trace]
        \<and> rt_providers_selected trace = selected_of job sv s \<and> rt_stop_reason trace = r"
    "ss_accumulated s' = (if selected_of job sv s = [] then ss_accumulated s
        else merge_parallel_output (ss_accumulated s)
          (execute_parallel (ef_os (effect_of job sv s)) (ef_plan (effect_of job sv s)) (sj_providers job)
            (re_parallel (ef_env (effect_of job sv s)))))"
    using run same trace by (auto simp: ef run_round_def plan Let_def fold_bs_insert split: if_splits)
  show "ss_pipeline s' = ss_pipeline s
      \<or> (\<exists>q now prs rp dp. run_pipeline pf q now prs rp dp (os_optics (ss_orchestrator s)) = Some (ss_pipeline s'))"
    using run by (auto simp: same(5) run_round_def plan Let_def split: if_splits)
qed

lemma search_round_continues:
  assumes "search_round pf sv job s = Some (s', None)"
  obtains c where "ss_next_selected s' = [c]" "c \<in> set (unattempted job s')"
    "remaining_provider_calls (os_budget (ss_orchestrator s')) \<noteq> 0"
proof -
  let ?env = "sv_round sv (unat (ss_round s + 1))"
  obtain s1 selected where con: "conclude_round pf job ?env (unattempted job s) selected s1 = (s', None)"
    using assms by (auto simp: search_round_def Let_def)
  obtain nx where d: "round_decision job ?env s1 = Ok nx" and nx: "ss_next_selected s' = [nd_provider nx]"
    "ss_attempted s' = ss_attempted s1" "os_budget (ss_orchestrator s') = os_budget (ss_orchestrator s1)"
    using con by (rule conclude_round_continue)
  from decide_progressive_round_Ok [OF d [unfolded round_decision_def Let_def]] nx
  show thesis by (intro that [of "nd_provider nx"]) (simp_all add: unattempted_def snapshot_def)
qed

lemma search_round_total:
  assumes "tame_optics pf (os_optics (ss_orchestrator s))"
  shows "search_round pf sv job s \<noteq> None"
  using run_pipeline_total [OF assms] by (auto simp: search_round_def run_round_def Let_def split: prod.splits)

section \<open>Accounting\<close>

lemma recommended_order:
  fixes powf q c providers tel pol roles now
  defines "r \<equiv> recommend_with_roles powf q c providers tel pol roles now"
  shows "mset (ar_ordered_providers r) = mset (map pd_name (filter (eligible q) providers))"
    and "set (ar_first_round_providers r) \<subseteq> set (ar_ordered_providers r)"
    and "distinct (ar_ordered_providers r) \<Longrightarrow> distinct (ar_first_round_providers r)"
    and "ar_first_round_providers r = [] \<Longrightarrow> ar_ordered_providers r = []"
proof -
  define epol where "epol = effective_search_policy pol"
  obtain ex fb scored where rp: "rank_providers powf q c providers tel epol now = (ex, fb, scored)"
    by (metis prod.exhaust)
  obtain ordered role_map primary expansion
    where obr: "order_by_role roles (map sc_name scored) = (ordered, role_map, primary, expansion)"
    by (metis prod.exhaust)
  have r: "ar_ordered_providers r = ordered" "ar_first_round_providers r = first_round roles epol ordered primary"
    by (simp_all add: r_def recommend_with_roles_def epol_def [symmetric] rp obr)
  note facts = order_by_role_facts [OF obr] and ranked = rank_providers_facts [OF rp]
  show m: "mset (ar_ordered_providers r) = mset (map pd_name (filter (eligible q) providers))"
    using facts(1) ranked(1) by (simp add: r)
  have sub: "primary = Some p \<Longrightarrow> p \<in> set ordered" for p
    using facts(4) mset_eq_setD [OF facts(1)] by (auto split: if_splits)
  show "set (ar_first_round_providers r) \<subseteq> set (ar_ordered_providers r)"
    using sub by (auto simp: r first_round_def dest: in_set_takeD split: option.splits)
  show "distinct (ar_ordered_providers r) \<Longrightarrow> distinct (ar_first_round_providers r)"
    by (auto simp: r first_round_def split: option.splits)
  have "0 < sy_first_round_min_providers epol" "0 < sy_first_round_max_providers epol"
    using effective_policy_limits(3,4) [of pol] by (simp_all add: epol_def)
  from first_round_empty [OF facts(4,1) this] facts(1)
  show "ar_first_round_providers r = [] \<Longrightarrow> ar_ordered_providers r = []" by (simp add: r)
qed

definition called :: "orchestrator \<Rightarrow> rstr list" where
  "called os = concat (map rt_providers_selected (os_routing_trace os))"

abbreviation calls_left :: "search_state \<Rightarrow> nat" where
  "calls_left s \<equiv> unat (remaining_provider_calls (os_budget (ss_orchestrator s)))"

abbreviation ordered_of :: "search_job \<Rightarrow> rstr list" where
  "ordered_of job \<equiv> ar_ordered_providers (sj_adaptive job)"

text \<open>Every call is to a provider of the ranking, none is called twice, and each costs one unit of the budget.\<close>

definition calls_ok :: "search_job \<Rightarrow> nat \<Rightarrow> search_state \<Rightarrow> bool" where
  "calls_ok job n s \<longleftrightarrow>
     distinct (called (ss_orchestrator s)) \<and> set (called (ss_orchestrator s)) = set (ss_attempted s)
     \<and> set (ss_attempted s) \<subseteq> set (ordered_of job) \<and> length (called (ss_orchestrator s)) + calls_left s = n"

definition choice_ok :: "search_job \<Rightarrow> search_state \<Rightarrow> bool" where
  "choice_ok job s \<longleftrightarrow> distinct (ss_next_selected s) \<and> set (ss_next_selected s) \<subseteq> set (unattempted job s)"

lemma filter_in_take: "distinct xs \<Longrightarrow> filter (\<lambda>x. x \<in> set (take n xs)) xs = take n xs"
proof -
  assume "distinct xs"
  then have "filter (\<lambda>x. x \<in> set (take n xs)) (take n xs @ drop n xs) = take n xs"
    using set_take_disj_set_drop_if_distinct [of xs n n] unfolding filter_append by (auto simp: filter_empty_conv)
  then show ?thesis by simp
qed

lemma selected_of_take:
  assumes "choice_ok job s"
  shows "selected_of job sv s = take (calls_left s) (ss_next_selected s)"
    and "unat (remaining_provider_calls (os_budget (ef_os (effect_of job sv s)))) = calls_left s - length (ss_next_selected s)"
proof -
  let ?env = "sv_round sv (unat (ss_round s + 1))"
  obtain plan b where plan: "round_plan job ?env s = (plan, b)" by fastforce
  show "selected_of job sv s = take (calls_left s) (ss_next_selected s)"
    "unat (remaining_provider_calls (os_budget (ef_os (effect_of job sv s)))) = calls_left s - length (ss_next_selected s)"
    using round_plan_selected(1,2) [OF plan] assms
    by (simp_all add: effect_of_def plan choice_ok_def filter_in_take)
qed

lemma called_round:
  assumes "search_round pf sv job s = Some (s', r)"
  shows "called (ss_orchestrator s') = called (ss_orchestrator s) @ selected_of job sv s"
  using search_round_effect(4) [OF assms] by (auto simp: called_def)

lemma calls_ok_round:
  assumes "calls_ok job n s" "choice_ok job s" "search_round pf sv job s = Some (s', r)"
  shows "calls_ok job n s'"
proof -
  note sel = selected_of_take [OF assms(2), of sv]
  note eff = search_round_effect(1,2) [OF assms(3)]
  have new: "set (selected_of job sv s) \<subseteq> set (unattempted job s)" "distinct (selected_of job sv s)"
    using assms(2) by (auto simp: sel choice_ok_def dest: in_set_takeD)
  have "length (selected_of job sv s) + calls_left s' = calls_left s"
    by (simp add: sel eff)
  with assms(1) new show ?thesis
    unfolding calls_ok_def called_round [OF assms(3)] eff(1) by (auto simp: unattempted_def)
qed

lemma choice_ok_round:
  assumes "search_round pf sv job s = Some (s', None)"
  shows "choice_ok job s'"
  using assms by (rule search_round_continues) (simp add: choice_ok_def)

section \<open>The number of rounds\<close>

definition rounds_ok :: "search_job \<Rightarrow> search_state \<Rightarrow> bool" where
  "rounds_ok job s \<longleftrightarrow>
     list_all (\<lambda>t. rt_stop_reason t = None) (os_routing_trace (ss_orchestrator s))
     \<and> (if os_routing_trace (ss_orchestrator s) = []
        then ss_attempted s = [] \<and> (ss_next_selected s = [] \<longrightarrow> ordered_of job = [])
        else next_ready job s
          \<and> length (os_routing_trace (ss_orchestrator s)) + card (set (unattempted job s)) \<le> card (set (ordered_of job)))"

lemma rounds_ok_round:
  assumes "rounds_ok job s" "choice_ok job s" "search_round pf sv job s = Some (s', None)"
  shows "rounds_ok job s'"
proof -
  obtain c where c: "ss_next_selected s' = [c]" "c \<in> set (unattempted job s')"
    "remaining_provider_calls (os_budget (ss_orchestrator s')) \<noteq> 0"
    using assms(3) by (rule search_round_continues)
  then have ready: "next_ready job s'" by (simp add: next_ready_def)
  note eff = search_round_effect [OF assms(3)]
  note sel = selected_of_take [OF assms(2), of sv]
  have sub: "set (unattempted job s') \<subseteq> set (unattempted job s)" using eff(1) by (auto simp: unattempted_def)
  have some: "ss_next_selected s \<noteq> []"
    using assms(1) c(2) by (auto simp: rounds_ok_def next_ready_def unattempted_def split: if_splits)
  have "0 < calls_left s'" using c(3) by (simp add: unat_gt_0)
  then have "selected_of job sv s = ss_next_selected s" using eff(2) sel by simp
  then have gone: "\<exists>p. p \<in> set (unattempted job s) \<and> p \<notin> set (unattempted job s')"
    using some assms(2) eff(1) by (cases "ss_next_selected s") (auto simp: choice_ok_def unattempted_def)
  then have "card (set (unattempted job s')) < card (set (unattempted job s))"
    using sub by (intro psubset_card_mono) auto
  moreover have "card (set (unattempted job s)) \<le> card (set (ordered_of job))"
    by (intro card_mono) (auto simp: unattempted_def)
  ultimately show ?thesis
    using assms(1) eff(4) ready by (auto simp: rounds_ok_def split: if_splits)
qed

lemma rounds_ok_stop:
  assumes "rounds_ok job s" "search_round pf sv job s = Some (s', Some r)"
  shows "map rt_stop_reason (os_routing_trace (ss_orchestrator s'))
      = replicate (length (os_routing_trace (ss_orchestrator s'))  - 1) None @ [Some r]"
    and "length (os_routing_trace (ss_orchestrator s')) \<le> max 1 (card (set (ordered_of job)))"
proof -
  let ?tr = "os_routing_trace (ss_orchestrator s)"
  obtain t where t: "os_routing_trace (ss_orchestrator s') = ?tr @ [t]" "rt_stop_reason t = Some r"
    using search_round_effect(4) [OF assms(2)] by auto
  have "map rt_stop_reason ?tr = replicate (length ?tr) None"
    using assms(1) by (auto simp: rounds_ok_def list_all_iff intro: map_replicate_const [symmetric] replicate_eqI)
  then show "map rt_stop_reason (os_routing_trace (ss_orchestrator s'))
      = replicate (length (os_routing_trace (ss_orchestrator s')) - 1) None @ [Some r]" by (simp add: t)
  have "0 < card (set (unattempted job s))" if "next_ready job s"
    using that by (auto simp: next_ready_def card_gt_0_iff)
  then show "length (os_routing_trace (ss_orchestrator s')) \<le> max 1 (card (set (ordered_of job)))"
    using assms(1) by (auto simp: t rounds_ok_def split: if_splits)
qed

section \<open>Reported providers\<close>

text \<open>The used and the failed providers of the response are together the called ones, each listed once.\<close>

definition reported_ok :: "search_state \<Rightarrow> bool" where
  "reported_ok s \<longleftrightarrow> mset (px_providers_used (ss_accumulated s) @ px_providers_failed (ss_accumulated s))
     = mset (called (ss_orchestrator s))"

lemma merge_lists:
  assumes "distinct (xs @ ys)"
  shows "mset (remdups_adj (sort (xs @ ys))) = mset xs + mset ys"
proof -
  from assms have "remdups_adj (sort (xs @ ys)) = sort (xs @ ys)" by (intro remdups_adj_distinct) simp
  then show ?thesis by simp
qed

lemma reported_ok_round:
  assumes "reported_ok s" "calls_ok job n s" "choice_ok job s" "search_round pf sv job s = Some (s', r)"
    and "\<And>k. joins_all (re_parallel (sv_round sv k))"
  shows "reported_ok s'"
proof (cases "selected_of job sv s = []")
  case True
  with assms(1) search_round_effect(5) [OF assms(4)] show ?thesis
    by (simp add: reported_ok_def called_round [OF assms(4)])
next
  case False
  define out where "out = execute_parallel (ef_os (effect_of job sv s)) (ef_plan (effect_of job sv s)) (sj_providers job)
      (re_parallel (ef_env (effect_of job sv s)))"
  have dist: "distinct (called (ss_orchestrator s) @ selected_of job sv s)"
    using calls_ok_round [OF assms(2-4)] by (simp add: calls_ok_def called_round [OF assms(4)])
  have env: "joins_all (re_parallel (ef_env (effect_of job sv s)))"
    using assms(5) by (simp add: effect_of_def Let_def split: prod.splits)
  from dist have "distinct (selected_of job sv s)" by simp
  with env have out: "mset (px_providers_used out @ px_providers_failed out) = mset (selected_of job sv s)"
    unfolding out_def by (rule fanout_partition)
  let ?a = "ss_accumulated s"
  let ?all = "(px_providers_used ?a @ px_providers_used out) @ (px_providers_failed ?a @ px_providers_failed out)"
  have all: "mset ?all = mset (called (ss_orchestrator s) @ selected_of job sv s)"
    using assms(1) out by (simp add: reported_ok_def ac_simps)
  then have "distinct ?all" using dist by (metis mset_eq_imp_distinct_iff)
  then have parts: "distinct (px_providers_used ?a @ px_providers_used out)"
    "distinct (px_providers_failed ?a @ px_providers_failed out)" by (simp_all only: distinct_append)
  have "ss_accumulated s' = merge_parallel_output ?a out"
    using search_round_effect(5) [OF assms(4)] False by (simp add: out_def)
  then show ?thesis
    using all unfolding reported_ok_def called_round [OF assms(4)]
    by (simp add: merge_parallel_output_def merge_lists [OF parts(1)] merge_lists [OF parts(2)] ac_simps)
qed

section \<open>The start of a search\<close>

abbreviation job_start :: "'t platform \<Rightarrow> search_env \<Rightarrow> query \<Rightarrow> provider list \<Rightarrow> orchestrator \<Rightarrow> search_state" where
  "job_start pf sv q providers os \<equiv> search_start os (sj_adaptive (search_job_of pf sv q providers os))"

lemma search_unfold:
  assumes "search pf sv q providers os = Some (resp, os')"
  obtains s reason where "search_loop pf sv (search_job_of pf sv q providers os) (job_start pf sv q providers os) = Some (s, reason)"
    "resp = fst (finish_search pf sv q (search_degradations os (sj_adaptive (search_job_of pf sv q providers os)) providers) s reason)"
    "os_routing_trace os' = os_routing_trace (ss_orchestrator s)" "os_budget os' = os_budget (ss_orchestrator s)"
  using assms by (auto simp: search_def Let_def finish_search_def)

lemma ordered_of_job:
  "set (ordered_of (search_job_of pf sv q providers os)) \<subseteq> po_name ` set providers"
  "distinct (map po_name providers) \<Longrightarrow> distinct (ordered_of (search_job_of pf sv q providers os))"
proof -
  let ?d = "filter (eligible q) (map describe_provider providers)"
  have m: "mset (ordered_of (search_job_of pf sv q providers os)) = mset (map pd_name ?d)"
    by (simp add: search_job_of_def adaptive_recommendation_for_def recommended_order(1) Let_def del: mset_map)
  have names: "map pd_name (map describe_provider providers) = map po_name providers"
    by (simp add: describe_provider_def)
  have "set (map pd_name ?d) \<subseteq> set (map pd_name (map describe_provider providers))" by auto
  then show "set (ordered_of (search_job_of pf sv q providers os)) \<subseteq> po_name ` set providers"
    unfolding names using mset_eq_setD [OF m] by simp
  assume "distinct (map po_name providers)"
  then have "distinct (map pd_name ?d)" unfolding names [symmetric] by (rule distinct_map_filter)
  then show "distinct (ordered_of (search_job_of pf sv q providers os))" using m by (metis mset_eq_imp_distinct_iff)
qed

lemma start_ok:
  fixes pf sv q providers os
  defines "job \<equiv> search_job_of pf sv q providers os" and "s \<equiv> job_start pf sv q providers os"
  shows "rounds_ok job s" "calls_ok job (unat (remaining_provider_calls (os_budget os))) s" "reported_ok s"
    and "distinct (map po_name providers) \<Longrightarrow> choice_ok job s"
proof -
  note rec = recommended_order [of "pf_powf pf" q "classify (pf_unicode pf) q" "map describe_provider providers"
      "os_telemetry os" "os_search_policy os" "os_role_assignment os" "sv_now sv"]
  have j: "sj_adaptive job = recommend_with_roles (pf_powf pf) q (classify (pf_unicode pf) q) (map describe_provider providers)
      (os_telemetry os) (os_search_policy os) (os_role_assignment os) (sv_now sv)"
    by (simp add: job_def search_job_of_def adaptive_recommendation_for_def Let_def)
  show "rounds_ok job s" "calls_ok job (unat (remaining_provider_calls (os_budget os))) s" "reported_ok s"
    using rec(4) by (simp_all add: s_def job_def [symmetric] j rounds_ok_def calls_ok_def reported_ok_def called_def
        search_start_def empty_parallel_output_def)
  assume "distinct (map po_name providers)"
  then have "distinct (ordered_of job)" unfolding job_def by (rule ordered_of_job(2))
  then show "choice_ok job s"
    using rec(2,3) by (auto simp: s_def job_def [symmetric] j choice_ok_def search_start_def unattempted_def)
qed

end
