(* ===== verification/Cache_Store.thy ===== *)
theory Cache_Store
  imports Model
begin

text \<open>
  The two cache tables of \<^verbatim>\<open>storage.rs\<close>: provider searches and documents, with expiry, the entry limit, the byte
  limit and least-recently-used eviction. A table is the list of its rows in rowid order; a row's key is
  the primary key, a tuple of strings. Every operation is one SQL transaction and takes whether SQLite
  succeeded: a failure is \<open>Err Operation\<close> and leaves the table as it was.
\<close>

section \<open>Tables\<close>

record 'k cache_row =
  cw_rowid :: nat
  cw_key :: 'k
  cw_payload :: rstr
  cw_size :: i64
  cw_created_at :: i64
  cw_last_accessed :: i64
  cw_etag :: "rstr option"
  cw_last_modified :: "rstr option"

type_synonym 'k cache_table = "'k cache_row list"

record cache_stats =
  cst_entries :: u64
  cst_size_bytes :: u64

definition ttl_cutoff :: "i64 \<Rightarrow> u64 \<Rightarrow> i64" where
  "ttl_cutoff now ttl_seconds = i64_saturating_sub now (u64_as_i64 ttl_seconds)"

definition touch :: "'k \<Rightarrow> i64 \<Rightarrow> 'k cache_table \<Rightarrow> 'k cache_table" where
  "touch key now t = map (\<lambda>r. if cw_key r = key then r\<lparr> cw_last_accessed := now \<rparr> else r) t"

text \<open>\<open>INSERT \<dots> ON CONFLICT DO UPDATE\<close>: an existing row keeps its rowid, a new one gets the next.\<close>

definition upsert ::
    "'k \<Rightarrow> rstr \<Rightarrow> i64 \<Rightarrow> rstr option \<Rightarrow> rstr option \<Rightarrow> 'k cache_table \<Rightarrow> 'k cache_table" where
  "upsert key payload now etag last_modified t =
     (if key \<in> cw_key ` set t
      then map (\<lambda>r. if cw_key r = key
             then r\<lparr> cw_payload := payload, cw_size := int (byte_len payload), cw_created_at := now,
                    cw_last_accessed := now, cw_etag := etag, cw_last_modified := last_modified \<rparr> else r) t
      else t @ [\<lparr> cw_rowid = Suc (foldr max (map cw_rowid t) 0), cw_key = key, cw_payload = payload,
             cw_size = int (byte_len payload), cw_created_at = now, cw_last_accessed = now, cw_etag = etag,
             cw_last_modified = last_modified \<rparr>])"

definition delete_before :: "i64 \<Rightarrow> 'k cache_table \<Rightarrow> 'k cache_table" where
  "delete_before before t = filter (\<lambda>r. \<not> cw_created_at r < before) t"

text \<open>\<open>ORDER BY last_accessed ASC, rowid ASC\<close>.\<close>

definition lru_order :: "'k cache_table \<Rightarrow> 'k cache_row list" where
  "lru_order t = sort_key cw_last_accessed (sort_key cw_rowid t)"

definition evict_oldest :: "nat \<Rightarrow> 'k cache_table \<Rightarrow> 'k cache_table" where
  "evict_oldest n t = filter (\<lambda>r. cw_rowid r \<notin> cw_rowid ` set (take n (lru_order t))) t"

definition total_size :: "'k cache_table \<Rightarrow> int" where
  "total_size t = sum_list (map cw_size t)"

lemma length_lru_order [simp]: "length (lru_order t) = length t"
  by (simp add: lru_order_def)

lemma set_lru_order [simp]: "set (lru_order t) = set t"
  by (simp add: lru_order_def)

lemma evict_oldest_shorter:
  assumes "t \<noteq> []"
  shows "length (evict_oldest (Suc n) t) < length t"
proof -
  obtain r rs where "lru_order t = r # rs" using assms by (metis length_lru_order length_0_conv neq_Nil_conv)
  then have "r \<in> set t" "cw_rowid r \<in> cw_rowid ` set (take (Suc n) (lru_order t))"
    by (metis list.set_intros(1) set_lru_order, simp)
  then show ?thesis unfolding evict_oldest_def by (intro length_filter_less [of r]) auto
qed

text \<open>The byte limit: rows go one at a time until the rest fits or nothing is left.\<close>

function shrink :: "i64 \<Rightarrow> 'k cache_table \<Rightarrow> 'k cache_table" where
  "shrink max_bytes t =
     (if total_size t \<le> max_bytes then t
      else if t = [] then t
      else shrink max_bytes (evict_oldest 1 t))"
  by pat_completeness auto
termination
  by (relation "measure (\<lambda>(_, t). length t)") (auto intro: evict_oldest_shorter)

declare shrink.simps [simp del]

section \<open>Provider searches\<close>

type_synonym provider_key = "rstr \<times> rstr \<times> rstr \<times> rstr"

definition cache_get :: "bool \<Rightarrow> 'k \<Rightarrow> i64 \<Rightarrow> u64 \<Rightarrow> 'k cache_table \<Rightarrow> (StorageError + rstr option) \<times> 'k cache_table" where
  "cache_get io key now ttl_seconds t =
     (if \<not> io then (Err Operation, t)
      else case List.find (\<lambda>r. cw_key r = key \<and> ttl_cutoff now ttl_seconds \<le> cw_created_at r) t of
          None \<Rightarrow> (Ok None, t)
        | Some r \<Rightarrow> (Ok (Some (cw_payload r)), touch key now t))"

definition limit_entries :: "u64 \<Rightarrow> 'k cache_table \<Rightarrow> 'k cache_table" where
  "limit_entries max_entries t =
     (if u64_as_i64 max_entries < int (length t)
      then evict_oldest (nat (int (length t) - u64_as_i64 max_entries)) t else t)"

definition cache_put ::
    "bool \<Rightarrow> 'k \<Rightarrow> rstr \<Rightarrow> i64 \<Rightarrow> u64 \<Rightarrow> u64 \<Rightarrow> u64 \<Rightarrow> 'k cache_table \<Rightarrow> (StorageError + unit) \<times> 'k cache_table" where
  "cache_put io key payload now ttl_seconds max_entries max_bytes t =
     (if \<not> io then (Err Operation, t)
      else (Ok (), shrink (u64_as_i64 max_bytes) (limit_entries max_entries
              (delete_before (ttl_cutoff now ttl_seconds) (upsert key payload now None None t)))))"

definition cache_stats_of :: "bool \<Rightarrow> 'k cache_table \<Rightarrow> StorageError + cache_stats" where
  "cache_stats_of io t =
     (if \<not> io then Err Operation
      else Ok \<lparr> cst_entries = of_nat (length t), cst_size_bytes = of_int (max (total_size t) 0) \<rparr>)"

definition cache_purge :: "bool \<Rightarrow> 'k cache_table \<Rightarrow> (StorageError + u64) \<times> 'k cache_table" where
  "cache_purge io t = (if \<not> io then (Err Operation, t) else (Ok (of_nat (length t)), []))"

definition cache_prune_entries :: "bool \<Rightarrow> i64 \<Rightarrow> 'k cache_table \<Rightarrow> (StorageError + u64) \<times> 'k cache_table" where
  "cache_prune_entries io before t =
     (if \<not> io then (Err Operation, t)
      else (Ok (of_nat (length t - length (delete_before before t))), delete_before before t))"

section \<open>Documents\<close>

type_synonym document_key = "rstr \<times> rstr \<times> rstr"

record cached_document =
  cd_payload :: rstr
  cd_etag :: "rstr option"
  cd_last_modified :: "rstr option"
  cd_fresh :: bool

definition document_cache_get ::
    "bool \<Rightarrow> document_key \<Rightarrow> i64 \<Rightarrow> u64 \<Rightarrow> document_key cache_table \<Rightarrow> (StorageError + rstr option) \<times> document_key cache_table" where
  "document_cache_get io key now ttl_seconds t =
     (if \<not> io then (Err Operation, t)
      else case List.find (\<lambda>r. cw_key r = key \<and> ttl_cutoff now ttl_seconds \<le> cw_created_at r) t of
          None \<Rightarrow> (Ok None, t)
        | Some r \<Rightarrow> (Ok (Some (cw_payload r)), touch key now t))"

text \<open>\<open>ORDER BY created_at DESC, rowid DESC LIMIT 1\<close>: the last row of the ascending order.\<close>

definition latest_row :: "rstr \<Rightarrow> rstr \<Rightarrow> i64 \<Rightarrow> document_key cache_table \<Rightarrow> document_key cache_row option" where
  "latest_row u version cutoff t =
     (let rows = sort_key cw_created_at (sort_key cw_rowid
            (filter (\<lambda>r. fst (cw_key r) = u \<and> snd (snd (cw_key r)) = version \<and> cutoff \<le> cw_created_at r) t))
      in if rows = [] then None else Some (last rows))"

definition document_cache_get_latest ::
    "bool \<Rightarrow> rstr \<Rightarrow> rstr \<Rightarrow> i64 \<Rightarrow> u64 \<Rightarrow> document_key cache_table
     \<Rightarrow> (StorageError + rstr option) \<times> document_key cache_table" where
  "document_cache_get_latest io u version now ttl_seconds t =
     (if \<not> io then (Err Operation, t)
      else case latest_row u version (ttl_cutoff now ttl_seconds) t of
          None \<Rightarrow> (Ok None, t)
        | Some r \<Rightarrow> (Ok (Some (cw_payload r)),
            map (\<lambda>x. if cw_rowid x = cw_rowid r then x\<lparr> cw_last_accessed := now \<rparr> else x) t))"

definition document_cache_get_with_revalidation ::
    "bool \<Rightarrow> document_key \<Rightarrow> i64 \<Rightarrow> u64 \<Rightarrow> u64 \<Rightarrow> document_key cache_table
     \<Rightarrow> (StorageError + cached_document option) \<times> document_key cache_table" where
  "document_cache_get_with_revalidation io key now ttl_seconds stale_seconds t =
     (if \<not> io then (Err Operation, t)
      else case List.find (\<lambda>r. cw_key r = key \<and> ttl_cutoff now (ttl_seconds + stale_seconds) \<le> cw_created_at r) t of
          None \<Rightarrow> (Ok None, t)
        | Some r \<Rightarrow> (Ok (Some \<lparr> cd_payload = cw_payload r, cd_etag = cw_etag r, cd_last_modified = cw_last_modified r,
              cd_fresh = (ttl_cutoff now ttl_seconds \<le> cw_created_at r) \<rparr>), touch key now t))"

definition limit_documents :: "u64 \<Rightarrow> 'k cache_table \<Rightarrow> 'k cache_table" where
  "limit_documents max_entries t = evict_oldest (nat (max 0 (int (length t) - u64_as_i64 max_entries))) t"

definition document_cache_put ::
    "bool \<Rightarrow> document_key \<Rightarrow> rstr \<Rightarrow> i64 \<Rightarrow> u64 \<Rightarrow> u64 \<Rightarrow> u64 \<Rightarrow> rstr option \<Rightarrow> rstr option
     \<Rightarrow> document_key cache_table \<Rightarrow> (StorageError + unit) \<times> document_key cache_table" where
  "document_cache_put io key payload now ttl_seconds max_entries max_bytes etag last_modified t =
     (if \<not> io then (Err Operation, t)
      else (Ok (), shrink (u64_as_i64 max_bytes) (limit_documents max_entries
              (delete_before (ttl_cutoff now ttl_seconds) (upsert key payload now etag last_modified t)))))"

definition document_cache_stats :: "bool \<Rightarrow> document_key cache_table \<Rightarrow> StorageError + cache_stats" where
  "document_cache_stats io t =
     (if \<not> io then Err Operation
      else Ok \<lparr> cst_entries = of_nat (length t), cst_size_bytes = of_int (max (total_size t) 0) \<rparr>)"

definition document_cache_purge :: "bool \<Rightarrow> document_key cache_table \<Rightarrow> (StorageError + u64) \<times> document_key cache_table" where
  "document_cache_purge io t = (if \<not> io then (Err Operation, t) else (Ok (of_nat (length t)), []))"

definition document_cache_prune_entries ::
    "bool \<Rightarrow> i64 \<Rightarrow> document_key cache_table \<Rightarrow> (StorageError + u64) \<times> document_key cache_table" where
  "document_cache_prune_entries io before t =
     (if \<not> io then (Err Operation, t)
      else (Ok (of_nat (length t - length (delete_before before t))), delete_before before t))"

section \<open>The table invariant\<close>

text \<open>
  What SQLite and the \<open>INSERT\<close> statements keep of a table: one row per key, rowids in increasing order, the
  stored size the length of the payload.
\<close>

definition table_ok :: "'k cache_table \<Rightarrow> bool" where
  "table_ok t \<longleftrightarrow> distinct (map cw_key t) \<and> sorted_wrt (<) (map cw_rowid t) \<and>
     list_all (\<lambda>r. cw_size r = int (byte_len (cw_payload r))) t"

lemma table_ok_Nil [simp]: "table_ok []"
  by (simp add: table_ok_def)

lemma table_ok_filter: "table_ok t \<Longrightarrow> table_ok (filter P t)"
  unfolding table_ok_def
  by (auto simp: list_all_iff distinct_map_filter sorted_wrt_map intro: sorted_wrt_filter)

lemma table_ok_delete_before [intro]: "table_ok t \<Longrightarrow> table_ok (delete_before before t)"
  by (simp add: delete_before_def table_ok_filter)

lemma table_ok_evict_oldest [intro]: "table_ok t \<Longrightarrow> table_ok (evict_oldest n t)"
  by (simp add: evict_oldest_def table_ok_filter)

lemma table_ok_map:
  assumes "table_ok t" "\<And>r. cw_key (f r) = cw_key r" "\<And>r. cw_rowid (f r) = cw_rowid r"
    "\<And>r. cw_size r = int (byte_len (cw_payload r)) \<Longrightarrow> cw_size (f r) = int (byte_len (cw_payload (f r)))"
  shows "table_ok (map f t)"
  using assms by (simp add: table_ok_def list_all_iff o_def)

lemma table_ok_touch [intro]: "table_ok t \<Longrightarrow> table_ok (touch key now t)"
  unfolding touch_def by (rule table_ok_map) auto

lemma rowid_below_fresh: "n \<in> set ns \<Longrightarrow> n < Suc (foldr max ns 0)"
  by (induction ns) (auto simp: less_Suc_eq_le)

lemma table_ok_upsert [intro]:
  assumes "table_ok t" shows "table_ok (upsert key payload now etag lm t)"
proof (cases "key \<in> cw_key ` set t")
  case True
  then show ?thesis unfolding upsert_def by (simp only: if_True) (rule table_ok_map [OF assms]; simp)
next
  case False
  then show ?thesis using assms rowid_below_fresh [of _ "map cw_rowid t"]
    by (auto simp: upsert_def table_ok_def sorted_wrt_append)
qed

lemma table_ok_shrink [intro]: "table_ok t \<Longrightarrow> table_ok (shrink b t)"
  by (induction b t rule: shrink.induct) (subst shrink.simps, auto)

lemma table_ok_limit [intro]:
  "table_ok t \<Longrightarrow> table_ok (limit_entries n t)" "table_ok t \<Longrightarrow> table_ok (limit_documents n t)"
  by (auto simp: limit_entries_def limit_documents_def)

lemma table_ok_rowids: "table_ok t \<Longrightarrow> distinct (map cw_rowid t)"
  by (simp add: table_ok_def strict_sorted_iff)

lemma total_size_nonneg: "table_ok t \<Longrightarrow> 0 \<le> total_size t"
  unfolding table_ok_def total_size_def list_all_iff by (auto intro!: sum_list_nonneg)

section \<open>Eviction is the recency order cut from the left\<close>

text \<open>
  The reference for both limits: of the rows in least-recently-used order, the longest suffix within the
  entry limit and the byte limit.
\<close>

fun fit :: "int \<Rightarrow> i64 \<Rightarrow> 'k cache_row list \<Rightarrow> 'k cache_row list" where
  "fit max_entries max_bytes [] = []"
| "fit max_entries max_bytes (r # rs) =
     (if int (length (r # rs)) \<le> max_entries \<and> total_size (r # rs) \<le> max_bytes then r # rs
      else fit max_entries max_bytes rs)"

lemma lru_order_filter: "lru_order (filter P t) = filter P (lru_order t)"
  by (simp add: lru_order_def filter_sort)

lemma filter_notin_take:
  assumes "distinct (map f xs)" shows "filter (\<lambda>x. f x \<notin> f ` set (take n xs)) xs = drop n xs"
proof -
  have "filter (\<lambda>x. f x \<notin> f ` set (take n xs)) (take n xs @ drop n xs) = drop n xs"
  proof -
    have "distinct (map f (take n xs) @ map f (drop n xs))" using assms by (metis append_take_drop_id map_append)
    then have disj: "f ` set (take n xs) \<inter> f ` set (drop n xs) = {}" by simp
    show ?thesis unfolding filter_append using disj by (auto simp: filter_empty_conv intro!: filter_True)
  qed
  then show ?thesis by simp
qed

lemma mset_lru_order: "mset (lru_order t) = mset t"
  by (simp add: lru_order_def)

lemma lru_order_evict:
  assumes "table_ok t" shows "lru_order (evict_oldest n t) = drop n (lru_order t)"
proof -
  have "distinct (map cw_rowid (lru_order t))"
    using table_ok_rowids [OF assms] mset_lru_order [of t] by (metis distinct_map mset_eq_imp_distinct_iff mset_eq_setD mset_map)
  then show ?thesis by (simp add: evict_oldest_def lru_order_filter filter_notin_take)
qed

lemma total_size_lru_order [simp]: "total_size (lru_order t) = total_size t"
  unfolding total_size_def by (metis mset_lru_order mset_map sum_mset_sum_list)

lemma lru_order_Nil_iff [simp]: "lru_order t = [] \<longleftrightarrow> t = []"
  by (metis length_0_conv length_lru_order)

lemma lru_order_Nil [simp]: "lru_order [] = []" by simp

lemma lru_order_shrink:
  assumes "table_ok t" "int (length t) \<le> n" shows "lru_order (shrink b t) = fit n b (lru_order t)"
  using assms
proof (induction b t rule: shrink.induct)
  case (1 b t)
  show ?case
  proof (cases "t = []")
    case True then show ?thesis by (simp add: shrink.simps)
  next
    case False
    then obtain r rs where rs: "lru_order t = r # rs" by (metis lru_order_Nil_iff neq_Nil_conv)
    have len: "int (length (r # rs)) \<le> n" using "1.prems" rs by (metis length_lru_order)
    have size: "total_size (r # rs) = total_size t" using rs by (metis total_size_lru_order)
    show ?thesis
    proof (cases "total_size t \<le> b")
      case True then show ?thesis using rs len size by (simp add: shrink.simps)
    next
      case big: False
      have evict: "lru_order (evict_oldest 1 t) = rs" using lru_order_evict [OF "1.prems"(1), of 1] rs by simp
      have "length (evict_oldest 1 t) \<le> length t" by (simp add: evict_oldest_def)
      then have "lru_order (shrink b (evict_oldest 1 t)) = fit n b rs"
        using "1.IH" [OF big False table_ok_evict_oldest [OF "1.prems"(1)]] "1.prems"(2) evict by simp
      then show ?thesis using big False rs size by (simp add: shrink.simps [of b t])
    qed
  qed
qed

lemma fit_drop: "int (length rs) - int k \<ge> n \<Longrightarrow> fit n b rs = fit n b (drop k rs)"
proof (induction k arbitrary: rs)
  case (Suc k)
  then show ?case by (cases rs) (auto simp: Suc.IH)
qed simp

lemma fit_bounds:
  "0 \<le> n \<Longrightarrow> 0 \<le> b \<Longrightarrow> int (length (fit n b rs)) \<le> n \<and> total_size (fit n b rs) \<le> b"
  by (induction rs) (auto simp: total_size_def)

lemma fit_suffix: "\<exists>dropped. rs = dropped @ fit n b rs"
proof (induction rs)
  case (Cons r rs)
  then obtain dropped where "rs = dropped @ fit n b rs" by blast
  then have "r # rs = (r # dropped) @ fit n b rs" by simp
  moreover have "r # rs = [] @ (r # rs)" by simp
  ultimately show ?case by (metis fit.simps(2))
qed simp

lemma fit_keeps_last:
  "1 \<le> n \<Longrightarrow> cw_size r \<le> b \<Longrightarrow> r \<in> set (fit n b (rs @ [r]))"
  by (induction rs) (auto simp: total_size_def)


lemma lru_order_limits:
  assumes "table_ok t" "0 \<le> u64_as_i64 n"
  shows "lru_order (shrink b (limit_entries n t)) = fit (u64_as_i64 n) b (lru_order t)"
    and "lru_order (shrink b (limit_documents n t)) = fit (u64_as_i64 n) b (lru_order t)"
proof -
  define k where "k = nat (max 0 (int (length t) - u64_as_i64 n))"
  have entries: "limit_entries n t = evict_oldest k t"
    by (auto simp: limit_entries_def k_def evict_oldest_def)
  have documents: "limit_documents n t = evict_oldest k t" by (simp add: limit_documents_def k_def)
  have order: "lru_order (evict_oldest k t) = drop k (lru_order t)" by (rule lru_order_evict [OF assms(1)])
  then have "length (evict_oldest k t) = length t - k" by (metis length_drop length_lru_order)
  then have "int (length (evict_oldest k t)) \<le> u64_as_i64 n" using assms(2) by (simp add: k_def)
  then have "lru_order (shrink b (evict_oldest k t)) = fit (u64_as_i64 n) b (drop k (lru_order t))"
    using lru_order_shrink table_ok_evict_oldest assms(1) order by metis
  also have "\<dots> = fit (u64_as_i64 n) b (lru_order t)"
    using assms(2) by (cases "k = 0") (auto simp: k_def intro!: fit_drop [symmetric])
  finally show "lru_order (shrink b (limit_entries n t)) = fit (u64_as_i64 n) b (lru_order t)"
    and "lru_order (shrink b (limit_documents n t)) = fit (u64_as_i64 n) b (lru_order t)"
    by (simp_all add: entries documents)
qed

lemma u64_as_i64_small: "w < 2 ^ 63 \<Longrightarrow> u64_as_i64 w = uint w"
  for w :: u64
proof -
  assume "w < 2 ^ 63"
  then have "uint w < 2 ^ 63" by (simp add: word_less_def)
  then show ?thesis
    using signed_take_bit_int_eq_self [of 63 "uint w"] uint_ge_0 [of w]
    by (simp add: u64_as_i64_def sint_uint)
qed

lemma u64_as_i64_nonneg: "w < 2 ^ 63 \<Longrightarrow> 0 \<le> u64_as_i64 w"
  for w :: u64
  by (subst u64_as_i64_small) simp_all

lemma put_within_limits:
  assumes "table_ok t" "max_entries < 2 ^ 63" "max_bytes < 2 ^ 63"
    "lru_order t' = fit (u64_as_i64 max_entries) (u64_as_i64 max_bytes) (lru_order t)"
  shows "int (length t') \<le> uint max_entries \<and> total_size t' \<le> uint max_bytes"
  using fit_bounds [of "uint max_entries" "uint max_bytes" "lru_order t"] assms
  by (metis length_lru_order total_size_lru_order u64_as_i64_small uint_ge_0)

section \<open>Insert, then look up\<close>

lemma lru_order_last:
  assumes "r \<in> set t"
    "\<And>x. x \<in> set t \<Longrightarrow> x \<noteq> r \<Longrightarrow> cw_last_accessed x < cw_last_accessed r \<or>
       cw_last_accessed x = cw_last_accessed r \<and> cw_rowid x < cw_rowid r"
  shows "last (lru_order t) = r"
proof (rule ccontr)
  define m where "m = last (lru_order t)"
  let ?P = "\<lambda>y. cw_last_accessed y = cw_last_accessed r"
  assume "last (lru_order t) \<noteq> r"
  then have neq: "m \<noteq> r" by (simp add: m_def)
  have ne: "lru_order t \<noteq> []" using assms(1) by auto
  then have in_t: "m \<in> set t" using last_in_set m_def by (metis set_lru_order)
  obtain ys where split: "lru_order t = ys @ [m]" using ne m_def by (metis append_butlast_last_id)
  have "sorted (map cw_last_accessed (lru_order t))" by (simp add: lru_order_def)
  moreover have "r \<in> set (lru_order t)" using assms(1) by simp
  ultimately have "cw_last_accessed r \<le> cw_last_accessed m" using neq by (auto simp: split sorted_append)
  then have tie: "?P m" and less: "cw_rowid m < cw_rowid r" using assms(2) [OF in_t neq] by auto
  have "filter ?P (lru_order t) = filter ?P (sort_key cw_rowid t)"
    by (simp add: lru_order_def sort_key_stable)
  then have "filter ?P (sort_key cw_rowid t) = filter ?P ys @ [m]"
    using tie by (simp add: split)
  moreover have "sorted (map cw_rowid (filter ?P (sort_key cw_rowid t)))" by (simp add: filter_sort)
  moreover have "r \<in> set (filter ?P (sort_key cw_rowid t))" using assms(1) by simp
  ultimately have "cw_rowid r \<le> cw_rowid m" using neq by (auto simp: sorted_append)
  then show False using less by simp
qed

lemma find_SomeD: "List.find P xs = Some x \<Longrightarrow> x \<in> set xs \<and> P x"
  by (auto simp: find_Some_iff)

lemma find_by_key:
  assumes "distinct (map f t)" "r \<in> set t" "P r"
  shows "List.find (\<lambda>x. f x = f r \<and> P x) t = Some r"
  using assms by (induction t) (auto simp: image_iff)

lemma upsert_row:
  assumes "table_ok t"
    "key \<notin> cw_key ` set t \<and> list_all (\<lambda>r. cw_last_accessed r \<le> now) t \<or>
     list_all (\<lambda>r. cw_key r = key \<or> cw_last_accessed r < now) t"
  obtains r where "r \<in> set (upsert key payload now etag lm t)" "cw_key r = key" "cw_payload r = payload"
    "cw_created_at r = now" "cw_last_accessed r = now" "cw_etag r = etag" "cw_last_modified r = lm"
    "cw_size r = int (byte_len payload)"
    "\<And>x. x \<in> set (upsert key payload now etag lm t) \<Longrightarrow> x \<noteq> r \<Longrightarrow> cw_last_accessed x < now \<or>
       cw_last_accessed x = now \<and> cw_rowid x < cw_rowid r"
proof (cases "key \<in> cw_key ` set t")
  case True
  then obtain x where x: "x \<in> set t" "cw_key x = key" by auto
  have only: "y = x" if "y \<in> set t" "cw_key y = key" for y
    using that x assms(1) by (auto simp: table_ok_def distinct_map dest: inj_onD)
  let ?r = "x\<lparr> cw_payload := payload, cw_size := int (byte_len payload), cw_created_at := now,
                    cw_last_accessed := now, cw_etag := etag, cw_last_modified := lm \<rparr>"
  define f :: "'a cache_row \<Rightarrow> 'a cache_row" where "f y = (if cw_key y = key then y\<lparr> cw_payload := payload, cw_size := int (byte_len payload),
      cw_created_at := now, cw_last_accessed := now, cw_etag := etag, cw_last_modified := lm \<rparr> else y)" for y
  have t': "upsert key payload now etag lm t = map f t" using True by (simp add: upsert_def f_def)
  have fx: "f x = ?r" by (simp add: f_def x(2))
  have old: "list_all (\<lambda>r. cw_key r = key \<or> cw_last_accessed r < now) t" using assms(2) True by blast
  show ?thesis
  proof (rule that [of "f x"])
    fix z assume "z \<in> set (upsert key payload now etag lm t)" "z \<noteq> f x"
    then obtain y where y: "y \<in> set t" "z = f y" "y \<noteq> x" using t' by auto
    then have "cw_key y \<noteq> key" using only by blast
    then have "cw_last_accessed z < now" using old y by (auto simp: f_def list_all_iff)
    then show "cw_last_accessed z < now \<or> cw_last_accessed z = now \<and> cw_rowid z < cw_rowid (f x)" ..
  next
    show "f x \<in> set (upsert key payload now etag lm t)" using x(1) by (simp add: t')
  qed (simp_all add: fx x(2))
next
  case False
  let ?r = "\<lparr> cw_rowid = Suc (foldr max (map cw_rowid t) 0), cw_key = key, cw_payload = payload,
             cw_size = int (byte_len payload), cw_created_at = now, cw_last_accessed = now, cw_etag = etag,
             cw_last_modified = lm \<rparr>"
  have "cw_last_accessed y \<le> now \<and> cw_rowid y < cw_rowid ?r" if "y \<in> set t" for y
    using that False assms(2) rowid_below_fresh [of "cw_rowid y" "map cw_rowid t"] by (fastforce simp: list_all_iff)
  then show ?thesis using False
    by (intro that [of ?r]) (auto simp: upsert_def less_le)
qed


lemma put_keeps_row:
  assumes ok: "table_ok t" and limits: "1 \<le> max_entries" "max_entries < 2 ^ 63" "int (byte_len payload) \<le> u64_as_i64 max_bytes"
    and fresh: "ttl_cutoff now ttl_seconds \<le> now"
    and recent: "key \<notin> cw_key ` set t \<and> list_all (\<lambda>r. cw_last_accessed r \<le> now) t \<or>
      list_all (\<lambda>r. cw_key r = key \<or> cw_last_accessed r < now) t"
    and t': "lru_order t' = fit (u64_as_i64 max_entries) (u64_as_i64 max_bytes)
      (lru_order (delete_before (ttl_cutoff now ttl_seconds) (upsert key payload now etag lm t)))"
  obtains r where "r \<in> set t'" "cw_key r = key" "cw_payload r = payload" "cw_created_at r = now"
    "cw_etag r = etag" "cw_last_modified r = lm"
proof -
  let ?u = "delete_before (ttl_cutoff now ttl_seconds) (upsert key payload now etag lm t)"
  obtain r where r: "r \<in> set (upsert key payload now etag lm t)" "cw_key r = key" "cw_payload r = payload"
    "cw_created_at r = now" "cw_last_accessed r = now" "cw_etag r = etag" "cw_last_modified r = lm"
    "cw_size r = int (byte_len payload)"
    and others: "\<And>x. x \<in> set (upsert key payload now etag lm t) \<Longrightarrow> x \<noteq> r \<Longrightarrow> cw_last_accessed x < now \<or>
       cw_last_accessed x = now \<and> cw_rowid x < cw_rowid r"
    using upsert_row [OF ok recent] by blast
  have in_u: "r \<in> set ?u" using r fresh by (simp add: delete_before_def)
  have "last (lru_order ?u) = r"
    by (rule lru_order_last [OF in_u]) (auto simp: delete_before_def r dest: others)
  moreover have "lru_order ?u \<noteq> []" using in_u by auto
  ultimately obtain rs where split: "lru_order ?u = rs @ [r]" by (metis append_butlast_last_id)
  have "1 \<le> u64_as_i64 max_entries"
    using limits(1,2) by (metis u64_as_i64_small word_le_def uint_1)
  then have "r \<in> set (lru_order t')" using limits(3) unfolding t' split by (simp add: fit_keeps_last r)
  then show ?thesis using that [of r] r by simp
qed

lemma cache_put_lru:
  assumes "table_ok t" "max_entries < 2 ^ 63"
  shows "lru_order (snd (cache_put True key payload now ttl_seconds max_entries max_bytes t)) =
    fit (u64_as_i64 max_entries) (u64_as_i64 max_bytes)
      (lru_order (delete_before (ttl_cutoff now ttl_seconds) (upsert key payload now None None t)))"
  using lru_order_limits(1) [OF table_ok_delete_before [OF table_ok_upsert [OF assms(1)]] u64_as_i64_nonneg [OF assms(2)]]
  by (simp add: cache_put_def)

lemma document_cache_put_lru:
  assumes "table_ok t" "max_entries < 2 ^ 63"
  shows "lru_order (snd (document_cache_put True key payload now ttl_seconds max_entries max_bytes etag lm t)) =
    fit (u64_as_i64 max_entries) (u64_as_i64 max_bytes)
      (lru_order (delete_before (ttl_cutoff now ttl_seconds) (upsert key payload now etag lm t)))"
  using lru_order_limits(2) [OF table_ok_delete_before [OF table_ok_upsert [OF assms(1)]] u64_as_i64_nonneg [OF assms(2)]]
  by (simp add: document_cache_put_def)

lemma table_ok_cache_put [intro]: "table_ok t \<Longrightarrow> table_ok (snd (cache_put io key payload now ttl n b t))"
  by (auto simp: cache_put_def)

lemma table_ok_document_cache_put [intro]:
  "table_ok t \<Longrightarrow> table_ok (snd (document_cache_put io key payload now ttl n b etag lm t))"
  by (auto simp: document_cache_put_def)

text \<open>
  C19. Storing a provider search succeeds, keeps the table well formed, and leaves exactly the longest suffix
  of the least-recently-used order of the unexpired rows that is within the entry limit and the byte limit;
  in particular both limits hold of the stored table, for limits below \<open>2^63\<close> (larger ones turn negative in the
  \<open>as i64\<close> casts). A failed transaction changes nothing.
\<close>

theorem cache_put_evicts_lru:
  assumes "table_ok t" "max_entries < 2 ^ 63" "max_bytes < 2 ^ 63"
  shows "case cache_put io key payload now ttl_seconds max_entries max_bytes t of (result, t') \<Rightarrow>
    if io then result = Ok () \<and> table_ok t' \<and>
      lru_order t' = fit (uint max_entries) (uint max_bytes)
        (lru_order (delete_before (ttl_cutoff now ttl_seconds) (upsert key payload now None None t))) \<and>
      int (length t') \<le> uint max_entries \<and> total_size t' \<le> uint max_bytes
    else result = Err Operation \<and> t' = t"
proof (cases io)
  case True
  let ?t' = "snd (cache_put True key payload now ttl_seconds max_entries max_bytes t)"
  note lru = cache_put_lru [OF assms(1,2), of key payload now ttl_seconds max_bytes]
  have "int (length ?t') \<le> uint max_entries \<and> total_size ?t' \<le> uint max_bytes"
    by (rule put_within_limits [OF _ assms(2,3) lru]) (use assms(1) in auto)
  moreover have "fst (cache_put True key payload now ttl_seconds max_entries max_bytes t) = Ok ()"
    by (simp add: cache_put_def)
  ultimately show ?thesis
    using True lru table_ok_cache_put [OF assms(1), of True key payload now ttl_seconds max_entries max_bytes]
    by (simp add: case_prod_beta u64_as_i64_small [OF assms(2)] u64_as_i64_small [OF assms(3)])
qed (simp add: cache_put_def)

definition sample_row :: "nat \<Rightarrow> rstr \<Rightarrow> rstr \<Rightarrow> i64 \<Rightarrow> rstr cache_row" where
  "sample_row n key payload now = \<lparr> cw_rowid = n, cw_key = key, cw_payload = payload, cw_size = int (byte_len payload),
     cw_created_at = now, cw_last_accessed = now, cw_etag = None, cw_last_modified = None \<rparr>"

theorem cache_put_evicts_lru_witness:
  "table_ok [sample_row 1 [97] [120, 121] 10, sample_row 2 [98] [122] 11] \<and>
   int (length (snd (cache_put True [99] [119] 12 300 2 2
      [sample_row 1 [97] [120, 121] 10, sample_row 2 [98] [122] 11]))) \<le> 2"
proof -
  have ok: "table_ok [sample_row 1 [97] [120, 121] 10, sample_row 2 [98] [122] 11]"
    by (simp add: table_ok_def sample_row_def)
  then show ?thesis
    using cache_put_evicts_lru [OF ok, where max_entries = 2 and max_bytes = 2 and io = True and key = "[99]" and payload = "[119]" and now = 12 and ttl_seconds = 300] by (simp split: prod.splits)
qed


lemma cache_get_row:
  assumes "table_ok t" "r \<in> set t" "ttl_cutoff now ttl_seconds \<le> cw_created_at r"
  shows "fst (cache_get True (cw_key r) now ttl_seconds t) = Ok (Some (cw_payload r))"
  using find_by_key [of cw_key t r "\<lambda>x. ttl_cutoff now ttl_seconds \<le> cw_created_at x"] assms
  by (simp add: cache_get_def table_ok_def)

text \<open>
  C20. A provider search that was just stored is found again, with its payload, until its time to live has
  passed: the entry limit is not zero, the payload fits the byte limit, and the row is the most recent one of
  the table (its key is new, or every other row was last read in an earlier second).
\<close>

theorem cache_put_get:
  assumes "table_ok t" "1 \<le> max_entries" "max_entries < 2 ^ 63" "max_bytes < 2 ^ 63"
    "int (byte_len payload) \<le> uint max_bytes"
    "ttl_cutoff now ttl_seconds \<le> now" "ttl_cutoff later ttl_seconds \<le> now"
    "key \<notin> cw_key ` set t \<and> list_all (\<lambda>r. cw_last_accessed r \<le> now) t \<or>
      list_all (\<lambda>r. cw_key r = key \<or> cw_last_accessed r < now) t"
  shows "fst (cache_get True key later ttl_seconds
      (snd (cache_put True key payload now ttl_seconds max_entries max_bytes t))) = Ok (Some payload)"
proof -
  have "int (byte_len payload) \<le> u64_as_i64 max_bytes" using assms(4,5) u64_as_i64_small by simp
  then obtain r where r: "r \<in> set (snd (cache_put True key payload now ttl_seconds max_entries max_bytes t))"
    "cw_key r = key" "cw_payload r = payload" "cw_created_at r = now"
    using put_keeps_row [OF assms(1-3) _ assms(6,8) cache_put_lru [OF assms(1,3)]] by blast
  show ?thesis using cache_get_row [OF table_ok_cache_put [OF assms(1)] r(1)] r assms(7) by simp
qed

theorem cache_put_get_witness:
  "fst (cache_get True [99] 310 300 (snd (cache_put True [99] [119] 12 300 2 2
      [sample_row 1 [97] [120, 121] 10, sample_row 2 [98] [122] 12]))) = Ok (Some [119])"
  by (rule cache_put_get)
    (simp_all add: table_ok_def sample_row_def ttl_cutoff_def i64_saturating_sub_def i64_clamp_def i64_min_def i64_max_def u64_as_i64_def len_utf8_def)

section \<open>Histories\<close>

text \<open>
  The last successful store of every key in a history of operations, and the contract of one operation: it
  keeps the invariant, and every row it leaves carries the payload and time of an old row with the same key,
  or those of its own store.
\<close>

definition record_put :: "('e \<Rightarrow> ('k \<times> rstr \<times> i64) option) \<Rightarrow> 'e \<Rightarrow> ('k \<rightharpoonup> rstr \<times> i64) \<Rightarrow> ('k \<rightharpoonup> rstr \<times> i64)" where
  "record_put stores e m = (case stores e of None \<Rightarrow> m | Some (k, payload, now) \<Rightarrow> m(k \<mapsto> (payload, now)))"

definition last_put :: "('e \<Rightarrow> ('k \<times> rstr \<times> i64) option) \<Rightarrow> 'e list \<Rightarrow> ('k \<rightharpoonup> rstr \<times> i64)" where
  "last_put stores es = fold (record_put stores) es Map.empty"

definition explained :: "('k \<rightharpoonup> rstr \<times> i64) \<Rightarrow> 'k cache_table \<Rightarrow> bool" where
  "explained m t \<longleftrightarrow> list_all (\<lambda>r. m (cw_key r) = Some (cw_payload r, cw_created_at r)) t"

locale cache_history =
  fixes stores :: "'e \<Rightarrow> ('k \<times> rstr \<times> i64) option"
    and step :: "'e \<Rightarrow> 'k cache_table \<Rightarrow> 'k cache_table"
  assumes step_ok: "table_ok t \<Longrightarrow> table_ok (step e t)"
    and step_explained: "explained m t \<Longrightarrow> explained (record_put stores e m) (step e t)"
begin

lemma run_ok: "table_ok t \<Longrightarrow> table_ok (fold step es t)"
  by (induction es arbitrary: t) (auto simp: step_ok)

lemma run_explained: "explained m t \<Longrightarrow> explained (fold (record_put stores) es m) (fold step es t)"
  by (induction es arbitrary: m t) (auto simp: step_explained)

lemma run_explained_Nil: "explained (last_put stores es) (fold step es [])"
  unfolding last_put_def by (rule run_explained) (simp add: explained_def)

lemma row_is_last_put:
  assumes "r \<in> set (fold step es [])"
  shows "last_put stores es (cw_key r) = Some (cw_payload r, cw_created_at r)"
  using run_explained_Nil [of es] assms by (simp add: explained_def list_all_iff)

end

lemma explained_filter: "explained m t \<Longrightarrow> explained m (filter P t)"
  by (auto simp: explained_def list_all_iff)

lemma explained_evict: "explained m t \<Longrightarrow> explained m (evict_oldest n t)"
  unfolding evict_oldest_def by (rule explained_filter)

lemma explained_delete_before: "explained m t \<Longrightarrow> explained m (delete_before before t)"
  unfolding delete_before_def by (rule explained_filter)

lemma explained_shrink: "explained m t \<Longrightarrow> explained m (shrink b t)"
  by (induction b t rule: shrink.induct) (subst shrink.simps, auto simp: explained_evict)

lemma explained_limit: "explained m t \<Longrightarrow> explained m (limit_entries n t)" "explained m t \<Longrightarrow> explained m (limit_documents n t)"
  by (simp_all add: limit_entries_def limit_documents_def explained_evict)

lemma explained_touch: "explained m t \<Longrightarrow> explained m (touch key now t)"
  by (auto simp: explained_def touch_def list_all_iff)

lemma explained_upsert:
  "explained m t \<Longrightarrow> explained (m(key \<mapsto> (payload, now))) (upsert key payload now etag lm t)"
  by (auto simp: explained_def upsert_def list_all_iff)

lemmas explained_intros = explained_shrink explained_limit explained_delete_before explained_upsert explained_touch

text \<open>The operations on the provider table as events.\<close>

datatype provider_event =
    Provider_get bool provider_key i64 u64
  | Provider_put bool provider_key rstr i64 u64 u64 u64
  | Provider_purge bool
  | Provider_prune bool i64

fun provider_step :: "provider_event \<Rightarrow> provider_key cache_table \<Rightarrow> provider_key cache_table" where
  "provider_step (Provider_get io key now ttl) t = snd (cache_get io key now ttl t)"
| "provider_step (Provider_put io key payload now ttl n b) t = snd (cache_put io key payload now ttl n b t)"
| "provider_step (Provider_purge io) t = snd (cache_purge io t)"
| "provider_step (Provider_prune io before) t = snd (cache_prune_entries io before t)"

fun provider_stores :: "provider_event \<Rightarrow> (provider_key \<times> rstr \<times> i64) option" where
  "provider_stores (Provider_put io key payload now ttl n b) = (if io then Some (key, payload, now) else None)"
| "provider_stores _ = None"

interpretation provider_cache: cache_history provider_stores provider_step
proof
  fix t :: "provider_key cache_table" and e
  assume "table_ok t"
  then show "table_ok (provider_step e t)"
    by (cases e) (auto simp: cache_get_def cache_purge_def cache_prune_entries_def split: option.splits)
next
  fix m :: "provider_key \<rightharpoonup> rstr \<times> i64" and t e
  assume "explained m t"
  then show "explained (record_put provider_stores e m) (provider_step e t)"
    by (cases e) (auto simp: cache_get_def cache_put_def cache_purge_def cache_prune_entries_def record_put_def explained_intros
      explained_def [of _ "[]"] split: option.splits)
qed

text \<open>
  After any history of lookups, stores, purges and prunes (each succeeding or failing), a provider cache
  hit returns the payload of the last successful store under exactly that provider, adapter version, query and
  filters, and that store is no older than the time to live: the cache never serves another key's payload, an
  overwritten one or an expired one.
\<close>

theorem cache_hit_sound:
  assumes "fst (cache_get True key now ttl_seconds (fold provider_step es [])) = Ok (Some payload)"
  shows "\<exists>stored_at. last_put provider_stores es key = Some (payload, stored_at) \<and> ttl_cutoff now ttl_seconds \<le> stored_at"
proof -
  obtain r where "r \<in> set (fold provider_step es [])" "cw_key r = key" "ttl_cutoff now ttl_seconds \<le> cw_created_at r"
    "cw_payload r = payload"
    using assms by (auto simp: cache_get_def dest: find_SomeD split: option.splits)
  then show ?thesis using provider_cache.row_is_last_put by fastforce
qed


theorem cache_hit_sound_witness:
  "\<exists>stored_at. last_put provider_stores
      [Provider_put True ([112], [49], [113], []) [120] 5 300 2 9, Provider_put True ([112], [49], [113], []) [121] 6 300 2 9,
       Provider_put True ([112], [49], [114], []) [122] 7 300 2 9] ([112], [49], [113], []) = Some ([121], stored_at)
     \<and> ttl_cutoff 200 300 \<le> stored_at"
  by (rule cache_hit_sound)
    (simp add: cache_get_def cache_put_def upsert_def delete_before_def shrink.simps limit_entries_def evict_oldest_def
      total_size_def ttl_cutoff_def i64_saturating_sub_def i64_clamp_def i64_min_def i64_max_def u64_as_i64_def len_utf8_def)

text \<open>The operations on the document table as events.\<close>

datatype document_event =
    Document_get bool document_key i64 u64
  | Document_get_latest bool rstr rstr i64 u64
  | Document_revalidate bool document_key i64 u64 u64
  | Document_put bool document_key rstr i64 u64 u64 u64 "rstr option" "rstr option"
  | Document_purge bool
  | Document_prune bool i64

fun document_step :: "document_event \<Rightarrow> document_key cache_table \<Rightarrow> document_key cache_table" where
  "document_step (Document_get io key now ttl) t = snd (document_cache_get io key now ttl t)"
| "document_step (Document_get_latest io u version now ttl) t = snd (document_cache_get_latest io u version now ttl t)"
| "document_step (Document_revalidate io key now ttl stale) t =
     snd (document_cache_get_with_revalidation io key now ttl stale t)"
| "document_step (Document_put io key payload now ttl n b etag lm) t =
     snd (document_cache_put io key payload now ttl n b etag lm t)"
| "document_step (Document_purge io) t = snd (document_cache_purge io t)"
| "document_step (Document_prune io before) t = snd (document_cache_prune_entries io before t)"

fun document_stores :: "document_event \<Rightarrow> (document_key \<times> rstr \<times> i64) option" where
  "document_stores (Document_put io key payload now ttl n b etag lm) = (if io then Some (key, payload, now) else None)"
| "document_stores _ = None"

lemma table_ok_touch_rowid: "table_ok t \<Longrightarrow> table_ok (map (\<lambda>x. if cw_rowid x = n then x\<lparr> cw_last_accessed := now \<rparr> else x) t)"
  by (rule table_ok_map) auto

lemma explained_touch_rowid: "explained m t \<Longrightarrow> explained m (map (\<lambda>x. if cw_rowid x = n then x\<lparr> cw_last_accessed := now \<rparr> else x) t)"
  by (auto simp: explained_def list_all_iff)

lemmas document_cache_defs = document_cache_get_def document_cache_get_latest_def document_cache_get_with_revalidation_def
  document_cache_put_def document_cache_purge_def document_cache_prune_entries_def

interpretation document_cache: cache_history document_stores document_step
proof
  fix t :: "document_key cache_table" and e
  assume "table_ok t"
  then show "table_ok (document_step e t)"
    by (cases e) (auto simp: document_cache_defs table_ok_touch_rowid split: option.splits)
next
  fix m :: "document_key \<rightharpoonup> rstr \<times> i64" and t e
  assume "explained m t"
  then show "explained (record_put document_stores e m) (document_step e t)"
    by (cases e) (auto simp: document_cache_defs record_put_def explained_intros explained_touch_rowid
      explained_def [of _ "[]"] split: option.splits)
qed



text \<open>
  The stale window survives only until the next store: \<^verbatim>\<open>document_cache_put\<close> deletes every row older than
  the time to live, so an entry the stale window still covers is gone as soon as any other document is stored.
\<close>

theorem store_ends_stale_window:
  assumes "key \<noteq> other" "list_all (\<lambda>r. cw_key r = other \<longrightarrow> cw_created_at r < ttl_cutoff now ttl_seconds) t"
  shows "fst (document_cache_get_with_revalidation True other later ttl_seconds stale_seconds
    (snd (document_cache_put True key payload now ttl_seconds max_entries max_bytes etag lm t))) = Ok None"
proof -
  have gone: "list_all (\<lambda>r. cw_key r \<noteq> other) (delete_before (ttl_cutoff now ttl_seconds) (upsert key payload now etag lm t))"
    using assms by (auto simp: delete_before_def upsert_def list_all_iff)
  have evict: "list_all (\<lambda>r. cw_key r \<noteq> other) u \<Longrightarrow> list_all (\<lambda>r. cw_key r \<noteq> other) (evict_oldest n u)" for n u
    by (auto simp: evict_oldest_def list_all_iff)
  have "list_all (\<lambda>r. cw_key r \<noteq> other) u \<Longrightarrow> list_all (\<lambda>r. cw_key r \<noteq> other) (shrink b u)" for b u
    by (induction b u rule: shrink.induct) (subst shrink.simps, auto simp: evict)
  then have "list_all (\<lambda>r. cw_key r \<noteq> other)
      (snd (document_cache_put True key payload now ttl_seconds max_entries max_bytes etag lm t))"
    using gone evict by (simp add: document_cache_put_def limit_documents_def)
  then have "List.find (\<lambda>r. cw_key r = other \<and> ttl_cutoff later (ttl_seconds + stale_seconds) \<le> cw_created_at r)
      (snd (document_cache_put True key payload now ttl_seconds max_entries max_bytes etag lm t)) = None"
    by (auto simp: find_None_iff list_all_iff)
  then show ?thesis by (simp add: document_cache_get_with_revalidation_def)
qed

text \<open>
  A limit of \<open>2^63\<close> or more is negative after the \<open>as i64\<close> cast, and the byte loop then empties the table.
\<close>

lemma huge_byte_limit_empties:
  assumes "table_ok t" "u64_as_i64 max_bytes < 0"
  shows "snd (cache_put True key payload now ttl_seconds max_entries max_bytes t) = []"
proof -
  have "table_ok u \<Longrightarrow> shrink (u64_as_i64 max_bytes) u = []" for u :: "'a cache_table"
  proof (induction "u64_as_i64 max_bytes" u rule: shrink.induct)
    case (1 u)
    then show ?case using total_size_nonneg [of u] assms(2) by (subst shrink.simps) auto
  qed
  then show ?thesis
    using table_ok_limit(1) [OF table_ok_delete_before [OF table_ok_upsert [OF assms(1)]]] by (simp add: cache_put_def)
qed

end
