(* ===== verification/Document_Model.thy ===== *)
theory Document_Model
  imports Model
begin

text \<open>
  The document data of \<^verbatim>\<open>model.rs\<close> that the caches and the Deep pipeline exchange.
\<close>

datatype FetchMethod = Http | Rendered | Local

datatype DocumentStatus = Enriched | Superficial | Doc_Failed

record document =
  dc_schema_version :: rstr
  dc_search_result_id :: rstr
  dc_original_url :: url
  dc_canonical_url :: url
  dc_final_url :: url
  dc_content_hash :: rstr
  dc_fetch_method :: FetchMethod
  dc_extractor_used :: "rstr option"
  dc_content_type :: "rstr option"
  dc_size :: u64
  dc_retrieved_at :: rstr
  dc_status :: DocumentStatus
  dc_content :: "rstr option"
  dc_title :: "rstr option"
  dc_author :: "rstr option"
  dc_published_at :: "rstr option"
  dc_metadata :: "(rstr \<times> rstr) list"

definition sample_document :: document where
  "sample_document = \<lparr> dc_schema_version = SCHEMA_VERSION, dc_search_result_id = lit ''id'', dc_original_url = lit ''u'',
     dc_canonical_url = lit ''u'', dc_final_url = lit ''u'', dc_content_hash = lit ''h'', dc_fetch_method = Http,
     dc_extractor_used = None, dc_content_type = None, dc_size = 0, dc_retrieved_at = [], dc_status = Enriched,
     dc_content = Some (lit ''text''), dc_title = None, dc_author = None, dc_published_at = None, dc_metadata = [] \<rparr>"

end
