(* ===== verification/Cache.thy ===== *)
theory Cache
  imports Cache_Store Document_Model Query_Parse Fanout
begin

text \<open>
  The cache clients of \<^verbatim>\<open>cache.rs\<close> and \<^verbatim>\<open>document_cache.rs\<close>: hit and miss counters, the provider-search cache, the
  caching provider wrapper and the document cache, over the tables of \<^verbatim>\<open>storage.rs\<close>. The JSON codec of
  \<^verbatim>\<open>serde_json\<close> is a parameter, a pair of functions; the clock readings and whether each SQL transaction
  succeeds are arguments.
\<close>

section \<open>Counters\<close>

record cache_counters =
  cc_provider_search_hits :: u64
  cc_provider_search_misses :: u64
  cc_document_hits :: u64
  cc_document_misses :: u64

definition cache_counters_default :: cache_counters where
  "cache_counters_default = \<lparr> cc_provider_search_hits = 0, cc_provider_search_misses = 0, cc_document_hits = 0, cc_document_misses = 0 \<rparr>"

definition record_provider_search :: "bool \<Rightarrow> cache_counters \<Rightarrow> cache_counters" where
  "record_provider_search hit c =
     (if hit then c\<lparr> cc_provider_search_hits := cc_provider_search_hits c + 1 \<rparr>
      else c\<lparr> cc_provider_search_misses := cc_provider_search_misses c + 1 \<rparr>)"

definition record_document :: "bool \<Rightarrow> cache_counters \<Rightarrow> cache_counters" where
  "record_document hit c =
     (if hit then c\<lparr> cc_document_hits := cc_document_hits c + 1 \<rparr>
      else c\<lparr> cc_document_misses := cc_document_misses c + 1 \<rparr>)"

record cache_effectiveness =
  cf_provider_search_hits :: u64
  cf_provider_search_misses :: u64
  cf_provider_search_hit_rate :: f64
  cf_document_hits :: u64
  cf_document_misses :: u64
  cf_document_hit_rate :: f64

definition hit_rate :: "u64 \<Rightarrow> u64 \<Rightarrow> f64" where
  "hit_rate hits misses =
     (let total = hits + misses
      in if total = 0 then Fin 0 else f64_div (f64_of_nat (unat hits)) (f64_of_nat (unat total)))"

definition counters_snapshot :: "cache_counters \<Rightarrow> cache_effectiveness" where
  "counters_snapshot c =
     \<lparr> cf_provider_search_hits = cc_provider_search_hits c,
       cf_provider_search_misses = cc_provider_search_misses c,
       cf_provider_search_hit_rate = hit_rate (cc_provider_search_hits c) (cc_provider_search_misses c),
       cf_document_hits = cc_document_hits c,
       cf_document_misses = cc_document_misses c,
       cf_document_hit_rate = hit_rate (cc_document_hits c) (cc_document_misses c) \<rparr>"

section \<open>The provider-search cache\<close>

record provider_search_cache_policy =
  pp_enabled :: bool
  pp_ttl_seconds :: u64
  pp_max_entries :: u64
  pp_max_bytes :: u64

definition provider_search_cache_policy_default :: provider_search_cache_policy where
  "provider_search_cache_policy_default =
     \<lparr> pp_enabled = False, pp_ttl_seconds = 300, pp_max_entries = 10000, pp_max_bytes = 268435456 \<rparr>"

record 'a json_codec =
  js_to_string :: "'a \<Rightarrow> rstr option"
  js_from_str :: "rstr \<Rightarrow> 'a option"

definition unwrap_or_default :: "rstr option \<Rightarrow> rstr" where
  "unwrap_or_default s = (case s of None \<Rightarrow> [] | Some v \<Rightarrow> v)"

text \<open>The entries of the \<open>BTreeMap\<close> the key is serialised from, in key order.\<close>

definition filter_map :: "query \<Rightarrow> (rstr \<times> rstr) list" where
  "filter_map q =
     [(lit ''date_from'', unwrap_or_default (q_date_from q)),
      (lit ''date_to'', unwrap_or_default (q_date_to q)),
      (lit ''domains'', join_with [44] (q_domains q)),
      (lit ''excluded_domains'', join_with [44] (q_excluded_domains q)),
      (lit ''excluded_terms'', join_with [44] (q_excluded_terms q)),
      (lit ''file_types'', join_with [44] (q_file_types q)),
      (lit ''language'', unwrap_or_default (q_language q)),
      (lit ''quoted_terms'', join_with [44] (q_quoted_terms q)),
      (lit ''region'', unwrap_or_default (q_region q))]"

definition structured_filters :: "((rstr \<times> rstr) list \<Rightarrow> rstr option) \<Rightarrow> search_plan \<Rightarrow> rstr" where
  "structured_filters map_to_string plan = unwrap_or_default (map_to_string (filter_map (sp_query plan)))"

record provider_cache_state =
  pcs_table :: "provider_key cache_table"
  pcs_counters :: "cache_counters option"

record provider_search_cache =
  psc_policy :: provider_search_cache_policy
  psc_codec :: "provider_result json_codec"
  psc_map_to_string :: "(rstr \<times> rstr) list \<Rightarrow> rstr option"

definition cache_key :: "provider_search_cache \<Rightarrow> rstr \<Rightarrow> rstr \<Rightarrow> search_plan \<Rightarrow> provider_key" where
  "cache_key c name adapter_version plan =
     (name, adapter_version, q_normalized_query (sp_query plan), structured_filters (psc_map_to_string c) plan)"

definition provider_cache_get ::
    "provider_search_cache \<Rightarrow> bool \<Rightarrow> i64 \<Rightarrow> rstr \<Rightarrow> rstr \<Rightarrow> search_plan \<Rightarrow> provider_cache_state
     \<Rightarrow> provider_result option \<times> provider_cache_state" where
  "provider_cache_get c io now name adapter_version plan s =
     (if \<not> pp_enabled (psc_policy c) then (None, s)
      else let (reply, t) = cache_get io (cache_key c name adapter_version plan) now (pp_ttl_seconds (psc_policy c)) (pcs_table s);
               result = (case reply of Ok (Some payload) \<Rightarrow> js_from_str (psc_codec c) payload | _ \<Rightarrow> None)
           in (result, s\<lparr> pcs_table := t,
                pcs_counters := map_option (record_provider_search (result \<noteq> None)) (pcs_counters s) \<rparr>))"

definition provider_cache_put ::
    "provider_search_cache \<Rightarrow> bool \<Rightarrow> i64 \<Rightarrow> rstr \<Rightarrow> rstr \<Rightarrow> search_plan \<Rightarrow> provider_result \<Rightarrow> provider_cache_state
     \<Rightarrow> provider_cache_state" where
  "provider_cache_put c io now name adapter_version plan result s =
     (if \<not> pp_enabled (psc_policy c) then s
      else case js_to_string (psc_codec c) result of
          None \<Rightarrow> s
        | Some payload \<Rightarrow>
            s\<lparr> pcs_table := snd (cache_put io (cache_key c name adapter_version plan) payload now
                 (pp_ttl_seconds (psc_policy c)) (pp_max_entries (psc_policy c)) (pp_max_bytes (psc_policy c)) (pcs_table s)) \<rparr>)"

definition provider_cache_stats :: "bool \<Rightarrow> provider_cache_state \<Rightarrow> cache_stats" where
  "provider_cache_stats io s =
     (case cache_stats_of io (pcs_table s) of Ok st \<Rightarrow> st | Err _ \<Rightarrow> \<lparr> cst_entries = 0, cst_size_bytes = 0 \<rparr>)"

definition provider_cache_purge :: "bool \<Rightarrow> provider_cache_state \<Rightarrow> u64 \<times> provider_cache_state" where
  "provider_cache_purge io s =
     (let (reply, t) = cache_purge io (pcs_table s)
      in (case reply of Ok n \<Rightarrow> n | Err _ \<Rightarrow> 0, s\<lparr> pcs_table := t \<rparr>))"

section \<open>The caching provider\<close>

record cached_provider =
  cp_name :: rstr
  cp_cache :: provider_search_cache
  cp_adapter_version :: rstr
  cp_storage_rights :: bool

text \<open>What the environment answers during one search: the two transactions, the clock, the inner provider.\<close>

record cached_call =
  cl_plan :: search_plan
  cl_get_io :: bool
  cl_get_now :: i64
  cl_put_io :: bool
  cl_put_now :: i64
  cl_inner :: "provider_error + provider_result"

definition cached_search ::
    "cached_provider \<Rightarrow> cached_call \<Rightarrow> provider_cache_state \<Rightarrow> (provider_error + provider_result) \<times> provider_cache_state" where
  "cached_search cp call s =
     (let (hit, s) = (if cp_storage_rights cp
            then provider_cache_get (cp_cache cp) (cl_get_io call) (cl_get_now call) (cp_name cp) (cp_adapter_version cp) (cl_plan call) s
            else (None, s))
      in case hit of
          Some result \<Rightarrow> (Ok result, s)
        | None \<Rightarrow> (case cl_inner call of
              Err e \<Rightarrow> (Err e, s)
            | Ok result \<Rightarrow> (Ok result,
                if cp_storage_rights cp
                then provider_cache_put (cp_cache cp) (cl_put_io call) (cl_put_now call) (cp_name cp) (cp_adapter_version cp) (cl_plan call) result s
                else s)))"

section \<open>The document cache\<close>

record document_cache_policy =
  dp_enabled :: bool
  dp_ttl_seconds :: u64
  dp_max_entries :: u64
  dp_max_bytes :: u64
  dp_store_content :: bool
  dp_stale_while_revalidate_seconds :: u64
  dp_model_version :: "rstr option"

definition document_cache_policy_default :: document_cache_policy where
  "document_cache_policy_default =
     \<lparr> dp_enabled = False, dp_ttl_seconds = 86400, dp_max_entries = 10000, dp_max_bytes = 268435456,
       dp_store_content = False, dp_stale_while_revalidate_seconds = 0, dp_model_version = None \<rparr>"

record document_cache =
  dcc_policy :: document_cache_policy
  dcc_codec :: "document json_codec"

record document_cache_state =
  dcs_table :: "document_key cache_table"
  dcs_counters :: "cache_counters option"

definition namespace :: "document_cache_policy \<Rightarrow> rstr \<Rightarrow> rstr" where
  "namespace p extractor_version =
     (case dp_model_version p of Some model \<Rightarrow> extractor_version @ [35] @ model | None \<Rightarrow> extractor_version)"

definition document_get ::
    "document_cache \<Rightarrow> bool \<Rightarrow> i64 \<Rightarrow> rstr \<Rightarrow> rstr \<Rightarrow> rstr \<Rightarrow> document_cache_state \<Rightarrow> document option \<times> document_cache_state" where
  "document_get c io now canonical_url content_hash extractor_version s =
     (if \<not> dp_enabled (dcc_policy c) then (None, s)
      else let (reply, t) = document_cache_get io (canonical_url, content_hash, namespace (dcc_policy c) extractor_version)
                 now (dp_ttl_seconds (dcc_policy c)) (dcs_table s);
               d = (case reply of Ok (Some payload) \<Rightarrow> js_from_str (dcc_codec c) payload | _ \<Rightarrow> None)
           in (d, s\<lparr> dcs_table := t, dcs_counters := map_option (record_document (d \<noteq> None)) (dcs_counters s) \<rparr>))"

definition document_latest ::
    "document_cache \<Rightarrow> bool \<Rightarrow> i64 \<Rightarrow> rstr \<Rightarrow> rstr \<Rightarrow> document_cache_state \<Rightarrow> document option \<times> document_cache_state" where
  "document_latest c io now canonical_url extractor_version s =
     (if \<not> dp_enabled (dcc_policy c) then (None, s)
      else let (reply, t) = document_cache_get_latest io canonical_url (namespace (dcc_policy c) extractor_version)
                 now (dp_ttl_seconds (dcc_policy c)) (dcs_table s)
           in (case reply of Ok (Some payload) \<Rightarrow> js_from_str (dcc_codec c) payload | _ \<Rightarrow> None, s\<lparr> dcs_table := t \<rparr>))"

definition stored_document :: "document_cache_policy \<Rightarrow> document \<Rightarrow> document" where
  "stored_document p d = (if dp_store_content p then d else d\<lparr> dc_content := None \<rparr>)"

definition document_put ::
    "document_cache \<Rightarrow> bool \<Rightarrow> i64 \<Rightarrow> document \<Rightarrow> rstr \<Rightarrow> bool \<Rightarrow> rstr option \<Rightarrow> rstr option \<Rightarrow> document_cache_state
     \<Rightarrow> bool \<times> document_cache_state" where
  "document_put c io now d extractor_version storage_rights etag last_modified s =
     (if \<not> dp_enabled (dcc_policy c) \<or> \<not> storage_rights then (False, s)
      else case js_to_string (dcc_codec c) (stored_document (dcc_policy c) d) of
          None \<Rightarrow> (False, s)
        | Some payload \<Rightarrow>
            (let (reply, t) = document_cache_put io
                   (dc_canonical_url d, dc_content_hash d, namespace (dcc_policy c) extractor_version) payload now
                   (dp_ttl_seconds (dcc_policy c)) (dp_max_entries (dcc_policy c)) (dp_max_bytes (dcc_policy c))
                   etag last_modified (dcs_table s)
             in (is_ok reply, s\<lparr> dcs_table := t \<rparr>)))"

definition document_get_with_revalidation ::
    "document_cache \<Rightarrow> bool \<Rightarrow> i64 \<Rightarrow> rstr \<Rightarrow> rstr \<Rightarrow> rstr \<Rightarrow> document_cache_state
     \<Rightarrow> (document \<times> rstr option \<times> rstr option \<times> bool) option \<times> document_cache_state" where
  "document_get_with_revalidation c io now canonical_url content_hash extractor_version s =
     (if \<not> dp_enabled (dcc_policy c) then (None, s)
      else let (reply, t) = document_cache_get_with_revalidation io
                 (canonical_url, content_hash, namespace (dcc_policy c) extractor_version) now
                 (dp_ttl_seconds (dcc_policy c)) (dp_stale_while_revalidate_seconds (dcc_policy c)) (dcs_table s);
               cached = (case reply of Ok d \<Rightarrow> d | Err _ \<Rightarrow> None)
           in (case cached of
                 None \<Rightarrow> None
               | Some d \<Rightarrow> map_option (\<lambda>x. (x, cd_etag d, cd_last_modified d, cd_fresh d)) (js_from_str (dcc_codec c) (cd_payload d)),
               s\<lparr> dcs_table := t, dcs_counters := map_option (record_document (cached \<noteq> None)) (dcs_counters s) \<rparr>))"

definition document_stats :: "bool \<Rightarrow> document_cache_state \<Rightarrow> cache_stats" where
  "document_stats io s =
     (case document_cache_stats io (dcs_table s) of Ok st \<Rightarrow> st | Err _ \<Rightarrow> \<lparr> cst_entries = 0, cst_size_bytes = 0 \<rparr>)"

definition document_purge :: "bool \<Rightarrow> document_cache_state \<Rightarrow> u64 \<times> document_cache_state" where
  "document_purge io s =
     (let (reply, t) = document_cache_purge io (dcs_table s)
      in (case reply of Ok n \<Rightarrow> n | Err _ \<Rightarrow> 0, s\<lparr> dcs_table := t \<rparr>))"

section \<open>Hit rates\<close>

text \<open>The reported hit rate is a finite value in the unit interval as long as the two counters do not overflow together.\<close>

theorem hit_rate_unit:
  assumes "unat hits + unat misses < 2 ^ 64"
  shows "in_unit (hit_rate hits misses)"
proof -
  have total: "unat (hits + misses) = unat hits + unat misses" using assms by (intro unat_add_lem [THEN iffD1]) simp
  show ?thesis
  proof (cases "hits + misses = 0")
    case True then show ?thesis by (simp add: hit_rate_def in_unit_def)
  next
    case False
    then have "0 < unat (hits + misses)" by (simp add: unat_gt_0)
    then show ?thesis using False f64_ratio_unit [of "unat hits" "unat (hits + misses)"] total assms
      by (simp add: hit_rate_def Let_def)
  qed
qed

section \<open>The cache key separates filters\<close>

lemma join_comma_inject:
  assumes "list_all (\<lambda>w. w \<noteq> [] \<and> 44 \<notin> set w) xs" "list_all (\<lambda>w. w \<noteq> [] \<and> 44 \<notin> set w) ys"
    "join_with [44] xs = join_with [44] (ys :: rstr list)"
  shows "xs = ys"
proof -
  have split: "split_on (\<lambda>c. c = 44) (join_with [44] ws) = ws" if "list_all (\<lambda>w. w \<noteq> [] \<and> 44 \<notin> set w) ws" "ws \<noteq> []" for ws :: "rstr list"
    using that
  proof (induction "[44 :: nat]" ws rule: join_with.induct)
    case (2 w)
    then have "list_all (\<lambda>c. c \<noteq> 44) w" by (auto simp: list_all_iff)
    then show ?case by (simp add: split_on_piece)
  next
    case (3 w v ws)
    then show ?case using split_on_sep [of "\<lambda>c. c = 44" w 44 "join_with [44] (v # ws)"] by (auto simp: list_all_iff)
  qed simp
  have empty: "join_with [44] ws = [] \<Longrightarrow> ws = []" if "list_all (\<lambda>w. w \<noteq> [] \<and> 44 \<notin> set w) ws" for ws :: "rstr list"
    using that by (cases "([44 :: nat], ws)" rule: join_with.cases) auto
  show ?thesis
  proof (cases "xs = [] \<or> ys = []")
    case True then show ?thesis using assms empty by (metis join_with.simps(1))
  next
    case False then show ?thesis using split assms by metis
  qed
qed

definition comma_free :: "query \<Rightarrow> bool" where
  "comma_free q \<longleftrightarrow> list_all (\<lambda>ws. list_all (\<lambda>w. w \<noteq> [] \<and> 44 \<notin> set w) ws)
       [q_domains q, q_excluded_domains q, q_excluded_terms q, q_file_types q, q_quoted_terms q] \<and>
     list_all (\<lambda>v. v \<noteq> Some []) [q_date_from q, q_date_to q, q_language q, q_region q]"

lemma unwrap_or_default_inject: "a \<noteq> Some [] \<Longrightarrow> b \<noteq> Some [] \<Longrightarrow> unwrap_or_default a = unwrap_or_default b \<Longrightarrow> a = b"
  by (auto simp: unwrap_or_default_def split: option.splits)

text \<open>
  For queries whose filters contain no comma and no empty value, the map the cache key is built from
  determines every structured filter of the query: two searches share a key only when all nine filters agree.
\<close>

theorem filter_map_inject:
  assumes "comma_free q" "comma_free q'" "filter_map q = filter_map q'"
  shows "q_date_from q = q_date_from q' \<and> q_date_to q = q_date_to q' \<and> q_domains q = q_domains q' \<and>
    q_excluded_domains q = q_excluded_domains q' \<and> q_excluded_terms q = q_excluded_terms q' \<and>
    q_file_types q = q_file_types q' \<and> q_language q = q_language q' \<and> q_quoted_terms q = q_quoted_terms q' \<and>
    q_region q = q_region q'"
  using assms by (auto simp: comma_free_def filter_map_def intro: join_comma_inject unwrap_or_default_inject)

theorem filter_map_inject_witness:
  "q_domains ((query_new [])\<lparr> q_domains := [[97], [98]] \<rparr>) = [[97], [98]] \<and> comma_free ((query_new [])\<lparr> q_domains := [[97], [98]] \<rparr>)"
  using filter_map_inject [of "(query_new [])\<lparr> q_domains := [[97], [98]] \<rparr>" "(query_new [])\<lparr> q_domains := [[97], [98]] \<rparr>"]
  by (simp add: comma_free_def query_new_def)

text \<open>
  Without that condition the key is ambiguous: an excluded term may contain a comma, so the searches
  \<open>rust -a,b\<close> and \<open>rust -a -b\<close>, which exclude different terms, have the same normalized query and the same
  filter map, whatever the JSON encoder does.
\<close>

theorem filter_keys_collide:
  "\<exists>q q'. parse_query (lit ''rust -a,b'') = Ok q \<and> parse_query (lit ''rust -a -b'') = Ok q' \<and>
     q_excluded_terms q = [lit ''a,b''] \<and> q_excluded_terms q' = [lit ''a'', lit ''b''] \<and>
     q_normalized_query q = q_normalized_query q' \<and> filter_map q = filter_map q'"
  by (simp add: parse_query_def tokenize_def parse_token_def match_operator_def query_new_def retain_domains_def
      check_date_range_def filter_map_def is_whitespace_def known_operators_def unwrap_or_default_def lit_def rstr_simps)


section \<open>What the caching provider answers\<close>

text \<open>The storage operations one search performs, as events of the provider table.\<close>

definition call_events :: "cached_provider \<Rightarrow> cached_call \<Rightarrow> provider_cache_state \<Rightarrow> provider_event list" where
  "call_events cp call s =
     (let c = cp_cache cp; key = cache_key c (cp_name cp) (cp_adapter_version cp) (cl_plan call); pol = psc_policy c
      in if \<not> cp_storage_rights cp \<or> \<not> pp_enabled pol then []
         else Provider_get (cl_get_io call) key (cl_get_now call) (pp_ttl_seconds pol) #
           (case fst (provider_cache_get c (cl_get_io call) (cl_get_now call) (cp_name cp) (cp_adapter_version cp) (cl_plan call) s) of
              Some _ \<Rightarrow> []
            | None \<Rightarrow> (case cl_inner call of
                  Err _ \<Rightarrow> []
                | Ok result \<Rightarrow> (case js_to_string (psc_codec c) result of
                      None \<Rightarrow> []
                    | Some payload \<Rightarrow> [Provider_put (cl_put_io call) key payload (cl_put_now call) (pp_ttl_seconds pol)
                        (pp_max_entries pol) (pp_max_bytes pol)]))))"

fun run_calls :: "(cached_provider \<times> cached_call) list \<Rightarrow> provider_cache_state \<Rightarrow> provider_cache_state" where
  "run_calls [] s = s"
| "run_calls ((cp, call) # calls) s = run_calls calls (snd (cached_search cp call s))"

fun calls_events :: "(cached_provider \<times> cached_call) list \<Rightarrow> provider_cache_state \<Rightarrow> provider_event list" where
  "calls_events [] s = []"
| "calls_events ((cp, call) # calls) s = call_events cp call s @ calls_events calls (snd (cached_search cp call s))"

lemma cached_search_table:
  "pcs_table (snd (cached_search cp call s)) = fold provider_step (call_events cp call s) (pcs_table s)"
  by (auto simp: cached_search_def call_events_def provider_cache_get_def provider_cache_put_def Let_def split: prod.splits option.splits sum.splits)

lemma run_calls_table: "pcs_table (run_calls calls s) = fold provider_step (calls_events calls s) (pcs_table s)"
  by (induction calls s rule: run_calls.induct) (simp_all add: cached_search_table)

lemma calls_events_stores:
  assumes "e \<in> set (calls_events calls s)" "provider_stores e = Some (key, payload, now)"
  obtains cp call result where "(cp, call) \<in> set calls" "cl_inner call = Ok result" "cp_storage_rights cp" "cl_put_now call = now"
    "js_to_string (psc_codec (cp_cache cp)) result = Some payload"
    "key = cache_key (cp_cache cp) (cp_name cp) (cp_adapter_version cp) (cl_plan call)"
proof -
  have "\<exists>cp call result. (cp, call) \<in> set calls \<and> cl_inner call = Ok result \<and> cp_storage_rights cp \<and> cl_put_now call = now \<and>
      js_to_string (psc_codec (cp_cache cp)) result = Some payload \<and>
      key = cache_key (cp_cache cp) (cp_name cp) (cp_adapter_version cp) (cl_plan call)"
    using assms
  proof (induction calls s rule: calls_events.induct)
    case (2 cp call calls s)
    show ?case
    proof (cases "e \<in> set (call_events cp call s)")
      case True
      then have "\<exists>result. cl_inner call = Ok result \<and> cp_storage_rights cp \<and> cl_put_now call = now \<and>
          js_to_string (psc_codec (cp_cache cp)) result = Some payload \<and>
          key = cache_key (cp_cache cp) (cp_name cp) (cp_adapter_version cp) (cl_plan call)"
        using "2.prems"(2)
        by (auto simp: call_events_def Let_def split: if_splits option.splits sum.splits; metis)
      then show ?thesis by (metis list.set_intros(1))
    next
      case False
      then show ?thesis using 2 by fastforce
    qed
  qed simp
  then show thesis using that by blast
qed

lemma last_put_event:
  "last_put stores es k = Some (payload, now) \<Longrightarrow> \<exists>e\<in>set es. stores e = Some (k, payload, now)"
proof (induction es rule: rev_induct)
  case (snoc e es)
  then show ?case by (auto simp: last_put_def record_put_def split: option.splits if_splits)
qed (simp add: last_put_def)

lemma provider_cache_get_hit:
  assumes "fst (provider_cache_get c io now name version plan s) = Some result"
  obtains payload where "fst (cache_get True (cache_key c name version plan) now (pp_ttl_seconds (psc_policy c)) (pcs_table s)) = Ok (Some payload)"
    "js_from_str (psc_codec c) payload = Some result"
  using assms that by (cases io) (auto simp: provider_cache_get_def cache_get_def Let_def split: if_splits sum.splits option.splits)



text \<open>An answer is stored, and served when the same search comes again and the provider has gone silent.\<close>

definition sample_answer :: provider_result where
  "sample_answer = \<lparr> pr_schema_version = SCHEMA_VERSION, pr_provider = lit ''p'', pr_status = Exec_Success, pr_results = [],
     pr_accepted_filters = [], pr_ignored_filters = [], pr_approximated_filters = [], pr_errors = [] \<rparr>"

definition sample_cache :: provider_search_cache where
  "sample_cache = \<lparr> psc_policy = \<lparr> pp_enabled = True, pp_ttl_seconds = 300, pp_max_entries = 4, pp_max_bytes = 100 \<rparr>,
     psc_codec = \<lparr> js_to_string = (\<lambda>r. if r = sample_answer then Some [120] else None),
       js_from_str = (\<lambda>s. if s = [120] then Some sample_answer else None) \<rparr>,
     psc_map_to_string = (\<lambda>m. Some (concat (map snd m))) \<rparr>"

definition sample_provider :: cached_provider where
  "sample_provider = \<lparr> cp_name = lit ''p'', cp_cache = sample_cache, cp_adapter_version = lit ''v1'', cp_storage_rights = True \<rparr>"

definition sample_cached_call :: "i64 \<Rightarrow> provider_error + provider_result \<Rightarrow> cached_call" where
  "sample_cached_call now reply = \<lparr> cl_plan = sample_plan [lit ''p''], cl_get_io = True, cl_get_now = now, cl_put_io = True,
     cl_put_now = now, cl_inner = reply \<rparr>"

lemma sample_cached_hit:
  "fst (cached_search sample_provider (sample_cached_call 200 (Err e))
     (run_calls [(sample_provider, sample_cached_call 5 (Ok sample_answer))] \<lparr> pcs_table = [], pcs_counters = None \<rparr>)) = Ok sample_answer"
  by (simp add: cached_search_def provider_cache_get_def provider_cache_put_def sample_provider_def sample_cached_call_def
      sample_cache_def cache_get_def cache_put_def upsert_def delete_before_def shrink.simps limit_entries_def cache_key_def
      total_size_def ttl_cutoff_def i64_saturating_sub_def i64_clamp_def i64_min_def i64_max_def u64_as_i64_def len_utf8_def)


section \<open>Rights\<close>

text \<open>Without storage rights, or with the cache switched off, the wrapper is the inner provider and touches nothing.\<close>

lemma cached_search_transparent:
  "\<not> (cp_storage_rights cp \<and> pp_enabled (psc_policy (cp_cache cp))) \<Longrightarrow> cached_search cp call s = (cl_inner call, s)"
  by (auto simp: cached_search_def provider_cache_get_def provider_cache_put_def split: sum.splits)

text \<open>The operations of the document cache client as one step function.\<close>

datatype document_call =
    Call_get bool i64 rstr rstr rstr
  | Call_latest bool i64 rstr rstr
  | Call_put bool i64 document rstr bool "rstr option" "rstr option"
  | Call_revalidate bool i64 rstr rstr rstr
  | Call_purge bool

fun document_call_step :: "document_cache \<Rightarrow> document_call \<Rightarrow> document_cache_state \<Rightarrow> document_cache_state" where
  "document_call_step c (Call_get io now u h v) s = snd (document_get c io now u h v s)"
| "document_call_step c (Call_latest io now u v) s = snd (document_latest c io now u v s)"
| "document_call_step c (Call_put io now d v rights etag lm) s = snd (document_put c io now d v rights etag lm s)"
| "document_call_step c (Call_revalidate io now u h v) s = snd (document_get_with_revalidation c io now u h v s)"
| "document_call_step c (Call_purge io) s = snd (document_purge io s)"

definition payloads :: "'k cache_table \<Rightarrow> rstr set" where
  "payloads t = cw_payload ` set t"

lemma payloads_filter: "payloads (filter P t) \<subseteq> payloads t"
  by (auto simp: payloads_def)

lemma payloads_shrink: "payloads (shrink b t) \<subseteq> payloads t"
proof (induction b t rule: shrink.induct)
  case (1 b t)
  have "payloads (evict_oldest 1 t) \<subseteq> payloads t" unfolding evict_oldest_def by (rule payloads_filter)
  then show ?case using 1 by (subst shrink.simps) auto
qed

lemma payloads_upsert: "payloads (upsert key payload now etag lm t) \<subseteq> insert payload (payloads t)"
  by (auto simp: payloads_def upsert_def)

lemma payloads_document_cache_put:
  "payloads (snd (document_cache_put io key payload now ttl n b etag lm t)) \<subseteq> insert payload (payloads t)"
proof (cases io)
  case True
  let ?u = "delete_before (ttl_cutoff now ttl) (upsert key payload now etag lm t)"
  have "payloads (shrink (u64_as_i64 b) (limit_documents n ?u)) \<subseteq> payloads (limit_documents n ?u)" by (rule payloads_shrink)
  also have "\<dots> \<subseteq> payloads ?u" unfolding limit_documents_def evict_oldest_def by (rule payloads_filter)
  also have "\<dots> \<subseteq> payloads (upsert key payload now etag lm t)" unfolding delete_before_def by (rule payloads_filter)
  also note payloads_upsert
  finally show ?thesis using True by (simp add: document_cache_put_def)
qed (auto simp: document_cache_put_def)

definition content_free :: "document json_codec \<Rightarrow> document_key cache_table \<Rightarrow> bool" where
  "content_free codec t \<longleftrightarrow> (\<forall>payload\<in>payloads t. \<exists>d. js_to_string codec d = Some payload \<and> dc_content d = None)"

lemma document_call_content_free:
  assumes "\<not> dp_store_content (dcc_policy c)" "content_free (dcc_codec c) (dcs_table s)"
  shows "content_free (dcc_codec c) (dcs_table (document_call_step c call s))"
proof (cases call)
  case (Call_put io now d v rights etag lm)
  have "content_free (dcc_codec c) (snd (document_cache_put io key payload now ttl n b etag lm (dcs_table s)))"
    if "js_to_string (dcc_codec c) (d\<lparr> dc_content := None \<rparr>) = Some payload" for key payload ttl n b
    unfolding content_free_def
  proof
    fix x assume "x \<in> payloads (snd (document_cache_put io key payload now ttl n b etag lm (dcs_table s)))"
    then have "x = payload \<or> x \<in> payloads (dcs_table s)" using payloads_document_cache_put by blast
    moreover have "dc_content (d\<lparr> dc_content := None \<rparr>) = None" by simp
    ultimately show "\<exists>d. js_to_string (dcc_codec c) d = Some x \<and> dc_content d = None"
      using that assms(2) unfolding content_free_def by blast
  qed
  then show ?thesis using assms Call_put
    by (auto simp: document_put_def stored_document_def split: option.splits prod.splits) (metis snd_conv)
qed (use assms in \<open>auto simp: document_get_def document_latest_def document_get_with_revalidation_def document_purge_def
    document_cache_defs content_free_def payloads_def touch_def Let_def split: option.splits prod.splits if_splits\<close>)

text \<open>
  C18. Unless the policy stores content, no page content is ever persisted: after any history of lookups,
  stores, revalidations and purges of the document cache, every payload in the table encodes a document whose
  content has been removed.
\<close>

theorem no_content_persisted:
  assumes "\<not> dp_store_content (dcc_policy c)" "dcs_table s = []"
  shows "content_free (dcc_codec c) (dcs_table (fold (document_call_step c) calls s))"
proof -
  have "content_free (dcc_codec c) (dcs_table s) \<Longrightarrow> content_free (dcc_codec c) (dcs_table (fold (document_call_step c) calls s))"
    by (induction calls arbitrary: s) (simp_all add: document_call_content_free [OF assms(1)])
  then show ?thesis using assms(2) by (simp add: content_free_def payloads_def)
qed

definition sample_document_cache :: document_cache where
  "sample_document_cache = \<lparr> dcc_policy = document_cache_policy_default\<lparr> dp_enabled := True \<rparr>,
     dcc_codec = \<lparr> js_to_string = (\<lambda>d. Some (unwrap_or_default (dc_content d) @ dc_content_hash d)), js_from_str = (\<lambda>_. None) \<rparr> \<rparr>"

theorem no_content_persisted_witness:
  "content_free (dcc_codec sample_document_cache) (dcs_table (fold (document_call_step sample_document_cache)
      [Call_put True 5 sample_document (lit ''v1'') True None None, Call_get True 6 (lit ''u'') (lit ''h'') (lit ''v1'')]
      \<lparr> dcs_table = [], dcs_counters = None \<rparr>))"
  by (rule no_content_persisted) (simp_all add: sample_document_cache_def document_cache_policy_default_def)

end
