(* ===== verification/Std_Text.thy ===== *)
theory Std_Text
  imports Model
begin

text \<open>
  Standard-library text operations of the crawler: \<open>str::lines\<close>, \<open>String::from_utf8_lossy\<close>, parsing an
  \<open>f64\<close>, and \<open>f64::round\<close> followed by a cast to \<open>u64\<close>.
\<close>

section \<open>Lines\<close>

definition strip_cr :: "rstr \<Rightarrow> rstr" where
  "strip_cr l = (if ends_with l [13] then butlast l else l)"

definition str_lines :: "rstr \<Rightarrow> rstr list" where
  "str_lines s =
     (let pieces = split_on (\<lambda>c. c = 10) s
      in map strip_cr (butlast pieces) @ (if last pieces = [] then [] else [strip_cr (last pieces)]))"

section \<open>Lossy UTF-8 decoding\<close>

definition replacement_character :: rchar where "replacement_character = 65533"

definition is_continuation :: "nat \<Rightarrow> bool" where
  "is_continuation b \<longleftrightarrow> 128 \<le> b \<and> b < 192"

definition second_ok :: "nat \<Rightarrow> nat \<Rightarrow> bool" where
  "second_ok b0 b1 \<longleftrightarrow>
     (if b0 = 224 then 160 \<le> b1 \<and> b1 < 192 else if b0 = 237 then 128 \<le> b1 \<and> b1 < 160
      else if b0 = 240 then 144 \<le> b1 \<and> b1 < 192 else if b0 = 244 then 128 \<le> b1 \<and> b1 < 144
      else is_continuation b1)"

text \<open>
  One character and the bytes after it. An ill-formed sequence yields one replacement character for its
  longest prefix that could have begun a character.
\<close>

definition decode_next :: "nat \<Rightarrow> nat list \<Rightarrow> rchar \<times> nat list" where
  "decode_next b0 bs =
     (if b0 < 128 then (b0, bs)
      else if 194 \<le> b0 \<and> b0 < 224 then
        (case bs of b1 # r1 \<Rightarrow> if is_continuation b1 then ((b0 - 192) * 64 + (b1 - 128), r1) else (replacement_character, bs)
         | [] \<Rightarrow> (replacement_character, bs))
      else if 224 \<le> b0 \<and> b0 < 240 then
        (case bs of b1 # r1 \<Rightarrow> if second_ok b0 b1
            then (case r1 of b2 # r2 \<Rightarrow> if is_continuation b2
                     then ((b0 - 224) * 4096 + (b1 - 128) * 64 + (b2 - 128), r2) else (replacement_character, r1)
                  | [] \<Rightarrow> (replacement_character, r1))
            else (replacement_character, bs)
         | [] \<Rightarrow> (replacement_character, bs))
      else if 240 \<le> b0 \<and> b0 < 245 then
        (case bs of b1 # r1 \<Rightarrow> if second_ok b0 b1
            then (case r1 of b2 # r2 \<Rightarrow> if is_continuation b2
                     then (case r2 of b3 # r3 \<Rightarrow> if is_continuation b3
                              then ((b0 - 240) * 262144 + (b1 - 128) * 4096 + (b2 - 128) * 64 + (b3 - 128), r3)
                              else (replacement_character, r2)
                           | [] \<Rightarrow> (replacement_character, r2))
                     else (replacement_character, r1)
                  | [] \<Rightarrow> (replacement_character, r1))
            else (replacement_character, bs)
         | [] \<Rightarrow> (replacement_character, bs))
      else (replacement_character, bs))"

lemma decode_next_length: "length (snd (decode_next b bs)) \<le> length bs"
  by (auto simp: decode_next_def split: list.splits)

function from_utf8_lossy :: "nat list \<Rightarrow> rstr" where
  "from_utf8_lossy [] = []"
| "from_utf8_lossy (b # bs) = (case decode_next b bs of (c, rest) \<Rightarrow> c # from_utf8_lossy rest)"
  by pat_completeness auto
termination
  by (relation "measure length") (simp_all add: less_Suc_eq_le, metis decode_next_length snd_conv)

text \<open>Unicode scalar values.\<close>

definition is_scalar :: "rchar \<Rightarrow> bool" where
  "is_scalar c \<longleftrightarrow> c < 55296 \<or> (57344 \<le> c \<and> c \<le> 1114111)"

lemma base_64:
  fixes c :: nat
  shows "(c div 4096) * 4096 + (c div 64 mod 64) * 64 + c mod 64 = c"
    "(c div 262144) * 262144 + (c div 4096 mod 64) * 4096 + (c div 64 mod 64) * 64 + c mod 64 = c"
proof -
  have a: "(c div 64) * 64 + c mod 64 = c" by simp
  have "(c div 64 div 64) * 64 + c div 64 mod 64 = c div 64" by (rule div_mult_mod_eq)
  then have b: "(c div 4096) * 64 + c div 64 mod 64 = c div 64" by (simp add: div_mult2_eq [symmetric])
  have "(c div 4096 div 64) * 64 + c div 4096 mod 64 = c div 4096" by (rule div_mult_mod_eq)
  then have d: "(c div 262144) * 64 + c div 4096 mod 64 = c div 4096" by (simp add: div_mult2_eq [symmetric])
  show "(c div 4096) * 4096 + (c div 64 mod 64) * 64 + c mod 64 = c" using a b by linarith
  then show "(c div 262144) * 262144 + (c div 4096 mod 64) * 4096 + (c div 64 mod 64) * 64 + c mod 64 = c"
    using d by linarith
qed

lemma second_ok_3: "x < 16 \<Longrightarrow> y < 64 \<Longrightarrow> (x = 0 \<Longrightarrow> 32 \<le> y) \<Longrightarrow> (x = 13 \<Longrightarrow> y < 32) \<Longrightarrow> second_ok (224 + x) (128 + y)"
  and second_ok_4: "x < 5 \<Longrightarrow> y < 64 \<Longrightarrow> (x = 0 \<Longrightarrow> 16 \<le> y) \<Longrightarrow> (x = 4 \<Longrightarrow> y < 16) \<Longrightarrow> second_ok (240 + x) (128 + y)"
  by (simp_all add: second_ok_def is_continuation_def)

lemma decode_next_utf8:
  assumes "is_scalar c"
  shows "\<exists>b bs. utf8_char c = b # bs \<and> decode_next b (bs @ rest) = (c, rest)"
proof -
  consider "c < 128" | "128 \<le> c" "c < 2048" | "2048 \<le> c" "c < 65536" | "65536 \<le> c" by linarith
  then show ?thesis
  proof cases
    case 1 then show ?thesis by (simp add: utf8_char_def decode_next_def)
  next
    case 2
    then have "2 \<le> c div 64" "c div 64 < 32" by linarith+
    moreover have "(c div 64) * 64 + c mod 64 = c" by simp
    ultimately show ?thesis using 2 by (simp add: utf8_char_def decode_next_def is_continuation_def)
  next
    case 3
    have len: "c div 4096 < 16" using 3 by linarith
    have sum: "(c div 4096) * 4096 + (c div 64 mod 64) * 64 + c mod 64 = c" by (rule base_64)
    have digit: "c mod 64 < 64" by simp
    have lower: "c div 4096 = 0 \<Longrightarrow> 32 \<le> c div 64 mod 64" using 3 sum digit by linarith
    have upper: "c div 4096 = 13 \<Longrightarrow> c div 64 mod 64 < 32" using 3 assms sum digit unfolding is_scalar_def by linarith
    have ok: "second_ok (224 + c div 4096) (128 + c div 64 mod 64)"
      using lower upper len by (intro second_ok_3) simp_all
    show ?thesis using 3 len ok sum
      by (simp add: utf8_char_def decode_next_def is_continuation_def)
  next
    case 4
    have le: "c \<le> 1114111" using 4 assms by (simp add: is_scalar_def)
    have len: "c div 262144 < 5" using le by linarith
    have sum: "(c div 262144) * 262144 + (c div 4096 mod 64) * 4096 + (c div 64 mod 64) * 64 + c mod 64 = c" by (rule base_64)
    have digits: "c mod 64 < 64" "c div 64 mod 64 < 64" by simp_all
    have lower: "c div 262144 = 0 \<Longrightarrow> 16 \<le> c div 4096 mod 64" using 4 sum digits by linarith
    have upper: "c div 262144 = 4 \<Longrightarrow> c div 4096 mod 64 < 16" using le sum digits by linarith
    have ok: "second_ok (240 + c div 262144) (128 + c div 4096 mod 64)"
      using lower upper len by (intro second_ok_4) simp_all
    show ?thesis using 4 len ok sum
      by (simp add: utf8_char_def decode_next_def is_continuation_def)
  qed
qed

text \<open>Decoding the encoding of a string gives the string back.\<close>

lemma from_utf8_lossy_as_bytes: "list_all is_scalar s \<Longrightarrow> from_utf8_lossy (as_bytes s) = s"
proof (induction s)
  case (Cons c s)
  then obtain b bs where "utf8_char c = b # bs" "decode_next b (bs @ as_bytes s) = (c, as_bytes s)"
    using decode_next_utf8 [of c "as_bytes s"] by auto
  then show ?case using Cons by simp
qed simp

section \<open>Numbers\<close>

text \<open>
  \<open>str::parse::<f64>\<close>: an optional sign, then an infinity or a NaN by name, or decimal digits with at most one
  point and an optional exponent. The decimal value is rounded once.
\<close>

definition parse_exponent :: "rstr \<Rightarrow> int option" where
  "parse_exponent s =
     (let (neg, t) = (case s of c # cs \<Rightarrow> if c = 45 then (True, cs) else if c = 43 then (False, cs) else (False, s) | [] \<Rightarrow> (False, s))
      in if t = [] then None else map_option (\<lambda>n. if neg then - int n else int n) (digits_value 10 0 t))"

definition parse_decimal :: "rstr \<Rightarrow> rat option" where
  "parse_decimal t =
     (let u = map (\<lambda>c. if c = 69 then 101 else c) t;
          (mantissa, ex) = (case split_once 101 u of None \<Rightarrow> (u, Some 0) | Some (a, b) \<Rightarrow> (a, parse_exponent b));
          (ip, fp) = (case split_once 46 mantissa of None \<Rightarrow> (mantissa, []) | Some (a, b) \<Rightarrow> (a, b))
      in if ip @ fp = [] then None
         else case (digits_value 10 0 (ip @ fp), ex) of
             (Some n, Some e) \<Rightarrow> Some (of_nat n * 10 powi (e - int (length fp)))
           | _ \<Rightarrow> None)"

definition parse_f64 :: "rstr \<Rightarrow> f64 option" where
  "parse_f64 s =
     (let (neg, t) = (case s of c # cs \<Rightarrow> if c = 45 then (True, cs) else if c = 43 then (False, cs) else (False, s) | [] \<Rightarrow> (False, s));
          name = to_ascii_lowercase t
      in if name = lit ''inf'' \<or> name = lit ''infinity'' then Some (f64_inf neg)
         else if name = lit ''nan'' then Some NaN
         else map_option (\<lambda>v. if neg then f64_uminus (f64_round v) else f64_round v) (parse_decimal t))"

text \<open>\<open>value.round() as u64\<close>: halves away from zero, then a saturating cast that sends NaN to zero.\<close>

definition f64_round_as_u64 :: "f64 \<Rightarrow> u64" where
  "f64_round_as_u64 a =
     (case a of NaN \<Rightarrow> 0 | PosInf \<Rightarrow> - 1 | NegInf \<Rightarrow> 0 | NegZero \<Rightarrow> 0
      | Fin r \<Rightarrow> of_int (max 0 (min (2 ^ 64 - 1) (if r < 0 then - \<lfloor>1 / 2 - r\<rfloor> else \<lfloor>r + 1 / 2\<rfloor>))))"

end
