(* ===== verification/Robots.thy ===== *)
theory Robots
  imports Std_Text Security BTree Canonical Optics
begin

text \<open>
  The \<^verbatim>\<open>robots.txt\<close> gate of the crawler, \<^verbatim>\<open>robots.rs\<close>: the parser, the matcher of path patterns, the decision for one
  path, and the bounded per-origin cache. A byte cursor into the path is modelled by the text after it: the
  source only ever moves it past a whole segment it has found. The fetch of the file and the clock are
  arguments; the mutex around the map is never poisoned, as nothing panics while it is held.
\<close>

section \<open>Decisions and rules\<close>

definition ROBOTS_USER_AGENT :: rstr where "ROBOTS_USER_AGENT = lit ''amatl''"
definition MAXIMUM_CRAWL_DELAY_MS :: u64 where "MAXIMUM_CRAWL_DELAY_MS = 5000"

datatype RobotsDecision = Allowed u64 | Disallowed | DelayTooLong | Unavailable

fun robots_decision_as_str :: "RobotsDecision \<Rightarrow> string" where
  "robots_decision_as_str (Allowed _) = ''allowed''"
| "robots_decision_as_str Disallowed = ''robots_disallowed''"
| "robots_decision_as_str DelayTooLong = ''robots_crawl_delay_too_long''"
| "robots_decision_as_str Unavailable = ''robots_unavailable''"

record robots_rules =
  rr_rules :: "(rstr \<times> bool) list"
  rr_crawl_delay_ms :: "u64 option"
  rr_empty :: bool

definition allow_all :: robots_rules where
  "allow_all = \<lparr> rr_rules = [], rr_crawl_delay_ms = None, rr_empty = True \<rparr>"

section \<open>Parsing\<close>

record robots_group =
  gr_rules :: "(rstr \<times> bool) list"
  gr_crawl_delay_ms :: "u64 option"
  gr_touched :: bool

definition group_default :: robots_group where
  "group_default = \<lparr> gr_rules = [], gr_crawl_delay_ms = None, gr_touched = False \<rparr>"

definition parse_delay_ms :: "rstr \<Rightarrow> u64 option" where
  "parse_delay_ms v =
     (case parse_f64 v of
        None \<Rightarrow> None
      | Some seconds \<Rightarrow> if \<not> is_finite seconds \<or> f64_lt seconds (Fin 0) then None
          else Some (f64_round_as_u64 (f64_mul seconds (Fin 1000))))"

definition apply_field :: "rstr \<Rightarrow> rstr \<Rightarrow> robots_group \<Rightarrow> robots_group" where
  "apply_field field v g =
     (if field = lit ''allow'' \<and> v \<noteq> [] then g\<lparr> gr_rules := gr_rules g @ [(v, True)] \<rparr>
      else if field = lit ''disallow'' \<and> v = [] then g
      else if field = lit ''disallow'' then g\<lparr> gr_rules := gr_rules g @ [(v, False)] \<rparr>
      else if field = lit ''crawl-delay'' then g\<lparr> gr_crawl_delay_ms := parse_delay_ms v \<rparr>
      else g)\<lparr> gr_touched := True \<rparr>"

record robots_parser =
  rp_specific :: robots_group
  rp_wildcard :: robots_group
  rp_current :: "rstr list"
  rp_collecting :: bool

definition parser_start :: robots_parser where
  "parser_start = \<lparr> rp_specific = group_default, rp_wildcard = group_default, rp_current = [], rp_collecting = False \<rparr>"

definition apply_agent :: "rstr \<Rightarrow> rstr \<Rightarrow> rstr \<Rightarrow> robots_parser \<Rightarrow> rstr \<Rightarrow> robots_parser" where
  "apply_agent user_agent field v p agent =
     (if agent = to_ascii_lowercase user_agent then p\<lparr> rp_specific := apply_field field v (rp_specific p) \<rparr>
      else if agent = lit ''*'' then p\<lparr> rp_wildcard := apply_field field v (rp_wildcard p) \<rparr>
      else p)"

definition parse_field :: "rstr \<Rightarrow> rstr \<Rightarrow> rstr \<Rightarrow> robots_parser \<Rightarrow> robots_parser" where
  "parse_field user_agent field v p =
     (if field = lit ''user-agent'' then
        (let p = (if \<not> rp_collecting p then p\<lparr> rp_current := [], rp_collecting := True \<rparr> else p)
         in p\<lparr> rp_current := rp_current p @ [to_ascii_lowercase v] \<rparr>)
      else if field = lit ''allow'' \<or> field = lit ''disallow'' \<or> field = lit ''crawl-delay'' then
        foldl (apply_agent user_agent field v) (p\<lparr> rp_collecting := False \<rparr>) (rp_current p)
      else p\<lparr> rp_collecting := False \<rparr>)"

definition parse_line :: "rstr \<Rightarrow> robots_parser \<Rightarrow> rstr \<Rightarrow> robots_parser" where
  "parse_line user_agent p raw =
     (let line = trim (hd (split_on (\<lambda>c. c = 35) raw))
      in if line = [] then p
         else case split_once 58 line of
             None \<Rightarrow> p
           | Some (field, v) \<Rightarrow> parse_field user_agent (to_ascii_lowercase (trim field)) (trim v) p)"

definition robots_parse :: "rstr \<Rightarrow> rstr \<Rightarrow> robots_rules" where
  "robots_parse body user_agent =
     (let p = foldl (parse_line user_agent) parser_start (str_lines body);
          g = (if gr_touched (rp_specific p) then rp_specific p else rp_wildcard p)
      in \<lparr> rr_rules = gr_rules g, rr_crawl_delay_ms = gr_crawl_delay_ms g, rr_empty = (\<not> gr_touched g) \<rparr>)"

section \<open>Matching\<close>

text \<open>The segments after the first: each is searched for to the right of the one before it.\<close>

fun match_segments :: "rstr list \<Rightarrow> rstr \<Rightarrow> rstr option" where
  "match_segments [] rest = Some rest"
| "match_segments (segment # segments) rest =
     (if segment = [] then match_segments segments rest
      else case split_once_str segment rest of None \<Rightarrow> None | Some (_, after) \<Rightarrow> match_segments segments after)"

definition match_length :: "rstr \<Rightarrow> rstr \<Rightarrow> nat option" where
  "match_length pattern path =
     (let anchored = ends_with pattern [36];
          pattern = (if anchored then butlast pattern else pattern)
      in case split_on (\<lambda>c. c = 42) pattern of
           [] \<Rightarrow> None
         | first # segments \<Rightarrow>
             if \<not> starts_with path first then None
             else case match_segments segments (drop (length first) path) of
                 None \<Rightarrow> None
               | Some rest \<Rightarrow> if anchored \<and> rest \<noteq> [] then None else Some (byte_len pattern))"

definition better_rule :: "rstr \<Rightarrow> (nat \<times> bool) option \<Rightarrow> rstr \<times> bool \<Rightarrow> (nat \<times> bool) option" where
  "better_rule path best rule =
     (case match_length (fst rule) path of
        None \<Rightarrow> best
      | Some len \<Rightarrow>
          (case best of
             None \<Rightarrow> Some (len, snd rule)
           | Some (best_length, best_allowed) \<Rightarrow>
               if best_length < len \<or> (len = best_length \<and> snd rule \<and> \<not> best_allowed) then Some (len, snd rule) else best))"

definition robots_decide :: "robots_rules \<Rightarrow> rstr \<Rightarrow> RobotsDecision" where
  "robots_decide r path_and_query =
     (let delay = (case rr_crawl_delay_ms r of None \<Rightarrow> 0 | Some d \<Rightarrow> d)
      in if MAXIMUM_CRAWL_DELAY_MS < delay then DelayTooLong
         else if rr_empty r then Allowed delay
         else case foldl (better_rule path_and_query) None (rr_rules r) of
             Some (_, False) \<Rightarrow> Disallowed
           | _ \<Rightarrow> Allowed delay)"

section \<open>The per-origin cache\<close>

record robots_entry =
  re_rules :: "robots_rules option"
  re_fetched_at :: i64

record robots_cache =
  rc_entries :: "(rstr, robots_entry) btree_map"
  rc_ttl_seconds :: i64
  rc_max_entries :: nat

definition robots_cache_new :: robots_cache where
  "robots_cache_new = \<lparr> rc_entries = bt_empty, rc_ttl_seconds = 3600, rc_max_entries = 64 \<rparr>"

definition robots_cached :: "robots_cache \<Rightarrow> rstr \<Rightarrow> i64 \<Rightarrow> robots_rules option option" where
  "robots_cached c origin now =
     (case bt_get (rc_entries c) origin of
        None \<Rightarrow> None
      | Some entry \<Rightarrow> if i64_sub now (re_fetched_at entry) \<le> rc_ttl_seconds c then Some (re_rules entry) else None)"

definition robots_store :: "rstr \<Rightarrow> robots_rules option \<Rightarrow> i64 \<Rightarrow> robots_cache \<Rightarrow> robots_cache" where
  "robots_store origin rules now c =
     c\<lparr> rc_entries := bt_insert origin \<lparr> re_rules = rules, re_fetched_at = now \<rparr>
          (if rc_max_entries c \<le> length (rc_entries c) then bt_empty else rc_entries c) \<rparr>"

text \<open>
  What fetching \<^verbatim>\<open>robots.txt\<close> yields: None when the address does not parse or the fetch fails, otherwise the
  status and the body.
\<close>

definition robots_load :: "(u16 \<times> nat list) option \<Rightarrow> robots_rules option" where
  "robots_load reply =
     (case reply of
        None \<Rightarrow> None
      | Some (status, body) \<Rightarrow>
          if 400 \<le> status \<and> status < 500 then Some allow_all
          else if status = 200 then Some (robots_parse (from_utf8_lossy body) ROBOTS_USER_AGENT)
          else None)"

definition decide_rules :: "robots_rules option \<Rightarrow> rstr \<Rightarrow> RobotsDecision" where
  "decide_rules rules path = (case rules of Some r \<Rightarrow> robots_decide r path | None \<Rightarrow> Unavailable)"

definition robots_cache_decide ::
    "rstr option \<Rightarrow> rstr \<Rightarrow> i64 \<Rightarrow> (u16 \<times> nat list) option \<Rightarrow> robots_cache \<Rightarrow> RobotsDecision \<times> robots_cache" where
  "robots_cache_decide origin path now reply c =
     (case origin of
        None \<Rightarrow> (Unavailable, c)
      | Some origin \<Rightarrow>
          (case robots_cached c origin now of
             Some rules \<Rightarrow> (decide_rules rules path, c)
           | None \<Rightarrow> (let rules = robots_load reply
                     in (decide_rules rules path, robots_store origin rules now c))))"

record 'u origin_api =
  og_scheme :: "'u \<Rightarrow> rstr"
  og_host_str :: "'u \<Rightarrow> rstr option"
  og_port :: "'u \<Rightarrow> rstr option"
  og_path :: "'u \<Rightarrow> rstr"
  og_query :: "'u \<Rightarrow> rstr option"

text \<open>\<open>og_port\<close> is \<open>Url::port\<close> in its decimal form.\<close>

definition origin_key :: "'u origin_api \<Rightarrow> 'u \<Rightarrow> rstr option" where
  "origin_key api url =
     (case og_host_str api url of
        None \<Rightarrow> None
      | Some host \<Rightarrow> Some (og_scheme api url @ lit ''://'' @ host @
          (case og_port api url of Some port \<Rightarrow> lit '':'' @ port | None \<Rightarrow> [])))"

definition path_and_query :: "'u origin_api \<Rightarrow> 'u \<Rightarrow> rstr" where
  "path_and_query api url =
     og_path api url @ (case og_query api url of Some query \<Rightarrow> lit ''?'' @ query | None \<Rightarrow> [])"

section \<open>Patterns mean what RFC 9309 says\<close>

text \<open>
  The reference: \<open>*\<close> stands for any text, every other character for itself, and \<open>fin\<close> judges the text after the
  pattern: anything for a plain pattern, nothing for one anchored with \<open>$\<close>.
\<close>

fun glob :: "(rstr \<Rightarrow> bool) \<Rightarrow> rstr \<Rightarrow> rstr \<Rightarrow> bool" where
  "glob fin [] s = fin s"
| "glob fin (c # p) [] = (c = 42 \<and> glob fin p [])"
| "glob fin (c # p) (d # s) = (if c = 42 then glob fin p (d # s) \<or> glob fin (c # p) s else c = d \<and> glob fin p s)"

fun glob_segments :: "(rstr \<Rightarrow> bool) \<Rightarrow> rstr list \<Rightarrow> rstr \<Rightarrow> bool" where
  "glob_segments fin [] s = fin s"
| "glob_segments fin (w # ws) s \<longleftrightarrow> (\<exists>a b. s = a @ w @ b \<and> glob_segments fin ws b)"

lemma glob_star: "glob fin (42 # p) s \<longleftrightarrow> (\<exists>a b. s = a @ b \<and> glob fin p b)"
proof (induction s)
  case (Cons d s)
  have "(\<exists>a b. d # s = a @ b \<and> glob fin p b) \<longleftrightarrow> glob fin p (d # s) \<or> (\<exists>a b. s = a @ b \<and> glob fin p b)"
    by (metis append_Cons append_Nil list.inject neq_Nil_conv)
  then show ?case using Cons by simp
qed simp

lemma glob_literal:
  "42 \<notin> set w \<Longrightarrow> glob fin (w @ p) s \<longleftrightarrow> (\<exists>b. s = w @ b \<and> glob fin p b)"
proof (induction w arbitrary: s)
  case (Cons c w)
  then show ?case by (cases s) auto
qed simp

lemma glob_pieces:
  assumes "list_all (\<lambda>w. 42 \<notin> set w) (w # ws)"
  shows "glob fin (join_with [42] (w # ws)) s \<longleftrightarrow> (\<exists>b. s = w @ b \<and> glob_segments fin ws b)"
  using assms
proof (induction ws arbitrary: w s)
  case Nil
  then show ?case using glob_literal [of w fin "[]" s] by simp
next
  case (Cons v ws)
  then have IH: "glob fin (join_with [42] (v # ws)) t \<longleftrightarrow> (\<exists>b. t = v @ b \<and> glob_segments fin ws b)" for t by simp
  have "glob fin (42 # join_with [42] (v # ws)) b \<longleftrightarrow> glob_segments fin (v # ws) b" for b
    unfolding glob_star IH by auto
  then show ?case using glob_literal [of w fin "42 # join_with [42] (v # ws)" s] Cons.prems by simp
qed

lemma split_star:
  obtains first segments where "split_on (\<lambda>c. c = 42) p = first # segments" "list_all (\<lambda>w. 42 \<notin> set w) (first # segments)"
    "join_with [42] (first # segments) = p"
proof -
  have "split_on (\<lambda>c. c = 42) p \<noteq> []" by simp
  then obtain first segments where split: "split_on (\<lambda>c. c = 42) p = first # segments" by (meson neq_Nil_conv)
  have "join_with [42] (split_on (\<lambda>c. c = 42) p) = p" by (rule join_split_amp)
  moreover have "list_all (\<lambda>w. 42 \<notin> set w) (split_on (\<lambda>c. c = 42) p)"
    using split_on_pieces [of _ "\<lambda>c. c = 42" p] by (fastforce simp: list_all_iff)
  ultimately show thesis using that split by metis
qed

lemma match_segments_sound: "match_segments ws s = Some rest \<Longrightarrow> fin rest \<Longrightarrow> glob_segments fin ws s"
proof (induction ws arbitrary: s)
  case (Cons w ws)
  show ?case
  proof (cases "w = []")
    case True then show ?thesis using Cons by auto
  next
    case False
    then obtain a b where "split_once_str w s = Some (a, b)" "match_segments ws b = Some rest"
      using Cons.prems(1) by (auto split: option.splits)
    then show ?thesis using Cons.IH [of b] Cons.prems(2) split_once_str_Some [of w s a b] by auto
  qed
qed simp

lemma glob_segments_mono: "glob_segments (\<lambda>_. True) ws b \<Longrightarrow> glob_segments (\<lambda>_. True) ws (z @ b)"
proof (cases ws)
  case (Cons w ws')
  assume "glob_segments (\<lambda>_. True) ws b"
  then obtain a c where "b = a @ w @ c" "glob_segments (\<lambda>_. True) ws' c" using Cons by auto
  then have "z @ b = (z @ a) @ w @ c \<and> glob_segments (\<lambda>_. True) ws' c" by simp
  then have "glob_segments (\<lambda>_. True) (w # ws') (z @ b)" unfolding glob_segments.simps by blast
  then show ?thesis using Cons by simp
qed simp

lemma match_segments_complete: "glob_segments (\<lambda>_. True) ws s \<Longrightarrow> match_segments ws s \<noteq> None"
proof (induction ws arbitrary: s)
  case (Cons w ws)
  then obtain a b where s: "s = a @ w @ b" "glob_segments (\<lambda>_. True) ws b" by auto
  show ?case
  proof (cases "w = []")
    case True
    then show ?thesis using Cons.IH glob_segments_mono [OF s(2), of a] s(1) by simp
  next
    case False
    obtain a' b' where split: "split_once_str w s = Some (a', b')"
      using s(1) split_once_str_None [of w s] contains_str_iff [of s w] by (metis not_Some_eq surj_pair)
    then obtain z where "b' = z @ b" using split_once_str_leftmost s(1) by blast
    then show ?thesis using split False Cons.IH glob_segments_mono [OF s(2), of z] by simp
  qed
qed simp

text \<open>
  C22. The matcher is greedy, taking every segment at its leftmost occurrence; for a pattern without a trailing
  \<open>$\<close> it still agrees with the reference meaning of the pattern, and the length it reports is the pattern's.
\<close>

theorem match_length_glob:
  assumes "\<not> ends_with pattern [36]"
  shows "match_length pattern path = (if glob (\<lambda>_. True) pattern path then Some (byte_len pattern) else None)"
proof -
  obtain first segments where split: "split_on (\<lambda>c. c = 42) pattern = first # segments"
    "list_all (\<lambda>w. 42 \<notin> set w) (first # segments)" "join_with [42] (first # segments) = pattern" by (rule split_star)
  have glob: "glob (\<lambda>_. True) pattern path \<longleftrightarrow> (\<exists>b. path = first @ b \<and> glob_segments (\<lambda>_. True) segments b)"
    using glob_pieces [OF split(2)] split(3) by simp
  have iff: "(case match_segments segments b of None \<Rightarrow> None | Some rest \<Rightarrow> if False \<and> rest \<noteq> [] then None else Some n) =
      (if glob_segments (\<lambda>_. True) segments b then Some n else None)" for b and n :: nat
    using match_segments_complete [of segments b] match_segments_sound [of segments b _ "\<lambda>_. True"] by (auto split: option.splits)
  show ?thesis
    using assms glob by (auto simp: match_length_def Let_def split starts_with_iff iff)
qed

theorem match_length_glob_witness:
  "match_length (lit ''/a*c'') (lit ''/abbcd'') = Some 4 \<and> \<not> ends_with (lit ''/a*c'') [36]"
  using match_length_glob [of "lit ''/a*c''" "lit ''/abbcd''"] by (simp add: ends_with_def len_utf8_def)

text \<open>An anchored pattern the matcher accepts does match the whole path.\<close>

lemma match_length_anchored:
  assumes "match_length (pattern @ [36]) path = Some n"
  shows "glob (\<lambda>rest. rest = []) pattern path \<and> n = byte_len pattern"
proof -
  obtain first segments where split: "split_on (\<lambda>c. c = 42) pattern = first # segments"
    "list_all (\<lambda>w. 42 \<notin> set w) (first # segments)" "join_with [42] (first # segments) = pattern" by (rule split_star)
  have "ends_with (pattern @ [36]) [36]" by (simp add: ends_with_def)
  then obtain b where "path = first @ b" "match_segments segments b = Some []" "n = byte_len pattern"
    using assms by (auto simp: match_length_def Let_def split starts_with_iff split: option.splits if_splits)
  then show ?thesis
    using match_segments_sound [of segments b "[]" "\<lambda>rest. rest = []"] glob_pieces [OF split(2), of "\<lambda>rest. rest = []" path] split(3)
    by auto
qed

text \<open>
  The converse fails: greed takes the first \<open>.php\<close> and the anchor then rejects what follows, so a rule such as
  \<open>Disallow: /*.php$\<close> does not reach a path that contains \<open>.php\<close> twice; and a star just before the anchor
  stands for nothing at all.
\<close>

theorem anchored_match_incomplete:
  "match_length (lit ''/*.php$'') (lit ''/a.php/b.php'') = None \<and>
   glob (\<lambda>rest. rest = []) (lit ''/*.php'') (lit ''/a.php/b.php'') \<and>
   match_length (lit ''/a*$'') (lit ''/ab'') = None \<and> glob (\<lambda>rest. rest = []) (lit ''/a*'') (lit ''/ab'') \<and>
   robots_decide \<lparr> rr_rules = [(lit ''/*.php$'', False)], rr_crawl_delay_ms = None, rr_empty = False \<rparr> (lit ''/a.php/b.php'') = Allowed 0"
  by (simp add: robots_decide_def better_rule_def match_length_def ends_with_def MAXIMUM_CRAWL_DELAY_MS_def)


section \<open>The longest match decides\<close>

definition robots_match :: "rstr \<Rightarrow> rstr \<times> bool \<Rightarrow> nat \<Rightarrow> bool" where
  "robots_match path rule n \<longleftrightarrow> match_length (fst rule) path = Some n"

definition best_spec :: "rstr \<Rightarrow> (rstr \<times> bool) list \<Rightarrow> (nat \<times> bool) option \<Rightarrow> bool" where
  "best_spec path rules best \<longleftrightarrow>
     (case best of
        None \<Rightarrow> \<forall>r\<in>set rules. \<forall>n. \<not> robots_match path r n
      | Some (n, allowed) \<Rightarrow> (\<exists>r\<in>set rules. robots_match path r n) \<and>
          (\<forall>r\<in>set rules. \<forall>m. robots_match path r m \<longrightarrow> m \<le> n) \<and>
          (allowed \<longleftrightarrow> (\<exists>r\<in>set rules. snd r \<and> robots_match path r n)))"

lemma better_rule_spec: "best_spec path rules (foldl (better_rule path) None rules)"
proof (induction rules rule: rev_induct)
  case (snoc rule rules)
  show ?case
  proof (cases "match_length (fst rule) path")
    case None
    then show ?thesis using snoc by (auto simp: best_spec_def better_rule_def [of path _ rule] robots_match_def split: option.splits)
  next
    case (Some len)
    show ?thesis
    proof (cases "foldl (better_rule path) None rules")
      case None
      then show ?thesis using snoc Some by (auto simp: best_spec_def better_rule_def [of path _ rule] robots_match_def)
    next
      case (Some best)
      obtain k a where best: "foldl (better_rule path) None rules = Some (k, a)" using Some by (cases best) simp
      have ex: "\<exists>r\<in>set rules. robots_match path r k"
        and max: "\<And>r m. r \<in> set rules \<Longrightarrow> robots_match path r m \<Longrightarrow> m \<le> k"
        and a: "a \<longleftrightarrow> (\<exists>r\<in>set rules. snd r \<and> robots_match path r k)"
        using snoc best by (auto simp: best_spec_def)
      have new: "robots_match path rule m \<longleftrightarrow> m = len" for m
        using \<open>match_length (fst rule) path = Some len\<close> by (auto simp: robots_match_def)
      have step: "foldl (better_rule path) None (rules @ [rule]) =
          (if k < len \<or> (len = k \<and> snd rule \<and> \<not> a) then Some (len, snd rule) else Some (k, a))"
        using best \<open>match_length (fst rule) path = Some len\<close> by (simp add: better_rule_def [of path _ rule])
      consider "k < len" | "len = k" | "len < k" by linarith
      then show ?thesis unfolding step using ex max a new
        by cases (auto simp: best_spec_def dest: max order_less_le_trans intro: order_trans [OF max])
    qed
  qed
qed (simp add: best_spec_def)

text \<open>
  C23. Longest match wins, and \<open>Allow\<close> wins a tie: with rules that apply to us and an acceptable crawl delay, a
  path is refused exactly when some \<open>Disallow\<close> rule matches it with a pattern longer than that of every matching
  \<open>Allow\<close> rule. A path no rule matches is allowed.
\<close>

theorem robots_longest_match:
  "robots_decide r path =
     (let delay = (case rr_crawl_delay_ms r of None \<Rightarrow> 0 | Some d \<Rightarrow> d)
      in if 5000 < delay then DelayTooLong
         else if \<not> rr_empty r \<and> (\<exists>p n. (p, False) \<in> set (rr_rules r) \<and> match_length p path = Some n \<and>
              \<not> (\<exists>q m. (q, True) \<in> set (rr_rules r) \<and> match_length q path = Some m \<and> n \<le> m))
         then Disallowed else Allowed delay)"
proof -
  let ?best = "foldl (better_rule path) None (rr_rules r)"
  have spec: "best_spec path (rr_rules r) ?best" by (rule better_rule_spec)
  have "(\<exists>n. ?best = Some (n, False)) \<longleftrightarrow> (\<exists>p n. (p, False) \<in> set (rr_rules r) \<and> match_length p path = Some n \<and>
      \<not> (\<exists>q m. (q, True) \<in> set (rr_rules r) \<and> match_length q path = Some m \<and> n \<le> m))" (is "?L \<longleftrightarrow> ?R")
  proof
    assume ?L
    then obtain n where "?best = Some (n, False)" ..
    then have "\<exists>p b. (p, b) \<in> set (rr_rules r) \<and> match_length p path = Some n"
      and max: "\<And>p b m. (p, b) \<in> set (rr_rules r) \<Longrightarrow> match_length p path = Some m \<Longrightarrow> m \<le> n"
      and no: "\<And>p. (p, True) \<in> set (rr_rules r) \<Longrightarrow> match_length p path \<noteq> Some n"
      using spec by (auto simp: best_spec_def robots_match_def)
    then show ?R by (metis le_antisym)
  next
    assume ?R
    then obtain p n where p: "(p, False) \<in> set (rr_rules r)" "match_length p path = Some n"
      and no: "\<And>q m. (q, True) \<in> set (rr_rules r) \<Longrightarrow> match_length q path = Some m \<Longrightarrow> m < n" by (meson not_le)
    obtain k a where best: "?best = Some (k, a)"
      using spec p by (cases ?best) (auto simp: best_spec_def robots_match_def)
    have "n \<le> k" using spec p best by (auto simp: best_spec_def robots_match_def)
    then have "\<not> a" using spec best no by (fastforce simp: best_spec_def robots_match_def)
    then show ?L using best by auto
  qed
  moreover have "(case ?best of Some (_, False) \<Rightarrow> Disallowed | _ \<Rightarrow> Allowed d) =
      (if \<exists>n. ?best = Some (n, False) then Disallowed else Allowed d)" for d
    by (auto split: option.splits bool.splits)
  ultimately have "(case ?best of Some (_, False) \<Rightarrow> Disallowed | _ \<Rightarrow> Allowed d) =
      (if ?R then Disallowed else Allowed d)" for d by (simp only:)
  then show ?thesis unfolding robots_decide_def Let_def MAXIMUM_CRAWL_DELAY_MS_def
    by (cases "rr_empty r") (simp_all only: if_True if_False simp_thms)
qed

section \<open>Groups\<close>

text \<open>
  Once the file has said anything to our own agent, the wildcard group has no influence: the rules are those of
  the specific group alone.
\<close>

lemma specific_group_wins:
  assumes "p = foldl (parse_line agent) parser_start (str_lines body)" "gr_touched (rp_specific p)"
  shows "robots_parse body agent = \<lparr> rr_rules = gr_rules (rp_specific p), rr_crawl_delay_ms = gr_crawl_delay_ms (rp_specific p), rr_empty = False \<rparr>"
  using assms by (simp add: robots_parse_def Let_def)

definition group_ok :: "robots_group \<Rightarrow> bool" where
  "group_ok g \<longleftrightarrow> (gr_touched g \<or> g = group_default) \<and> list_all (\<lambda>(p, _). p \<noteq> []) (gr_rules g)"

lemma group_ok_default [simp]: "group_ok group_default"
  by (simp add: group_ok_def group_default_def)

lemma apply_field_ok: "group_ok g \<Longrightarrow> group_ok (apply_field field v g)"
  by (auto simp: group_ok_def apply_field_def group_default_def)

definition parser_ok :: "robots_parser \<Rightarrow> bool" where
  "parser_ok p \<longleftrightarrow> group_ok (rp_specific p) \<and> group_ok (rp_wildcard p)"

lemma parse_line_ok: "parser_ok p \<Longrightarrow> parser_ok (parse_line agent p line)"
proof -
  assume p: "parser_ok p"
  have "parser_ok q \<Longrightarrow> parser_ok (foldl (apply_agent agent field v) q agents)" for q field v agents
    by (rule foldl_invariant [where P = parser_ok]) (auto simp: parser_ok_def apply_agent_def apply_field_ok)
  then have "parser_ok (parse_field agent field v p)" for field v
    using p by (auto simp: parse_field_def Let_def parser_ok_def)
  then show ?thesis using p by (auto simp: parse_line_def Let_def split: option.splits)
qed

text \<open>
  Whatever the file contains, the parsed rules have no empty pattern, and they are marked empty only when
  they hold no rule and no delay: a file the parser cannot make sense of imposes nothing, and a rule that applies
  to us is never dropped by the empty flag.
\<close>

theorem robots_parse_ok:
  "case robots_parse body agent of r \<Rightarrow>
     list_all (\<lambda>(p, _). p \<noteq> []) (rr_rules r) \<and> (if rr_empty r then r = allow_all else True)"
proof -
  let ?p = "foldl (parse_line agent) parser_start (str_lines body)"
  have "parser_ok ?p"
    by (rule foldl_invariant [where P = parser_ok]) (auto simp: parse_line_ok, simp add: parser_ok_def parser_start_def)
  then have "group_ok (if gr_touched (rp_specific ?p) then rp_specific ?p else rp_wildcard ?p)" by (simp add: parser_ok_def)
  then show ?thesis by (auto simp: robots_parse_def Let_def group_ok_def group_default_def allow_all_def)
qed

section \<open>The cache is bounded and faithful\<close>

definition robots_cache_ok :: "robots_cache \<Rightarrow> bool" where
  "robots_cache_ok c \<longleftrightarrow> bt_wf (rc_entries c) \<and> length (rc_entries c) \<le> rc_max_entries c \<and> 0 < rc_max_entries c"


type_synonym robots_call = "rstr option \<times> rstr \<times> i64 \<times> (u16 \<times> nat list) option"

definition robots_step :: "robots_call \<Rightarrow> robots_cache \<Rightarrow> robots_cache" where
  "robots_step call c = (case call of (origin, path, now, reply) \<Rightarrow> snd (robots_cache_decide origin path now reply c))"

definition entries_from :: "robots_call set \<Rightarrow> robots_cache \<Rightarrow> bool" where
  "entries_from calls c \<longleftrightarrow> (\<forall>(origin, entry)\<in>set (rc_entries c). \<exists>path reply.
     (Some origin, path, re_fetched_at entry, reply) \<in> calls \<and> re_rules entry = robots_load reply)"

lemma length_bt_insert: "length (bt_insert k v m) \<le> Suc (length m)"
  by (induction m) auto

lemma set_bt_insert: "set (bt_insert k v m) \<subseteq> insert (k, v) (set m)"
  by (induction m) (auto split: if_splits)

lemma robots_store_ok:
  assumes "robots_cache_ok c" shows "robots_cache_ok (robots_store origin rules now c)"
proof -
  define m where "m = (if rc_max_entries c \<le> length (rc_entries c) then bt_empty else rc_entries c)"
  have "bt_wf m" "length m < rc_max_entries c"
    using assms by (auto simp: m_def robots_cache_ok_def bt_empty_def bt_wf_def)
  then show ?thesis
    using assms bt_insert_wf length_bt_insert [of origin "\<lparr> re_rules = rules, re_fetched_at = now \<rparr>" m]
    by (simp add: robots_store_def robots_cache_ok_def m_def [symmetric])
qed

lemma robots_step_ok: "robots_cache_ok c \<Longrightarrow> robots_cache_ok (robots_step call c)"
  by (auto simp: robots_step_def robots_cache_decide_def Let_def robots_store_ok split: prod.splits option.splits)

lemma robots_step_keeps:
  "rc_max_entries (robots_step call c) = rc_max_entries c" "rc_ttl_seconds (robots_step call c) = rc_ttl_seconds c"
  by (auto simp: robots_step_def robots_cache_decide_def robots_store_def Let_def split: prod.splits option.splits)

lemma robots_step_from:
  assumes "entries_from calls c"
  shows "entries_from (insert call calls) (robots_step call c)"
proof -
  obtain origin path now reply where call: "call = (origin, path, now, reply)" by (cases call) auto
  have mono: "entries_from (insert call calls) c" using assms by (fastforce simp: entries_from_def)
  show ?thesis
  proof (cases "\<exists>o'. origin = Some o' \<and> robots_cached c o' now = None")
    case False
    then show ?thesis using mono by (auto simp: call robots_step_def robots_cache_decide_def split: option.splits)
  next
    case True
    then obtain o' where o': "origin = Some o'" "robots_cached c o' now = None" by blast
    let ?e = "\<lparr> re_rules = robots_load reply, re_fetched_at = now \<rparr>"
    have sub: "set (rc_entries (robots_step call c)) \<subseteq> insert (o', ?e) (set (rc_entries c))"
      using set_bt_insert [of o' ?e] o'
      by (auto simp: call robots_step_def robots_cache_decide_def robots_store_def Let_def bt_empty_def)
    have new: "\<exists>p r. (Some o', p, re_fetched_at ?e, r) \<in> insert call calls \<and> re_rules ?e = robots_load r"
      using call o' by auto
    show ?thesis unfolding entries_from_def
    proof (intro ballI, clarify)
      fix og entry assume "(og, entry) \<in> set (rc_entries (robots_step call c))"
      then consider "og = o'" "entry = ?e" | "(og, entry) \<in> set (rc_entries c)" using sub by blast
      then show "\<exists>p r. (Some og, p, re_fetched_at entry, r) \<in> insert call calls \<and> re_rules entry = robots_load r"
        using new mono by cases (simp_all only: entries_from_def, fast)
    qed
  qed
qed

lemma robots_run_facts:
  fixes calls :: "robots_call list"
  defines "c \<equiv> fold robots_step calls robots_cache_new"
  shows "robots_cache_ok c \<and> rc_max_entries c = 64 \<and> rc_ttl_seconds c = 3600 \<and> entries_from (set calls) c"
  unfolding c_def
proof (induction calls rule: rev_induct)
  case Nil
  then show ?case by (simp add: robots_cache_new_def robots_cache_ok_def entries_from_def bt_empty_def bt_wf_def)
next
  case (snoc call calls)
  then show ?case using robots_step_from [of "set calls"] by (simp add: robots_step_ok robots_step_keeps)
qed

text \<open>
  C24. However many links are crawled, the robots cache never holds more than 64 origins, and every decision rests
  on the file the origin itself served: it is the decision of the rules loaded by this call, or by an earlier call
  for the same origin at most an hour old. When that load failed the decision is \<open>Unavailable\<close>, never \<open>Allowed\<close>.
\<close>

theorem robots_cache_faithful:
  assumes "c = fold robots_step calls robots_cache_new"
  shows "length (rc_entries c) \<le> 64 \<and>
    (\<exists>loaded. fst (robots_cache_decide (Some origin) path now reply c) = decide_rules (robots_load loaded) path \<and>
       (loaded = reply \<or> (\<exists>p t. (Some origin, p, t, loaded) \<in> set calls \<and> i64_sub now t \<le> 3600)))"
proof -
  have facts: "robots_cache_ok c" "rc_max_entries c = 64" "rc_ttl_seconds c = 3600" "entries_from (set calls) c"
    using robots_run_facts [of calls] assms by simp_all
  have "\<exists>loaded. fst (robots_cache_decide (Some origin) path now reply c) = decide_rules (robots_load loaded) path \<and>
       (loaded = reply \<or> (\<exists>p t. (Some origin, p, t, loaded) \<in> set calls \<and> i64_sub now t \<le> 3600))"
  proof (cases "robots_cached c origin now")
    case None
    then show ?thesis by (auto simp: robots_cache_decide_def Let_def)
  next
    case (Some rules)
    then obtain entry where entry: "bt_get (rc_entries c) origin = Some entry" "re_rules entry = rules"
      "i64_sub now (re_fetched_at entry) \<le> 3600"
      using facts(3) by (auto simp: robots_cached_def split: option.splits if_splits)
    then have "(origin, entry) \<in> set (rc_entries c)" by (auto simp: bt_get_def dest: map_of_SomeD)
    then obtain p r where r: "(Some origin, p, re_fetched_at entry, r) \<in> set calls" "rules = robots_load r"
      using facts(4) entry(2) by (fastforce simp: entries_from_def)
    have "fst (robots_cache_decide (Some origin) path now reply c) = decide_rules (robots_load r) path"
      using Some r(2) by (simp add: robots_cache_decide_def)
    then show ?thesis using r(1) entry(3) by blast
  qed
  then show ?thesis using facts by (simp add: robots_cache_ok_def)
qed

theorem robots_cache_faithful_witness:
  "fst (robots_cache_decide (Some (lit ''o'')) (lit ''/'') 5 None
     (fold robots_step [(Some (lit ''o''), lit ''/x'', 4, Some (404, []))] robots_cache_new)) = Allowed 0 \<and>
   length (rc_entries (fold robots_step [(Some (lit ''o''), lit ''/x'', 4, Some (404, []))] robots_cache_new)) \<le> 64"
proof -
  have "fst (robots_cache_decide (Some (lit ''o'')) (lit ''/'') 5 None
     (fold robots_step [(Some (lit ''o''), lit ''/x'', 4, Some (404, []))] robots_cache_new)) = Allowed 0"
    by (simp add: robots_step_def robots_cache_decide_def robots_cache_new_def robots_cached_def robots_store_def bt_get_def bt_empty_def
        Let_def robots_load_def decide_rules_def allow_all_def robots_decide_def MAXIMUM_CRAWL_DELAY_MS_def i64_sub_def)
  then show ?thesis
    using robots_cache_faithful [of _ "[(Some (lit ''o''), lit ''/x'', 4, Some (404, []))]"] by blast
qed

text \<open>A whole file: our own group overrides the wildcard group, and the longer \<open>Allow\<close> beats the shorter \<open>Disallow\<close>.\<close>

lemma robots_sample:
  "let r = robots_parse (lit ''User-agent: *'' @ [10] @ lit ''Disallow: /'' @ [10] @ lit ''User-agent: Amatl # us'' @ [10]
       @ lit ''Disallow: /in/'' @ [10] @ lit ''Allow: /in/pub'') ROBOTS_USER_AGENT
   in robots_decide r (lit ''/in/a'') = Disallowed \<and> robots_decide r (lit ''/in/pub/a'') = Allowed 0 \<and> robots_decide r (lit ''/b'') = Allowed 0"
  by (simp add: robots_parse_def parser_start_def group_default_def parse_line_def parse_field_def apply_agent_def apply_field_def str_lines_def
      strip_cr_def ROBOTS_USER_AGENT_def robots_decide_def better_rule_def match_length_def MAXIMUM_CRAWL_DELAY_MS_def Let_def rstr_simps)

end
