(* ===== verification/Fetch.thy ===== *)
theory Fetch
  imports Model Security "HOL-Library.Product_Lexorder"
begin

text \<open>
  The safe fetcher of \<^verbatim>\<open>fetch.rs\<close>: request headers, the redirect loop with its address checks at every hop, the
  cache of pinned HTTP clients and the bounded body reader. What the network answers is an argument, one
  record per hop: the DNS answer, whether the client builds, and the reply; None is the deadline passing. The
  loop also returns the contacts it made: for every request sent, the URL and the addresses the client was
  pinned to. URL parsing is the parameter record of the \<^verbatim>\<open>url\<close> crate.
\<close>

section \<open>Data\<close>

datatype FetchError =
    EgressDenied | BlockedUrl string | Fe_Dns | AddressBlocked | HeaderBlocked | Fe_RedirectLimit | InvalidRedirect
  | Fe_ByteLimit | Fe_Timeout | Fe_Network

record 'u fetch_request =
  fq_url :: 'u
  fq_timeout_ms :: u64
  fq_max_bytes :: u64
  fq_max_redirects :: u32
  fq_headers :: "(rstr \<times> rstr) list"
  fq_request_id :: "rstr option"

record 'u fetch_result =
  fr_final_url :: 'u
  fr_status :: u16
  fr_headers_safe :: "(rstr \<times> rstr) list"
  fr_content_type :: "rstr option"
  fr_body :: "nat list"
  fr_size :: u64
  fr_redirect_chain :: "'u list"
  fr_retrieved_at :: rstr

record 'u link_api =
  lk_join :: "'u \<Rightarrow> rstr \<Rightarrow> 'u option"
  lk_port_or_known_default :: "'u \<Rightarrow> u16 option"

type_synonym sock_addr = "IpAddr \<times> u16"

section \<open>Headers\<close>

definition ALLOWED_HEADERS :: "string list" where
  "ALLOWED_HEADERS = [''accept'', ''accept-language'', ''if-modified-since'', ''if-none-match'', ''user-agent'']"

definition validate_headers :: "(rstr \<times> rstr) list \<Rightarrow> FetchError + unit" where
  "validate_headers headers =
     (if list_all (\<lambda>(name, _). to_ascii_lowercase name \<in> set (map lit ALLOWED_HEADERS)) headers then Ok () else Err HeaderBlocked)"

definition SAFE_HEADERS :: "string list" where
  "SAFE_HEADERS = [''content-type'', ''content-length'', ''last-modified'', ''etag'', ''cache-control'']"

text \<open>A reply's headers as the lookup of a readable value by name; the collected map is in key order.\<close>

definition safe_response_headers :: "(rstr \<Rightarrow> rstr option) \<Rightarrow> (rstr \<times> rstr) list" where
  "safe_response_headers headers =
     sort_key fst (List.map_filter (\<lambda>name. map_option (\<lambda>v. (lit name, v)) (headers (lit name))) SAFE_HEADERS)"

definition is_redirect :: "u16 \<Rightarrow> bool" where
  "is_redirect status \<longleftrightarrow> status \<in> {301, 302, 303, 307, 308}"

section \<open>One request\<close>

record http_reply =
  hr_status :: u16
  hr_headers :: "rstr \<Rightarrow> rstr option"
  hr_chunks :: "(unit + nat list) list"

record raw_response =
  rw_status :: u16
  rw_location :: "rstr option"
  rw_headers_safe :: "(rstr \<times> rstr) list"
  rw_content_type :: "rstr option"
  rw_body :: "nat list"

text \<open>A chunk is the bytes read, or the transport error that ends the reading.\<close>

fun read_body :: "u64 \<Rightarrow> nat list \<Rightarrow> (unit + nat list) list \<Rightarrow> FetchError + nat list" where
  "read_body max_bytes body [] = Ok body"
| "read_body max_bytes body (Inl _ # chunks) = Err Fe_Network"
| "read_body max_bytes body (Inr chunk # chunks) =
     (if unat max_bytes < length body + length chunk then Err Fe_ByteLimit else read_body max_bytes (body @ chunk) chunks)"

definition execute_pinned ::
    "(rstr \<times> rstr \<Rightarrow> bool) \<Rightarrow> (rstr \<times> rstr) list \<Rightarrow> u64 \<Rightarrow> (unit + http_reply) option \<Rightarrow> FetchError + raw_response" where
  "execute_pinned header_ok headers max_bytes reply =
     (if \<not> list_all header_ok headers then Err HeaderBlocked
      else case reply of
          None \<Rightarrow> Err Fe_Timeout
        | Some (Inl _) \<Rightarrow> Err Fe_Network
        | Some (Inr r) \<Rightarrow>
            (let safe = safe_response_headers (hr_headers r);
                 raw = \<lparr> rw_status = hr_status r, rw_location = hr_headers r (lit ''location''), rw_headers_safe = safe,
                         rw_content_type = map_of safe (lit ''content-type''), rw_body = [] \<rparr>
             in if is_redirect (hr_status r) then Ok raw
                else case read_body max_bytes [] (hr_chunks r) of
                    Err e \<Rightarrow> Err e
                  | Ok body \<Rightarrow> Ok (raw\<lparr> rw_body := body \<rparr>)))"

section \<open>Pinned clients\<close>

text \<open>
  A client is pinned to a host and the addresses it may connect to. The cache key, a string formatted from the
  host and the sorted addresses, is modelled by the pair itself.
\<close>

record http_client =
  hc_host :: rstr
  hc_addresses :: "sock_addr list"

type_synonym client_cache = "((rstr \<times> sock_addr list) \<times> http_client) list"

fun ip_rank :: "IpAddr \<Rightarrow> nat \<times> nat" where
  "ip_rank (IpV4 a) = (0, v4_value a)"
| "ip_rank (IpV6 a) = (1, v6_value a)"

definition sorted_addresses :: "sock_addr list \<Rightarrow> sock_addr list" where
  "sorted_addresses addresses = remdups_adj (sort_key (\<lambda>(ip, port). (ip_rank ip, unat port)) addresses)"

definition client_for :: "bool \<Rightarrow> rstr \<Rightarrow> sock_addr list \<Rightarrow> client_cache \<Rightarrow> (FetchError + http_client) \<times> client_cache" where
  "client_for builds host addresses clients =
     (let key = (host, sorted_addresses addresses)
      in case map_of clients key of
           Some client \<Rightarrow> (Ok client, clients)
         | None \<Rightarrow>
             if \<not> builds then (Err Fe_Network, clients)
             else let client = \<lparr> hc_host = host, hc_addresses = sorted_addresses addresses \<rparr>
                  in (Ok client, (key, client) # (if 64 \<le> length clients then [] else clients)))"

section \<open>The redirect loop\<close>

definition validate_redirect :: "'u url_api \<Rightarrow> 'u link_api \<Rightarrow> 'u \<Rightarrow> rstr \<Rightarrow> FetchError + 'u" where
  "validate_redirect api lk current location =
     (case lk_join lk current location of
        None \<Rightarrow> Err InvalidRedirect
      | Some target \<Rightarrow> (case validate_deep_url api target of Err code \<Rightarrow> Err (BlockedUrl code) | Ok _ \<Rightarrow> Ok target))"

record hop_env =
  he_resolve :: "(FetchError + sock_addr list) option"
  he_builds :: bool
  he_reply :: "(unit + http_reply) option"

record fetch_env =
  fe_hop :: "nat \<Rightarrow> hop_env"
  fe_header_ok :: "rstr \<times> rstr \<Rightarrow> bool"
  fe_retrieved_at :: rstr

type_synonym 'u contact = "'u \<times> http_client"

text \<open>The checks and the request of one hop: an error, or the reply, with the client it was sent through.\<close>

definition fetch_hop ::
    "'u url_api \<Rightarrow> 'u link_api \<Rightarrow> fetch_env \<Rightarrow> 'u fetch_request \<Rightarrow> hop_env \<Rightarrow> 'u \<Rightarrow> client_cache
     \<Rightarrow> (FetchError + raw_response) \<times> client_cache \<times> 'u contact list" where
  "fetch_hop api lk env request hop current clients =
     (case validate_deep_url api current of
        Err code \<Rightarrow> (Err (BlockedUrl code), clients, [])
      | Ok _ \<Rightarrow>
     (case url_host_str api current of
        None \<Rightarrow> (Err (BlockedUrl ''missing_host''), clients, [])
      | Some host \<Rightarrow>
     (case lk_port_or_known_default lk current of
        None \<Rightarrow> (Err (BlockedUrl ''missing_port''), clients, [])
      | Some port \<Rightarrow>
     (case he_resolve hop of
        None \<Rightarrow> (Err Fe_Timeout, clients, [])
      | Some (Inl e) \<Rightarrow> (Err e, clients, [])
      | Some (Inr addresses) \<Rightarrow>
     (case validate_resolved_addresses (map fst addresses) of
        Err code \<Rightarrow> (Err AddressBlocked, clients, [])
      | Ok _ \<Rightarrow>
     (case client_for (he_builds hop) host addresses clients of
        (Err e, clients) \<Rightarrow> (Err e, clients, [])
      | (Ok client, clients) \<Rightarrow>
          (execute_pinned (fe_header_ok env) (fq_headers request) (fq_max_bytes request) (he_reply hop), clients,
           [(current, client)])))))))"

text \<open>
  The source compares the number of redirects as a \<open>u32\<close>; it is at most the limit, itself a \<open>u32\<close>, so the cast
  loses nothing.
\<close>

function fetch_loop ::
    "'u url_api \<Rightarrow> 'u link_api \<Rightarrow> fetch_env \<Rightarrow> 'u fetch_request \<Rightarrow> 'u \<Rightarrow> 'u list \<Rightarrow> client_cache
     \<Rightarrow> (FetchError + 'u fetch_result) \<times> client_cache \<times> 'u contact list" where
  "fetch_loop api lk env request current redirects clients =
     (case fetch_hop api lk env request (fe_hop env (length redirects)) current clients of
        (Err e, clients, contacts) \<Rightarrow> (Err e, clients, contacts)
      | (Ok response, clients, contacts) \<Rightarrow>
          if is_redirect (rw_status response) then
            (if unat (fq_max_redirects request) \<le> length redirects then (Err Fe_RedirectLimit, clients, contacts)
             else case rw_location response of
                 None \<Rightarrow> (Err InvalidRedirect, clients, contacts)
               | Some location \<Rightarrow>
                   (case validate_redirect api lk current location of
                      Err e \<Rightarrow> (Err e, clients, contacts)
                    | Ok target \<Rightarrow>
                        (case fetch_loop api lk env request target (redirects @ [current]) clients of
                           (result, clients, later) \<Rightarrow> (result, clients, contacts @ later))))
          else
            (Ok \<lparr> fr_final_url = current, fr_status = rw_status response, fr_headers_safe = rw_headers_safe response,
                 fr_content_type = rw_content_type response, fr_body = rw_body response,
                 fr_size = of_nat (length (rw_body response)), fr_redirect_chain = redirects,
                 fr_retrieved_at = fe_retrieved_at env \<rparr>, clients, contacts))"
  by pat_completeness auto
termination
  by (relation "measure (\<lambda>(api, lk, env, request, current, redirects, clients). unat (fq_max_redirects request) - length redirects)") auto

declare fetch_loop.simps [simp del]

definition fetch_inner ::
    "'u url_api \<Rightarrow> 'u link_api \<Rightarrow> fetch_env \<Rightarrow> 'u fetch_request \<Rightarrow> client_cache
     \<Rightarrow> (FetchError + 'u fetch_result) \<times> client_cache \<times> 'u contact list" where
  "fetch_inner api lk env request clients =
     (case validate_headers (fq_headers request) of
        Err e \<Rightarrow> (Err e, clients, [])
      | Ok _ \<Rightarrow> fetch_loop api lk env request (fq_url request) [] clients)"

section \<open>Every contact is vetted\<close>

definition contact_safe :: "'u url_api \<Rightarrow> 'u contact \<Rightarrow> bool" where
  "contact_safe api contact \<longleftrightarrow>
     (case contact of (u, client) \<Rightarrow>
        validate_deep_url api u = Ok () \<and> url_host_str api u = Some (hc_host client) \<and> hc_addresses client \<noteq> [] \<and>
        list_all (\<lambda>(ip, _). is_public_ip ip) (hc_addresses client))"

definition client_cache_ok :: "client_cache \<Rightarrow> bool" where
  "client_cache_ok clients \<longleftrightarrow> length clients \<le> 64 \<and>
     list_all (\<lambda>((host, addresses), client). hc_host client = host \<and> hc_addresses client = addresses) clients"

lemma set_sorted_addresses [simp]: "set (sorted_addresses addresses) = set addresses"
  by (simp add: sorted_addresses_def)

lemma client_for_facts:
  assumes "client_cache_ok clients" "client_for builds host addresses clients = (r, clients')"
  shows "client_cache_ok clients'"
    and "r = Ok client \<Longrightarrow> hc_host client = host \<and> hc_addresses client = sorted_addresses addresses"
  using assms
  by (auto simp: client_for_def client_cache_ok_def Let_def list_all_iff dest!: map_of_SomeD split: option.splits if_splits)

lemma read_body_limit:
  "read_body max_bytes body chunks = Ok result \<Longrightarrow> length body \<le> unat max_bytes \<Longrightarrow> length result \<le> unat max_bytes"
  by (induction max_bytes body chunks rule: read_body.induct) (auto split: if_splits)

lemma execute_pinned_limit:
  "execute_pinned header_ok headers max_bytes reply = Ok raw \<Longrightarrow> length (rw_body raw) \<le> unat max_bytes"
  by (auto simp: execute_pinned_def Let_def dest: read_body_limit split: if_splits option.splits sum.splits)

lemma fetch_hop_facts:
  assumes "client_cache_ok clients" "fetch_hop api lk env request hop current clients = (r, clients', contacts)"
  shows "client_cache_ok clients' \<and> list_all (contact_safe api) contacts \<and> length contacts \<le> 1 \<and>
    (\<forall>raw. r = Ok raw \<longrightarrow> length (rw_body raw) \<le> unat (fq_max_bytes request) \<and> validate_deep_url api current = Ok () \<and> length contacts = 1)"
proof (cases "contacts = []")
  case True
  then have "client_cache_ok clients' \<and> (\<forall>raw. r \<noteq> Ok raw)"
    using assms client_for_facts(1) [OF assms(1)]
    by (auto simp: fetch_hop_def split: sum.splits option.splits prod.splits)
  then show ?thesis using True by simp
next
  case False
  then obtain host addresses client where hop: "validate_deep_url api current = Ok ()" "url_host_str api current = Some host"
    "validate_resolved_addresses (map fst addresses) = Ok ()" "client_for (he_builds hop) host addresses clients = (Ok client, clients')"
    "r = execute_pinned (fe_header_ok env) (fq_headers request) (fq_max_bytes request) (he_reply hop)" "contacts = [(current, client)]"
    using assms(2) by (auto simp: fetch_hop_def split: sum.splits option.splits prod.splits)
  note client = client_for_facts [OF assms(1) hop(4)]
  have "addresses \<noteq> [] \<and> list_all is_public_ip (map fst addresses)" using hop(3) by (simp add: validate_resolved_ok)
  then have "contact_safe api (current, client)"
    using hop(1,2) client(2) [OF refl] by (auto simp: contact_safe_def list_all_iff simp flip: set_empty)
  then show ?thesis using client(1) hop execute_pinned_limit by fastforce
qed

definition fetch_spec :: "'u url_api \<Rightarrow> 'u fetch_request \<Rightarrow> nat \<Rightarrow> (FetchError + 'u fetch_result) \<times> client_cache \<times> 'u contact list \<Rightarrow> bool" where
  "fetch_spec api request n outcome \<longleftrightarrow>
     (case outcome of (r, clients, contacts) \<Rightarrow>
        client_cache_ok clients \<and> list_all (contact_safe api) contacts \<and> n + length contacts \<le> unat (fq_max_redirects request) + 1 \<and>
        (case r of Err _ \<Rightarrow> True
         | Ok result \<Rightarrow> validate_deep_url api (fr_final_url result) = Ok () \<and> \<not> is_redirect (fr_status result) \<and>
             length (fr_body result) \<le> unat (fq_max_bytes request) \<and>
             length (fr_redirect_chain result) \<le> unat (fq_max_redirects request) \<and>
             length (fr_redirect_chain result) + 1 = n + length contacts))"

lemma fetch_loop_spec:
  assumes "client_cache_ok clients" "length redirects \<le> unat (fq_max_redirects request)"
  shows "fetch_spec api request (length redirects) (fetch_loop api lk env request current redirects clients)"
  using assms
proof (induction api lk env request current redirects clients rule: fetch_loop.induct)
  case (1 api lk env request current redirects clients)
  obtain r clients' contacts where hop: "fetch_hop api lk env request (fe_hop env (length redirects)) current clients = (r, clients', contacts)"
    by (cases "fetch_hop api lk env request (fe_hop env (length redirects)) current clients") auto
  note facts = fetch_hop_facts [OF "1.prems"(1) hop]
  note loop = fetch_loop.simps [of api lk env request current redirects clients, unfolded hop]
  show ?case
  proof (cases "\<exists>raw location target. r = Ok raw \<and> is_redirect (rw_status raw) \<and> length redirects < unat (fq_max_redirects request) \<and>
      rw_location raw = Some location \<and> validate_redirect api lk current location = Ok target")
    case True
    then obtain raw location target where step: "r = Ok raw" "is_redirect (rw_status raw)" "length redirects < unat (fq_max_redirects request)"
      "rw_location raw = Some location" "validate_redirect api lk current location = Ok target" by blast
    have rec: "fetch_spec api request (Suc (length redirects)) (fetch_loop api lk env request target (redirects @ [current]) clients')"
      using "1.IH" [of r "(clients', contacts)" raw clients' contacts location target] hop step facts by simp
    obtain r2 c2 later where out: "fetch_loop api lk env request target (redirects @ [current]) clients' = (r2, c2, later)"
      by (cases "fetch_loop api lk env request target (redirects @ [current]) clients'") auto
    have "fetch_loop api lk env request current redirects clients = (r2, c2, contacts @ later)"
      using loop step out by simp
    then show ?thesis using rec out facts step(1) by (auto simp: fetch_spec_def split: sum.splits)
  next
    case False
    then have "fetch_loop api lk env request current redirects clients = (Ok result, clients', contacts) \<Longrightarrow>
        (\<exists>raw. r = Ok raw \<and> \<not> is_redirect (rw_status raw) \<and> fr_final_url result = current \<and> fr_status result = rw_status raw \<and>
          fr_body result = rw_body raw \<and> fr_redirect_chain result = redirects)" for result
      using loop by (auto split: sum.splits if_splits option.splits)
    moreover have "\<exists>r'. fetch_loop api lk env request current redirects clients = (r', clients', contacts)"
      using loop False by (auto split: sum.splits option.splits prod.splits)
    ultimately show ?thesis using facts "1.prems"(2) by (fastforce simp: fetch_spec_def split: sum.splits)
  qed
qed

text \<open>
  C4. However the servers redirect and whatever DNS answers, the fetcher only ever sends a request to a vetted URL
  through a client pinned to that URL's host and to addresses that are all public; it sends at most one request
  more than the redirect limit; and a result it returns comes from a vetted URL, is no redirect, and its body is
  within the byte limit. The client cache stays within 64 entries, each pinned as its key says.
\<close>

theorem fetch_contacts_safe:
  assumes "client_cache_ok clients"
  shows "case fetch_inner api lk env request clients of (r, clients', contacts) \<Rightarrow>
    client_cache_ok clients' \<and>
    list_all (\<lambda>(u, client). validate_deep_url api u = Ok () \<and> url_host_str api u = Some (hc_host client) \<and>
      hc_addresses client \<noteq> [] \<and> list_all (\<lambda>(ip, _). is_public_ip ip) (hc_addresses client)) contacts \<and>
    length contacts \<le> unat (fq_max_redirects request) + 1 \<and>
    (case r of Err _ \<Rightarrow> True
     | Ok result \<Rightarrow> validate_deep_url api (fr_final_url result) = Ok () \<and> \<not> is_redirect (fr_status result) \<and>
         length (fr_body result) \<le> unat (fq_max_bytes request) \<and>
         length (fr_redirect_chain result) \<le> unat (fq_max_redirects request))"
proof (cases "validate_headers (fq_headers request)")
  case (Inl e) then show ?thesis using assms by (simp add: fetch_inner_def)
next
  case (Inr x)
  then have "fetch_spec api request 0 (fetch_inner api lk env request clients)"
    using fetch_loop_spec [OF assms, of "[]"] by (simp add: fetch_inner_def)
  moreover have "contact_safe api = (\<lambda>(u, client). validate_deep_url api u = Ok () \<and> url_host_str api u = Some (hc_host client) \<and>
      hc_addresses client \<noteq> [] \<and> list_all (\<lambda>(ip, _). is_public_ip ip) (hc_addresses client))"
    by (auto simp: contact_safe_def fun_eq_iff)
  ultimately show ?thesis by (auto simp: fetch_spec_def split: sum.splits prod.splits)
qed


text \<open>One redirect, then a page: numbered URLs on one host, whose address is public.\<close>

definition numbered_api :: "nat url_api" where
  "numbered_api = \<lparr> url_parse = (\<lambda>_. None), url_as_str = (\<lambda>_. []), url_scheme = (\<lambda>_. lit ''https''), url_username = (\<lambda>_. []),
     url_password = (\<lambda>_. None), url_host = (\<lambda>_. Some (Domain (lit ''example.com''))), url_host_str = (\<lambda>_. Some (lit ''example.com'')),
     url_query = (\<lambda>_. None), url_fragment = (\<lambda>_. None), url_set_query = (\<lambda>_ u. u), url_set_fragment = (\<lambda>_ u. u) \<rparr>"

definition numbered_links :: "nat link_api" where
  "numbered_links = \<lparr> lk_join = (\<lambda>u _. Some (Suc u)), lk_port_or_known_default = (\<lambda>_. Some 443) \<rparr>"

definition redirecting_env :: fetch_env where
  "redirecting_env = \<lparr> fe_hop = (\<lambda>i. \<lparr> he_resolve = Some (Inr [(IpV4 (V4 93 184 216 34), 443)]), he_builds = True,
       he_reply = Some (Inr \<lparr> hr_status = (if i = 0 then 301 else 200),
         hr_headers = (\<lambda>n. if n = lit ''location'' then Some [47] else None), hr_chunks = [Inr [104, 105]] \<rparr>) \<rparr>),
     fe_header_ok = (\<lambda>_. True), fe_retrieved_at = [] \<rparr>"

definition numbered_request :: "nat fetch_request" where
  "numbered_request = \<lparr> fq_url = 0, fq_timeout_ms = 1000, fq_max_bytes = 10, fq_max_redirects = 1, fq_headers = [], fq_request_id = None \<rparr>"

theorem fetch_contacts_safe_witness:
  "case fetch_inner numbered_api numbered_links redirecting_env numbered_request [] of (r, clients', contacts) \<Rightarrow>
     list_all (\<lambda>(u, client). list_all (\<lambda>(ip, _). is_public_ip ip) (hc_addresses client)) contacts \<and> map fst contacts = [0, 1] \<and>
     (case r of Ok result \<Rightarrow> fr_final_url result = 1 \<and> fr_body result = [104, 105] | Err _ \<Rightarrow> False)"
proof -
  have ok: "client_cache_ok []" by (simp add: client_cache_ok_def)
  obtain r clients' contacts where out: "fetch_inner numbered_api numbered_links redirecting_env numbered_request [] = (r, clients', contacts)"
    by (cases "fetch_inner numbered_api numbered_links redirecting_env numbered_request []") auto
  have "map fst contacts = [0, 1] \<and> (case r of Ok result \<Rightarrow> fr_final_url result = 1 \<and> fr_body result = [104, 105] | Err _ \<Rightarrow> False)"
    using out by (simp add: fetch_inner_def validate_headers_def fetch_loop.simps fetch_hop_def numbered_request_def numbered_api_def
        numbered_links_def redirecting_env_def validate_deep_url_def blocked_hostname_def blocked_suffixes_def validate_resolved_addresses_def
        client_for_def execute_pinned_def is_redirect_def validate_redirect_def Let_def rstr_simps) auto
  then show ?thesis using fetch_contacts_safe [OF ok, where api = numbered_api and lk = numbered_links and env = redirecting_env and request = numbered_request]
    by (auto simp: out list_all_iff)
qed

end
