(* ===== verification/Fragments.thy ===== *)
theory Fragments
  imports Prelude
begin

text \<open>
  The byte ranges of \<^verbatim>\<open>evidence.rs\<close>: a document's content is cut at line ends and then into trimmed pieces of at most
  512 bytes, preferably after a sentence. Positions are byte offsets, as in the source, and slicing a string
  inside a character is a panic, the value None; the theorems show that no slice panics.
\<close>

section \<open>Byte offsets\<close>

fun take_bytes :: "nat \<Rightarrow> rstr \<Rightarrow> rstr option" where
  "take_bytes n [] = (if n = 0 then Some [] else None)"
| "take_bytes n (c # s) =
     (if n = 0 then Some []
      else if len_utf8 c \<le> n then map_option (Cons c) (take_bytes (n - len_utf8 c) s) else None)"

definition is_char_boundary :: "rstr \<Rightarrow> nat \<Rightarrow> bool" where
  "is_char_boundary content index \<longleftrightarrow> take_bytes index content \<noteq> None"

text \<open>\<open>&content[start..end]\<close>.\<close>

definition str_slice :: "rstr \<Rightarrow> nat \<Rightarrow> nat \<Rightarrow> rstr option" where
  "str_slice content start limit =
     (if start \<le> limit
      then (case (take_bytes start content, take_bytes limit content) of
              (Some p, Some q) \<Rightarrow> Some (drop (length p) q) | _ \<Rightarrow> None)
      else None)"

section \<open>Trimming and splitting\<close>

definition EVIDENCE_V2_FRAGMENT_BYTES :: nat where "EVIDENCE_V2_FRAGMENT_BYTES = 512"

fun skip_front :: "nat \<Rightarrow> rstr \<Rightarrow> nat \<times> rstr" where
  "skip_front start [] = (start, [])"
| "skip_front start (c # s) = (if is_whitespace c then skip_front (start + len_utf8 c) s else (start, c # s))"

text \<open>The second loop of \<^verbatim>\<open>trim_range\<close>, on the reversed text.\<close>

fun skip_back :: "nat \<Rightarrow> rstr \<Rightarrow> nat" where
  "skip_back limit [] = limit"
| "skip_back limit (c # s) = (if is_whitespace c then skip_back (limit - len_utf8 c) s else limit)"

definition trim_range :: "rstr \<Rightarrow> nat \<Rightarrow> nat \<Rightarrow> (nat \<times> nat) option option" where
  "trim_range content start limit =
     (if \<not> start < limit then Some None
      else case str_slice content start limit of
          None \<Rightarrow> None
        | Some text \<Rightarrow>
            (case skip_front start text of (start, text) \<Rightarrow>
               let limit = skip_back limit (rev text)
               in Some (if start < limit then Some (start, limit) else None)))"

fun floor_char_boundary :: "rstr \<Rightarrow> nat \<Rightarrow> nat" where
  "floor_char_boundary content 0 = 0"
| "floor_char_boundary content (Suc index) =
     (if is_char_boundary content (Suc index) then Suc index else floor_char_boundary content index)"

fun scan_split :: "nat \<Rightarrow> nat \<Rightarrow> rstr \<Rightarrow> nat option \<Rightarrow> nat option \<Rightarrow> nat option \<times> nat option" where
  "scan_split minimum pos [] sentence whitespace = (sentence, whitespace)"
| "scan_split minimum pos (c # s) sentence whitespace =
     (let after = pos + len_utf8 c
      in if after < minimum then scan_split minimum after s sentence whitespace
         else if c = 46 \<or> c = 33 \<or> c = 63 then scan_split minimum after s (Some after) whitespace
         else if is_whitespace c then scan_split minimum after s sentence (Some after)
         else scan_split minimum after s sentence whitespace)"

definition preferred_split :: "rstr \<Rightarrow> nat \<Rightarrow> nat \<Rightarrow> nat option" where
  "preferred_split content start hard_end =
     (case str_slice content start hard_end of
        None \<Rightarrow> None
      | Some text \<Rightarrow>
          (case scan_split (start + (hard_end - start) div 2) start text None None of
             (Some sentence, _) \<Rightarrow> Some sentence
           | (None, Some whitespace) \<Rightarrow> Some whitespace
           | (None, None) \<Rightarrow> Some hard_end))"

function next_boundary :: "rstr \<Rightarrow> nat \<Rightarrow> nat \<Rightarrow> nat" where
  "next_boundary content limit cursor =
     (if cursor < limit \<and> \<not> is_char_boundary content cursor then next_boundary content limit (cursor + 1) else cursor)"
  by pat_completeness auto
termination by (relation "measure (\<lambda>(content, limit, cursor). limit - cursor)") auto

declare next_boundary.simps [simp del]

lemma next_boundary_ge: "cursor \<le> next_boundary content limit cursor"
  by (induction content limit cursor rule: next_boundary.induct) (subst next_boundary.simps, auto)

function split_loop :: "rstr \<Rightarrow> nat \<Rightarrow> nat \<Rightarrow> (nat \<times> nat) list option" where
  "split_loop content cursor limit =
     (if \<not> cursor < limit then Some []
      else let hard_end = floor_char_boundary content (min (cursor + EVIDENCE_V2_FRAGMENT_BYTES) limit)
           in case (if hard_end < limit then preferred_split content cursor hard_end else Some limit) of
                None \<Rightarrow> None
              | Some split \<Rightarrow>
                  (case trim_range content cursor split of
                     None \<Rightarrow> None
                   | Some trimmed \<Rightarrow>
                       map_option (\<lambda>ranges. (case trimmed of Some r \<Rightarrow> [r] | None \<Rightarrow> []) @ ranges)
                         (split_loop content (next_boundary content limit (max split (cursor + 1))) limit)))"
  by pat_completeness auto
termination
proof (relation "measure (\<lambda>(content, cursor, limit). limit - cursor)")
  fix content cursor limit split
  assume "\<not> \<not> cursor < (limit :: nat)"
  moreover have "cursor < next_boundary content limit (max split (cursor + 1))"
    using next_boundary_ge [of "max split (cursor + 1)" content limit] by linarith
  ultimately show "((content, next_boundary content limit (max split (cursor + 1)), limit), content, cursor, limit)
      \<in> measure (\<lambda>(content, cursor, limit). limit - cursor)" by simp
qed simp

declare split_loop.simps [simp del]

definition append_bounded_range :: "rstr \<Rightarrow> nat \<Rightarrow> nat \<Rightarrow> (nat \<times> nat) list option" where
  "append_bounded_range content start limit =
     (case trim_range content start limit of
        None \<Rightarrow> None
      | Some None \<Rightarrow> Some []
      | Some (Some (cursor, limit)) \<Rightarrow> split_loop content cursor limit)"

text \<open>The scan over \<^verbatim>\<open>char_indices\<close>: where the paragraph began, the index reached, the characters left.\<close>

fun paragraph_ranges :: "rstr \<Rightarrow> nat \<Rightarrow> nat \<Rightarrow> rstr \<Rightarrow> (nat \<times> nat) list option" where
  "paragraph_ranges content paragraph_start index [] = append_bounded_range content paragraph_start index"
| "paragraph_ranges content paragraph_start index (c # s) =
     (if c = 10
      then (case append_bounded_range content paragraph_start index of
              None \<Rightarrow> None
            | Some ranges \<Rightarrow> map_option (\<lambda>later. ranges @ later) (paragraph_ranges content (index + len_utf8 c) (index + len_utf8 c) s))
      else paragraph_ranges content paragraph_start (index + len_utf8 c) s)"

definition bounded_content_ranges :: "rstr \<Rightarrow> (nat \<times> nat) list option" where
  "bounded_content_ranges content = paragraph_ranges content 0 0 content"

section \<open>Slices never panic\<close>

lemma take_bytes_iff: "take_bytes n s = Some p \<longleftrightarrow> (\<exists>t. s = p @ t \<and> byte_len p = n)"
proof (induction n s arbitrary: p rule: take_bytes.induct)
  case (2 n c s)
  show ?case
  proof (cases "n = 0")
    case True
    then show ?thesis using len_utf8_pos by (cases p) auto
  next
    case False
    show ?thesis
    proof (cases p)
      case Nil
      then show ?thesis using False by simp
    next
      case (Cons d q)
      have "take_bytes n (c # s) = Some p \<longleftrightarrow> len_utf8 c \<le> n \<and> d = c \<and> take_bytes (n - len_utf8 c) s = Some q"
        using False Cons by auto
      also have "\<dots> \<longleftrightarrow> len_utf8 c \<le> n \<and> d = c \<and> (\<exists>t. s = q @ t \<and> byte_len q = n - len_utf8 c)"
        using "2.IH" [OF False] by (cases "len_utf8 c \<le> n") simp_all
      also have "\<dots> \<longleftrightarrow> (\<exists>t. c # s = p @ t \<and> byte_len p = n)" using Cons by auto
      finally show ?thesis .
    qed
  qed
qed auto

lemma is_char_boundary_iff: "is_char_boundary s n \<longleftrightarrow> (\<exists>p t. s = p @ t \<and> byte_len p = n)"
  using take_bytes_iff by (auto simp: is_char_boundary_def)

lemma str_slice_iff:
  "str_slice s a b = Some t \<longleftrightarrow> (\<exists>p r. s = p @ t @ r \<and> byte_len p = a \<and> a + byte_len t = b)"
proof
  assume "str_slice s a b = Some t"
  then obtain p q where pq: "a \<le> b" "take_bytes a s = Some p" "take_bytes b s = Some q" "t = drop (length p) q"
    by (auto simp: str_slice_def split: if_splits option.splits)
  obtain u where u: "s = p @ u" "byte_len p = a" using pq(2) take_bytes_iff by blast
  obtain v where v: "s = q @ v" "byte_len q = b" using pq(3) take_bytes_iff by blast
  have "length p \<le> length q"
  proof (rule ccontr)
    assume "\<not> length p \<le> length q"
    then obtain us where us: "p = q @ us" using u(1) v(1) by (metis append_eq_append_conv_if nle_le append_take_drop_id)
    then have "byte_len us = 0" using u(2) v(2) pq(1) by simp
    then show False using us byte_len_ge_length [of us] \<open>\<not> length p \<le> length q\<close> by simp
  qed
  then have q: "q = p @ t" using u(1) v(1) pq(4) by (metis append_eq_append_conv_if append_take_drop_id)
  have "s = p @ t @ v" "a + byte_len t = b" using q u(2) v by simp_all
  then show "\<exists>p r. s = p @ t @ r \<and> byte_len p = a \<and> a + byte_len t = b" using u(2) by blast
next
  assume "\<exists>p r. s = p @ t @ r \<and> byte_len p = a \<and> a + byte_len t = b"
  then obtain p r where s: "s = p @ t @ r" "byte_len p = a" "a + byte_len t = b" by blast
  have "take_bytes a s = Some p" using take_bytes_iff s by blast
  moreover have "take_bytes b s = Some (p @ t)" using take_bytes_iff [of b s "p @ t"] s by auto
  ultimately show "str_slice s a b = Some t" using s by (simp add: str_slice_def)
qed


lemma boundary_0 [simp]: "is_char_boundary s 0"
  by (cases s) (simp_all add: is_char_boundary_def)

lemma slice_boundaries: "str_slice s a b = Some t \<Longrightarrow> is_char_boundary s a \<and> is_char_boundary s b \<and> b = a + byte_len t"
proof -
  assume "str_slice s a b = Some t"
  then obtain p r where s: "s = p @ t @ r" "byte_len p = a" "a + byte_len t = b" by (auto simp: str_slice_iff)
  have "is_char_boundary s a" using s is_char_boundary_iff by blast
  moreover have "s = (p @ t) @ r" "byte_len (p @ t) = b" using s by simp_all
  then have "is_char_boundary s b" using is_char_boundary_iff by blast
  ultimately show ?thesis using s by simp
qed

lemma boundary_slice:
  assumes "is_char_boundary s a" "is_char_boundary s b" "a \<le> b"
  obtains t where "str_slice s a b = Some t"
  using assms by (auto simp: str_slice_def is_char_boundary_def)

lemma slice_part: "str_slice s a b = Some (u @ v @ w) \<Longrightarrow> str_slice s (a + byte_len u) (a + byte_len u + byte_len v) = Some v"
proof -
  assume "str_slice s a b = Some (u @ v @ w)"
  then obtain p r where "s = p @ (u @ v @ w) @ r" "byte_len p = a" by (auto simp: str_slice_iff)
  then have "s = (p @ u) @ v @ (w @ r)" "byte_len (p @ u) = a + byte_len u" by simp_all
  then show ?thesis unfolding str_slice_iff by blast
qed

section \<open>Trimming\<close>

lemma byte_len_rev [simp]: "byte_len (rev s) = byte_len s"
  by (induction s) simp_all

lemma skip_front_split: "\<exists>u v. s = u @ v \<and> skip_front start s = (start + byte_len u, v)"
proof (induction start s rule: skip_front.induct)
  case (2 start c s)
  show ?case
  proof (cases "is_whitespace c")
    case True
    then obtain u v where "s = u @ v" "skip_front (start + len_utf8 c) s = (start + len_utf8 c + byte_len u, v)" using 2 by blast
    then have "c # s = (c # u) @ v \<and> skip_front start (c # s) = (start + byte_len (c # u), v)" using True by simp
    then show ?thesis by blast
  next
    case False
    then have "c # s = [] @ (c # s) \<and> skip_front start (c # s) = (start + byte_len [], c # s)" by simp
    then show ?thesis by blast
  qed
qed simp

lemma skip_back_split: "\<exists>z w. s = z @ w \<and> skip_back limit s = limit - byte_len z"
proof (induction limit s rule: skip_back.induct)
  case (2 limit c s)
  show ?case
  proof (cases "is_whitespace c")
    case True
    then obtain z w where "s = z @ w" "skip_back (limit - len_utf8 c) s = limit - len_utf8 c - byte_len z" using 2 by blast
    then have "c # s = (c # z) @ w \<and> skip_back limit (c # s) = limit - byte_len (c # z)" using True by simp
    then show ?thesis by blast
  next
    case False
    then have "c # s = [] @ (c # s) \<and> skip_back limit (c # s) = limit - byte_len []" by simp
    then show ?thesis by blast
  qed
qed simp

lemma trim_range_cases:
  assumes "is_char_boundary content a" "is_char_boundary content b"
  obtains "trim_range content a b = Some None"
  | x y t where "trim_range content a b = Some (Some (x, y))" "a \<le> x" "x < y" "y \<le> b" "str_slice content x y = Some t"
proof (cases "a < b")
  case False then show thesis using that(1) by (simp add: trim_range_def)
next
  case True
  obtain s where s: "str_slice content a b = Some s" using assms True by (metis boundary_slice less_imp_le)
  obtain u v where u: "s = u @ v" "skip_front a s = (a + byte_len u, v)" using skip_front_split by blast
  obtain z w where z: "rev v = z @ w" "skip_back b (rev v) = b - byte_len z" using skip_back_split by blast
  have v: "v = rev w @ rev z" using z(1) by (metis rev_append rev_rev_ident)
  have b: "b = a + byte_len u + byte_len w + byte_len z" using slice_boundaries [OF s] u(1) v by simp
  have slice: "str_slice content (a + byte_len u) (a + byte_len u + byte_len w) = Some (rev w)"
    using slice_part [of content a b u "rev w" "rev z"] s u(1) v by simp
  have trim: "trim_range content a b =
      Some (if a + byte_len u < b - byte_len z then Some (a + byte_len u, b - byte_len z) else None)"
    using True s u(2) z(2) by (simp add: trim_range_def Let_def)
  show thesis
  proof (cases "a + byte_len u < b - byte_len z")
    case True
    then show thesis using that(2) [of "a + byte_len u" "b - byte_len z" "rev w"] trim slice b by simp
  next
    case False then show thesis using that(1) trim by simp
  qed
qed

section \<open>Cutting\<close>

lemma floor_char_boundary_spec:
  "is_char_boundary s (floor_char_boundary s n) \<and> floor_char_boundary s n \<le> n \<and>
   (\<forall>m\<le>n. is_char_boundary s m \<longrightarrow> m \<le> floor_char_boundary s n)"
  by (induction n) (auto simp: le_Suc_eq)

lemma scan_split_spec:
  assumes "scan_split minimum pos s sentence whitespace = (sentence', whitespace')"
  shows "(sentence' = Some x \<longrightarrow> sentence = Some x \<or> (\<exists>u v. s = u @ v \<and> u \<noteq> [] \<and> x = pos + byte_len u)) \<and>
         (whitespace' = Some x \<longrightarrow> whitespace = Some x \<or> (\<exists>u v. s = u @ v \<and> u \<noteq> [] \<and> x = pos + byte_len u))"
  using assms
proof (induction minimum pos s sentence whitespace rule: scan_split.induct)
  case (2 minimum pos c s sentence whitespace)
  let ?prefix = "\<lambda>x. \<exists>u v. c # s = u @ v \<and> u \<noteq> [] \<and> x = pos + byte_len u"
  have longer: "?prefix x" if "\<exists>u v. s = u @ v \<and> u \<noteq> [] \<and> x = pos + len_utf8 c + byte_len u"
    using that by (metis append_Cons byte_len_simps(2) group_cancel.add1 list.distinct(1) add.assoc)
  have here: "?prefix (pos + len_utf8 c)" by (intro exI [of _ "[c]"] exI [of _ s]) simp
  show ?case
    using 2 longer here by (simp add: Let_def split: if_splits) (metis option.inject)+
qed simp

lemma preferred_split_spec:
  assumes "is_char_boundary content a" "is_char_boundary content h" "a < h"
  obtains k where "preferred_split content a h = Some k" "a < k" "k \<le> h" "is_char_boundary content k"
proof -
  obtain s where s: "str_slice content a h = Some s" using assms by (metis boundary_slice less_imp_le)
  have h: "h = a + byte_len s" using slice_boundaries [OF s] by simp
  obtain se wh where scan: "scan_split (a + (h - a) div 2) a s None None = (se, wh)" by fastforce
  have ok: "a < x \<and> x \<le> h \<and> is_char_boundary content x" if hyp: "se = Some x \<or> wh = Some x" for x
  proof -
    obtain u v where "s = u @ v" "u \<noteq> []" "x = a + byte_len u" using scan_split_spec [OF scan, of x] hyp by auto
    moreover have "0 < byte_len u" using \<open>u \<noteq> []\<close> byte_len_ge_length [of u] by (metis gr0I le_0_eq length_0_conv)
    moreover have "is_char_boundary content (a + byte_len u)"
    proof -
      have "str_slice content a (a + byte_len u) = Some u"
        using slice_part [of content a h "[]" u v] s calculation(1) by simp
      then show ?thesis using slice_boundaries by blast
    qed
    ultimately show ?thesis using h by simp
  qed
  show thesis
    using that ok assms s scan by (cases se; cases wh) (auto simp: preferred_split_def)
qed

definition ranges_ok :: "rstr \<Rightarrow> nat \<Rightarrow> nat \<Rightarrow> (nat \<times> nat) list \<Rightarrow> bool" where
  "ranges_ok content lo hi ranges \<longleftrightarrow>
     list_all (\<lambda>(a, e). lo \<le> a \<and> a < e \<and> e \<le> hi \<and> e \<le> a + 512 \<and> str_slice content a e \<noteq> None) ranges \<and>
     sorted_wrt (\<lambda>x y. snd x \<le> fst y) ranges"

lemma ranges_ok_append:
  assumes "ranges_ok content lo mid xs" "ranges_ok content mid' hi ys" "mid \<le> mid'" "lo \<le> mid'" "mid \<le> hi"
  shows "ranges_ok content lo hi (xs @ ys)"
  using assms by (fastforce simp: ranges_ok_def list_all_iff sorted_wrt_append)

lemma ranges_ok_mono: "ranges_ok content lo hi xs \<Longrightarrow> lo' \<le> lo \<Longrightarrow> hi \<le> hi' \<Longrightarrow> ranges_ok content lo' hi' xs"
  by (fastforce simp: ranges_ok_def list_all_iff)


lemma cut_position:
  assumes "is_char_boundary content cursor" "is_char_boundary content limit" "cursor < limit"
  defines "hard_end \<equiv> floor_char_boundary content (min (cursor + EVIDENCE_V2_FRAGMENT_BYTES) limit)"
  obtains k where "(if hard_end < limit then preferred_split content cursor hard_end else Some limit) = Some k"
    "cursor < k" "k \<le> limit" "k \<le> cursor + 512" "is_char_boundary content k"
proof -
  note floor = floor_char_boundary_spec [of content "min (cursor + EVIDENCE_V2_FRAGMENT_BYTES) limit", folded hard_end_def]
  obtain s where s: "str_slice content cursor limit = Some s" using assms(1-3) by (metis boundary_slice less_imp_le)
  then have "s \<noteq> []" using slice_boundaries [OF s] assms(3) by auto
  then obtain c s' where cs: "s = [c] @ s'" by (metis append_Cons append_Nil neq_Nil_conv)
  have "is_char_boundary content (cursor + len_utf8 c)"
    using slice_boundaries [OF slice_part [of content cursor limit "[]" "[c]" s']] s cs by simp
  moreover have "len_utf8 c \<le> 512" by (simp add: len_utf8_def)
  moreover have "cursor + len_utf8 c \<le> limit" using slice_boundaries [OF s] cs by simp
  ultimately have "cursor + len_utf8 c \<le> hard_end" using floor by (simp add: EVIDENCE_V2_FRAGMENT_BYTES_def)
  then have less: "cursor < hard_end" using len_utf8_pos [of c] by linarith
  have le: "hard_end \<le> limit" "hard_end \<le> cursor + 512" using floor by (auto simp: EVIDENCE_V2_FRAGMENT_BYTES_def)
  show thesis
  proof (cases "hard_end < limit")
    case True
    obtain k where "preferred_split content cursor hard_end = Some k" "cursor < k" "k \<le> hard_end" "is_char_boundary content k"
      using preferred_split_spec [OF assms(1) _ less] floor by blast
    then show thesis using that [of k] True le by simp
  next
    case False
    then show thesis using that [of limit] le assms(2,3) by simp
  qed
qed

lemma split_loop_ok:
  assumes "is_char_boundary content cursor" "is_char_boundary content limit"
  shows "\<exists>ranges. split_loop content cursor limit = Some ranges \<and> ranges_ok content cursor limit ranges"
  using assms
proof (induction content cursor limit rule: split_loop.induct)
  case (1 content cursor limit)
  show ?case
  proof (cases "cursor < limit")
    case False
    then show ?thesis by (simp add: split_loop.simps ranges_ok_def)
  next
    case True
    let ?h = "floor_char_boundary content (min (cursor + EVIDENCE_V2_FRAGMENT_BYTES) limit)"
    obtain k where k: "(if ?h < limit then preferred_split content cursor ?h else Some limit) = Some k"
      "cursor < k" "k \<le> limit" "k \<le> cursor + 512" "is_char_boundary content k"
      by (rule cut_position [OF "1.prems" True])
    have "max k (cursor + 1) = k" using k(2) by simp
    then have boundary: "next_boundary content limit (max k (cursor + 1)) = k"
      using k(5) next_boundary.simps [of content limit k] by simp
    obtain trimmed where trimmed: "trim_range content cursor k = Some trimmed"
      "ranges_ok content cursor k (case trimmed of Some r \<Rightarrow> [r] | None \<Rightarrow> [])"
    proof (rule trim_range_cases [OF "1.prems"(1) k(5)])
      assume "trim_range content cursor k = Some None"
      then show thesis using that [of None] by (simp add: ranges_ok_def)
    next
      fix x y t assume "trim_range content cursor k = Some (Some (x, y))" "cursor \<le> x" "x < y" "y \<le> k" "str_slice content x y = Some t"
      then show thesis using that [of "Some (x, y)"] k(4) by (simp add: ranges_ok_def)
    qed
    obtain later where later: "split_loop content k limit = Some later" "ranges_ok content k limit later"
      using "1.IH" [OF _ refl k(1) trimmed(1)] True k(5) "1.prems"(2) boundary by auto
    have "split_loop content cursor limit = Some ((case trimmed of Some r \<Rightarrow> [r] | None \<Rightarrow> []) @ later)"
      unfolding split_loop.simps [of content cursor limit] Let_def k(1) using True trimmed(1) later(1) boundary by simp
    moreover have "ranges_ok content cursor limit ((case trimmed of Some r \<Rightarrow> [r] | None \<Rightarrow> []) @ later)"
      using ranges_ok_append [OF trimmed(2) later(2)] k by simp
    ultimately show ?thesis by blast
  qed
qed

lemma append_bounded_range_ok:
  assumes "is_char_boundary content a" "is_char_boundary content b"
  shows "\<exists>ranges. append_bounded_range content a b = Some ranges \<and> ranges_ok content a b ranges"
proof (rule trim_range_cases [OF assms])
  assume "trim_range content a b = Some None"
  then show ?thesis by (simp add: append_bounded_range_def ranges_ok_def)
next
  fix x y t assume trim: "trim_range content a b = Some (Some (x, y))" "a \<le> x" "x < y" "y \<le> b" "str_slice content x y = Some t"
  then obtain ranges where "split_loop content x y = Some ranges" "ranges_ok content x y ranges"
    using split_loop_ok slice_boundaries by metis
  then show ?thesis using trim ranges_ok_mono by (fastforce simp: append_bounded_range_def)
qed

lemma paragraph_ranges_ok:
  assumes "content = done @ s" "index = byte_len done" "is_char_boundary content start" "start \<le> index"
  shows "\<exists>ranges. paragraph_ranges content start index s = Some ranges \<and> ranges_ok content start (byte_len content) ranges"
  using assms
proof (induction content start index s arbitrary: "done" rule: paragraph_ranges.induct)
  case (1 content start index)
  then have "is_char_boundary content index" using is_char_boundary_iff by auto
  then show ?case using append_bounded_range_ok 1 by auto
next
  case (2 content start index c s)
  have content: "content = (done @ [c]) @ s" "index + len_utf8 c = byte_len (done @ [c])" using "2.prems" by simp_all
  then have after: "is_char_boundary content (index + len_utf8 c)" using is_char_boundary_iff by metis
  show ?case
  proof (cases "c = 10")
    case False
    then show ?thesis using "2.IH"(2) [OF False content] "2.prems"(3,4) by simp
  next
    case True
    have "is_char_boundary content index" using "2.prems" is_char_boundary_iff by blast
    then obtain xs where xs: "append_bounded_range content start index = Some xs" "ranges_ok content start index xs"
      using append_bounded_range_ok "2.prems"(3) by blast
    obtain ys where ys: "paragraph_ranges content (index + len_utf8 c) (index + len_utf8 c) s = Some ys"
      "ranges_ok content (index + len_utf8 c) (byte_len content) ys"
      using "2.IH"(1) [OF True xs(1) content after] by auto
    have "ranges_ok content start (byte_len content) (xs @ ys)"
      by (rule ranges_ok_append [OF xs(2) ys(2)]) (use "2.prems" in simp_all)
    then show ?thesis using True xs(1) ys(1) by simp
  qed
qed

lemma bounded_content_ranges_ok:
  obtains ranges where "bounded_content_ranges content = Some ranges" "ranges_ok content 0 (byte_len content) ranges"
  using paragraph_ranges_ok [of content "[]" content 0 0] unfolding bounded_content_ranges_def by auto

end
