(* ===== verification/Evidence.thy ===== *)
theory Evidence
  imports Fragments Document_Model Text Normalize Ranking Optics
begin

text \<open>
  Evidence analysis, \<^verbatim>\<open>evidence.rs\<close>: the scores of a document and the fragments that support them. The SHA-256 digest,
  \<^verbatim>\<open>powf\<close>, the Unicode tables and the time crate are parameters. Indexing a map at an absent key and slicing
  inside a character panic, the value None.
\<close>

section \<open>Data\<close>

datatype EvidenceStatus = Ev_Complete | Ev_Partial

record evidence =
  ev_schema_version :: rstr
  ev_document_id :: rstr
  ev_status :: EvidenceStatus
  ev_fact_density :: score
  ev_verified_date :: bool
  ev_metadata_quality :: score
  ev_named_entities :: "rstr list"
  ev_citation_count :: u32
  ev_citation_span :: score
  ev_freshness :: score
  ev_originality :: score
  ev_evidence_score :: score

datatype EvidenceSignal = QueryMatch | Citation | Temporal | Numeric

record evidence_provenance =
  ep_schema_version :: rstr
  ep_provenance_id :: rstr
  ep_document_id :: rstr
  ep_original_url :: url
  ep_canonical_url :: url
  ep_final_url :: url
  ep_source_content_hash :: rstr
  ep_extracted_content_hash :: "rstr option"
  ep_fetch_method :: FetchMethod
  ep_extractor_used :: "rstr option"
  ep_retrieved_at :: rstr
  ep_published_at :: "rstr option"

record evidence_fragment =
  ef_schema_version :: rstr
  ef_fragment_id :: rstr
  ef_provenance_id :: rstr
  ef_ordinal :: u32
  ef_text :: rstr
  ef_start_byte :: u64
  ef_end_byte :: u64
  ef_fragment_hash :: rstr
  ef_matched_terms :: "rstr list"
  ef_signals :: "EvidenceSignal list"

record evidence_score_basis =
  eb_schema_version :: rstr
  eb_fact_density :: score
  eb_verified_date :: bool
  eb_metadata_quality :: score
  eb_citation_count :: u32
  eb_citation_span :: score
  eb_freshness :: score
  eb_originality :: score

record evidence_v2 =
  e2_schema_version :: rstr
  e2_evidence_version :: rstr
  e2_document_id :: rstr
  e2_status :: EvidenceStatus
  e2_provenance :: evidence_provenance
  e2_fragments :: "evidence_fragment list"
  e2_score_basis :: evidence_score_basis
  e2_evidence_score :: score

text \<open>What the analysis takes from outside: the digest, the Unicode tables, \<^verbatim>\<open>powf\<close> and the time crate with its order of instants.\<close>

record 't evidence_api =
  ea_hex_digest :: "nat list \<Rightarrow> rstr"
  ea_unicode :: unicode
  ea_powf :: "f64 \<Rightarrow> f64 \<Rightarrow> f64"
  ea_time :: "'t time_api"
  ea_time_le :: "'t \<Rightarrow> 't \<Rightarrow> bool"

definition EVIDENCE_V2_VERSION :: rstr where "EVIDENCE_V2_VERSION = lit ''v2''"
definition EVIDENCE_V2_MAX_FRAGMENTS :: nat where "EVIDENCE_V2_MAX_FRAGMENTS = 8"

section \<open>Scores\<close>

text \<open>\<^verbatim>\<open>match_indices(pattern).count()\<close>: non-overlapping occurrences from the left.\<close>

function count_occurrences :: "rstr \<Rightarrow> rstr \<Rightarrow> nat" where
  "count_occurrences v p =
     (if p = [] then Suc (length v)
      else case split_once_str p v of None \<Rightarrow> 0 | Some (_, after) \<Rightarrow> Suc (count_occurrences after p))"
  by pat_completeness auto
termination
proof (relation "measure (\<lambda>(v, p). length v)")
  fix v p :: rstr and x a b
  assume "p \<noteq> []" "split_once_str p v = Some x" "(a, b) = x"
  then have "v = a @ p @ b" by (auto dest: split_once_str_Some)
  then show "((b, p), v, p) \<in> measure (\<lambda>(v, p). length v)" using \<open>p \<noteq> []\<close> by simp
qed simp

declare count_occurrences.simps [simp del]

definition f64_of_bool :: "bool \<Rightarrow> f64" where "f64_of_bool b = (if b then Fin 1 else Fin 0)"

definition analyze_document :: "'t evidence_api \<Rightarrow> document \<Rightarrow> u32 \<Rightarrow> evidence" where
  "analyze_document ea d duplicate_count =
     (let content = (case dc_content d of Some c \<Rightarrow> c | None \<Rightarrow> []);
          token_count = f64_of_nat (max (length (tokens (ea_unicode ea) content)) 1);
          numeric = f64_of_nat (length (filter (\<lambda>token. list_ex is_ascii_digit token) (split_whitespace content)));
          fact_density = f64_clamp (f64_mul (f64_div numeric token_count) (Fin 12)) (Fin 0) (Fin 1);
          citation_count = (of_nat (count_occurrences content (lit ''http://'') + count_occurrences content (lit ''https://'')) :: u32);
          citation_span = f64_min (f64_div (f64_of_nat (unat citation_count)) (f64_max (f64_div token_count (Fin 100)) (Fin 1))) (Fin 1);
          metadata_fields = [dc_title d \<noteq> None, dc_author d \<noteq> None, dc_published_at d \<noteq> None, dc_content_type d \<noteq> None,
            dc_extractor_used d \<noteq> None, dc_content d \<noteq> None];
          metadata_quality = f64_div (f64_of_nat (length (filter id metadata_fields))) (f64_of_nat (length metadata_fields));
          published = Option.bind (dc_published_at d) (tm_parse_rfc3339 (ea_time ea));
          retrieved = tm_parse_rfc3339 (ea_time ea) (dc_retrieved_at d);
          verified_date = (case (published, retrieved) of (Some p, Some r) \<Rightarrow> ea_time_le ea p r | _ \<Rightarrow> False);
          freshness = (case (published, retrieved) of
              (Some p, Some r) \<Rightarrow>
                (let age_days = f64_div (f64_of_int (max 0 (tm_whole_seconds_between (ea_time ea) r p))) (Fin 86400)
                 in ea_powf ea (Fin 2) (f64_div (f64_uminus age_days) (Fin 180)))
            | _ \<Rightarrow> Fin 0);
          originality = f64_div (Fin 1) (f64_of_nat (unat (max duplicate_count 1)));
          evidence_score = f64_clamp
            (f64_add (f64_add (f64_add (f64_add (f64_add
               (f64_mul (f64_lit 25 100) fact_density)
               (f64_mul (f64_lit 25 100) metadata_quality))
               (f64_mul (f64_lit 15 100) (f64_of_bool verified_date)))
               (f64_mul (f64_lit 15 100) citation_span))
               (f64_mul (f64_lit 10 100) freshness))
               (f64_mul (f64_lit 10 100) originality)) (Fin 0) (Fin 1)
      in \<lparr> ev_schema_version = SCHEMA_VERSION, ev_document_id = dc_search_result_id d,
           ev_status = (if dc_status d = Enriched then Ev_Complete else Ev_Partial),
           ev_fact_density = bounded fact_density, ev_verified_date = verified_date, ev_metadata_quality = bounded metadata_quality,
           ev_named_entities = [], ev_citation_count = citation_count, ev_citation_span = bounded citation_span,
           ev_freshness = bounded freshness, ev_originality = bounded originality, ev_evidence_score = bounded evidence_score \<rparr>)"

definition content_occurrences :: "document list \<Rightarrow> (rstr, u32) btree_map" where
  "content_occurrences documents = foldl (\<lambda>counts d. bt_entry (dc_content_hash d) 0 (\<lambda>n. n + 1) counts) bt_empty documents"

definition analyze_evidence :: "'t evidence_api \<Rightarrow> document list \<Rightarrow> evidence list option" where
  "analyze_evidence ea documents =
     map_panic (\<lambda>d. map_option (analyze_document ea d) (bt_get (content_occurrences documents) (dc_content_hash d))) documents"

section \<open>Fragments\<close>

definition contains_citation :: "rstr \<Rightarrow> bool" where
  "contains_citation v =
     (let v = to_ascii_lowercase v in contains_str v (lit ''http://'') \<or> contains_str v (lit ''https://''))"

definition iso_shaped :: "nat list \<Rightarrow> bool" where
  "iso_shaped w \<longleftrightarrow> length w = 10 \<and> list_all is_ascii_digit (take 4 w) \<and> w ! 4 = 45 \<and> list_all is_ascii_digit (take 2 (drop 5 w)) \<and>
     w ! 7 = 45 \<and> list_all is_ascii_digit (take 2 (drop 8 w))"

fun some_window :: "nat list \<Rightarrow> bool" where
  "some_window [] = False"
| "some_window (b # bs) = (iso_shaped (take 10 (b # bs)) \<or> some_window bs)"

definition contains_iso_shaped_date :: "rstr \<Rightarrow> bool" where
  "contains_iso_shaped_date v = some_window (as_bytes v)"

record fragment_candidate =
  fc_start :: nat
  fc_end :: nat
  fc_priority :: nat
  fc_matched_terms :: "rstr list"
  fc_signals :: "EvidenceSignal list"

definition fragment_candidate_of :: "unicode \<Rightarrow> rstr \<Rightarrow> rstr btree_set \<Rightarrow> nat \<times> nat \<Rightarrow> fragment_candidate option" where
  "fragment_candidate_of uc content query_tokens r =
     (case str_slice content (fst r) (snd r) of
        None \<Rightarrow> None
      | Some text \<Rightarrow>
          (let fragment_tokens = tokens uc text;
               matched_terms = filter (\<lambda>t. t \<in> set fragment_tokens) query_tokens;
               citation = contains_citation text;
               temporal = contains_iso_shaped_date text;
               numeric = list_ex is_ascii_digit (as_bytes text)
           in Some \<lparr> fc_start = fst r, fc_end = snd r,
                fc_priority = length matched_terms * 16 + (if citation then 8 else 0) + (if temporal then 4 else 0)
                  + (if numeric then 2 else 0) + min (length fragment_tokens) 50 div 10,
                fc_matched_terms = matched_terms,
                fc_signals = (if matched_terms \<noteq> [] then [QueryMatch] else []) @ (if citation then [Citation] else [])
                  @ (if temporal then [Temporal] else []) @ (if numeric then [Numeric] else []) \<rparr>))"

definition candidate_cmp :: "fragment_candidate \<Rightarrow> fragment_candidate \<Rightarrow> ordering" where
  "candidate_cmp left right =
     then_with (ord_cmp (fc_priority right) (fc_priority left)) (ord_cmp (fc_start left) (fc_start right))"

text \<open>\<^verbatim>\<open>{}\<close> of a \<^verbatim>\<open>usize\<close>.\<close>

function decimal :: "nat \<Rightarrow> rstr" where
  "decimal n = (if n < 10 then [48 + n] else decimal (n div 10) @ [48 + n mod 10])"
  by pat_completeness auto
termination by (relation "measure id") auto

declare decimal.simps [simp del]

definition fragment_of :: "(nat list \<Rightarrow> rstr) \<Rightarrow> rstr \<Rightarrow> rstr \<Rightarrow> nat \<times> fragment_candidate \<Rightarrow> evidence_fragment option" where
  "fragment_of hex_digest content provenance_id entry =
     (case entry of (index, candidate) \<Rightarrow>
        (case str_slice content (fc_start candidate) (fc_end candidate) of
           None \<Rightarrow> None
         | Some text \<Rightarrow>
             (let fragment_hash = hex_digest (as_bytes text);
                  identity = lit ''evidence-fragment-v2'' @ [0] @ provenance_id @ [0] @ decimal (fc_start candidate) @ [0]
                    @ decimal (fc_end candidate) @ [0] @ fragment_hash
              in Some \<lparr> ef_schema_version = SCHEMA_VERSION, ef_fragment_id = hex_digest (as_bytes identity),
                   ef_provenance_id = provenance_id, ef_ordinal = sat32 (index + 1), ef_text = text,
                   ef_start_byte = of_nat (fc_start candidate), ef_end_byte = of_nat (fc_end candidate),
                   ef_fragment_hash = fragment_hash, ef_matched_terms = fc_matched_terms candidate, ef_signals = fc_signals candidate \<rparr>)))"

definition selected_candidates :: "fragment_candidate list \<Rightarrow> fragment_candidate list" where
  "selected_candidates candidates = sort_key fc_start (take EVIDENCE_V2_MAX_FRAGMENTS (sort_by candidate_cmp candidates))"

definition evidence_fragments ::
    "'t evidence_api \<Rightarrow> rstr \<Rightarrow> rstr btree_set \<Rightarrow> rstr \<Rightarrow> evidence_fragment list option" where
  "evidence_fragments ea content query_tokens provenance_id =
     (case bounded_content_ranges content of
        None \<Rightarrow> None
      | Some ranges \<Rightarrow>
          (case map_panic (fragment_candidate_of (ea_unicode ea) content query_tokens) ranges of
             None \<Rightarrow> None
           | Some candidates \<Rightarrow>
               map_panic (fragment_of (ea_hex_digest ea) content provenance_id) (enumerate 0 (selected_candidates candidates))))"

section \<open>Evidence version 2\<close>

fun fetch_method_str :: "FetchMethod \<Rightarrow> string" where
  "fetch_method_str Http = ''http''"
| "fetch_method_str Rendered = ''rendered''"
| "fetch_method_str Local = ''local''"

definition str_or_empty :: "rstr option \<Rightarrow> rstr" where
  "str_or_empty s = (case s of None \<Rightarrow> [] | Some v \<Rightarrow> v)"

definition provenance_id :: "(nat list \<Rightarrow> rstr) \<Rightarrow> document \<Rightarrow> rstr option \<Rightarrow> rstr" where
  "provenance_id hex_digest d extracted_content_hash =
     hex_digest (as_bytes (lit ''evidence-provenance-v2'' @ concat (map (\<lambda>part. [0] @ part)
       [dc_search_result_id d, dc_original_url d, dc_canonical_url d, dc_final_url d, dc_content_hash d,
        str_or_empty extracted_content_hash, lit (fetch_method_str (dc_fetch_method d)), str_or_empty (dc_extractor_used d),
        dc_retrieved_at d, str_or_empty (dc_published_at d)])))"

definition evidence_v2_of :: "'t evidence_api \<Rightarrow> rstr btree_set \<Rightarrow> document \<times> evidence \<Rightarrow> evidence_v2 option" where
  "evidence_v2_of ea query_tokens entry =
     (case entry of (d, baseline) \<Rightarrow>
        (let extracted = map_option (\<lambda>c. ea_hex_digest ea (as_bytes c)) (dc_content d);
             pid = provenance_id (ea_hex_digest ea) d extracted
         in map_option (\<lambda>fragments.
              \<lparr> e2_schema_version = SCHEMA_VERSION, e2_evidence_version = EVIDENCE_V2_VERSION, e2_document_id = dc_search_result_id d,
                e2_status = ev_status baseline,
                e2_provenance = \<lparr> ep_schema_version = SCHEMA_VERSION, ep_provenance_id = pid, ep_document_id = dc_search_result_id d,
                  ep_original_url = dc_original_url d, ep_canonical_url = dc_canonical_url d, ep_final_url = dc_final_url d,
                  ep_source_content_hash = dc_content_hash d, ep_extracted_content_hash = extracted,
                  ep_fetch_method = dc_fetch_method d, ep_extractor_used = dc_extractor_used d, ep_retrieved_at = dc_retrieved_at d,
                  ep_published_at = dc_published_at d \<rparr>,
                e2_fragments = fragments,
                e2_score_basis = \<lparr> eb_schema_version = SCHEMA_VERSION, eb_fact_density = ev_fact_density baseline,
                  eb_verified_date = ev_verified_date baseline, eb_metadata_quality = ev_metadata_quality baseline,
                  eb_citation_count = ev_citation_count baseline, eb_citation_span = ev_citation_span baseline,
                  eb_freshness = ev_freshness baseline, eb_originality = ev_originality baseline \<rparr>,
                e2_evidence_score = ev_evidence_score baseline \<rparr>)
            (case dc_content d of None \<Rightarrow> Some [] | Some content \<Rightarrow> evidence_fragments ea content query_tokens pid)))"

definition build_evidence_v2 :: "'t evidence_api \<Rightarrow> query option \<Rightarrow> document list \<Rightarrow> evidence list \<Rightarrow> evidence_v2 list option" where
  "build_evidence_v2 ea q documents evidence =
     (let query_tokens = (case q of None \<Rightarrow> [] | Some q \<Rightarrow> tokens (ea_unicode ea) (q_normalized_query q))
      in map_panic (evidence_v2_of ea query_tokens) (zip documents evidence))"

definition analyze_evidence_v2 :: "'t evidence_api \<Rightarrow> query \<Rightarrow> document list \<Rightarrow> evidence_v2 list option" where
  "analyze_evidence_v2 ea q documents = Option.bind (analyze_evidence ea documents) (build_evidence_v2 ea (Some q) documents)"

definition analyze_evidence_bundle_optional ::
    "'t evidence_api \<Rightarrow> query option \<Rightarrow> document list \<Rightarrow> (evidence list \<times> evidence_v2 list) option" where
  "analyze_evidence_bundle_optional ea q documents =
     Option.bind (analyze_evidence ea documents) (\<lambda>evidence.
       map_option (\<lambda>v2. (evidence, v2)) (build_evidence_v2 ea q documents evidence))"

definition analyze_evidence_bundle :: "'t evidence_api \<Rightarrow> query \<Rightarrow> document list \<Rightarrow> (evidence list \<times> evidence_v2 list) option" where
  "analyze_evidence_bundle ea q documents = analyze_evidence_bundle_optional ea (Some q) documents"

section \<open>Fragments are exact, bounded and ordered\<close>

lemma map_panic_total: "(\<And>x. x \<in> set xs \<Longrightarrow> f x = Some (g x)) \<Longrightarrow> map_panic f xs = Some (map g xs)"
  by (induction xs) simp_all

definition candidates_ok :: "rstr \<Rightarrow> rstr btree_set \<Rightarrow> fragment_candidate list \<Rightarrow> bool" where
  "candidates_ok content query_tokens cs \<longleftrightarrow>
     list_all (\<lambda>c. fc_start c < fc_end c \<and> fc_end c \<le> byte_len content \<and> fc_end c \<le> fc_start c + 512 \<and>
       str_slice content (fc_start c) (fc_end c) \<noteq> None \<and> set (fc_matched_terms c) \<subseteq> set query_tokens \<and>
       (QueryMatch \<in> set (fc_signals c) \<longleftrightarrow> fc_matched_terms c \<noteq> [])) cs \<and>
     sorted_wrt (\<lambda>c d. fc_end c \<le> fc_start d) cs"

lemma candidates_exist:
  obtains ranges cs where "bounded_content_ranges content = Some ranges"
    "map_panic (fragment_candidate_of uc content query_tokens) ranges = Some cs" "candidates_ok content query_tokens cs"
proof -
  obtain ranges where ranges: "bounded_content_ranges content = Some ranges" "ranges_ok content 0 (byte_len content) ranges"
    by (rule bounded_content_ranges_ok)
  define g where "g r = the (fragment_candidate_of uc content query_tokens r)" for r
  have g: "fragment_candidate_of uc content query_tokens r = Some (g r)" "fc_start (g r) = fst r" "fc_end (g r) = snd r"
    "set (fc_matched_terms (g r)) \<subseteq> set query_tokens" "QueryMatch \<in> set (fc_signals (g r)) \<longleftrightarrow> fc_matched_terms (g r) \<noteq> []"
    if "r \<in> set ranges" for r
    using that ranges(2) by (auto simp: g_def ranges_ok_def list_all_iff fragment_candidate_of_def Let_def)
  have "sorted_wrt (\<lambda>c d. fc_end c \<le> fc_start d) (map g ranges)"
    using ranges(2) g(2,3) unfolding ranges_ok_def sorted_wrt_map by (auto intro: sorted_wrt_mono_rel [rotated])
  moreover have "map_panic (fragment_candidate_of uc content query_tokens) ranges = Some (map g ranges)"
    by (rule map_panic_total) (rule g(1))
  moreover have "fc_start (g r) < fc_end (g r) \<and> fc_end (g r) \<le> byte_len content \<and> fc_end (g r) \<le> fc_start (g r) + 512 \<and>
      str_slice content (fc_start (g r)) (fc_end (g r)) \<noteq> None" if "r \<in> set ranges" for r
    using that ranges(2) by (auto simp: g(2,3) [OF that] ranges_ok_def list_all_iff)
  ultimately have "candidates_ok content query_tokens (map g ranges)"
    using g(4,5) unfolding candidates_ok_def list_all_iff by auto
  then show thesis using that [OF ranges(1)] \<open>map_panic _ ranges = _\<close> by blast
qed

lemma sorted_wrt_later:
  assumes "sorted_wrt P xs" "x \<in> set xs" "y \<in> set xs" "x \<noteq> y"
  shows "P x y \<or> P y x"
  using assms by (induction xs) auto

lemma selected_ok:
  assumes "candidates_ok content query_tokens cs"
  shows "candidates_ok content query_tokens (selected_candidates cs)" "length (selected_candidates cs) \<le> 8"
proof -
  let ?sel = "selected_candidates cs"
  have sub: "set ?sel \<subseteq> set cs"
    using set_take_subset [of EVIDENCE_V2_MAX_FRAGMENTS "sort_by candidate_cmp cs"] by (simp add: selected_candidates_def)
  have "irreflp_on (set cs) (\<lambda>c d. fc_end c \<le> fc_start d)"
    using assms by (auto simp: candidates_ok_def list_all_iff irreflp_on_def not_le)
  then have "distinct cs" using assms
  proof -
    have "sorted_wrt (\<lambda>c d. fc_end c \<le> fc_start d) cs \<Longrightarrow> list_all (\<lambda>c. fc_start c < fc_end c) cs \<Longrightarrow> distinct cs" for cs
      by (induction cs) fastforce+
    then show ?thesis using assms by (auto simp: candidates_ok_def list_all_iff)
  qed
  then have "distinct (sort_by candidate_cmp cs)" by (metis mset_eq_imp_distinct_iff mset_sort_by)
  then have "distinct ?sel" by (simp add: selected_candidates_def)
  moreover have "sorted_wrt (\<lambda>c d. fc_start c \<le> fc_start d) ?sel"
    using sorted_sort_key [of fc_start] by (simp add: selected_candidates_def sorted_map)
  ultimately have "sorted_wrt (\<lambda>c d. c \<noteq> d \<and> fc_start c \<le> fc_start d) ?sel"
    by (simp add: distinct_conv_nth sorted_wrt_iff_nth_less)
  then have "sorted_wrt (\<lambda>c d. fc_end c \<le> fc_start d) ?sel"
  proof (rule sorted_wrt_mono_rel [rotated])
    fix c d assume cd: "c \<in> set ?sel" "d \<in> set ?sel" "c \<noteq> d \<and> fc_start c \<le> fc_start d"
    then have "fc_end c \<le> fc_start d \<or> fc_end d \<le> fc_start c"
      using sorted_wrt_later [of "\<lambda>c d. fc_end c \<le> fc_start d" cs c d] assms sub by (auto simp: candidates_ok_def)
    moreover have "fc_start d < fc_end d" using assms sub cd(2) by (auto simp: candidates_ok_def list_all_iff)
    ultimately show "fc_end c \<le> fc_start d" using cd(3) by linarith
  qed
  then show "candidates_ok content query_tokens ?sel" using assms sub by (auto simp: candidates_ok_def list_all_iff)
  show "length ?sel \<le> 8" by (simp add: selected_candidates_def EVIDENCE_V2_MAX_FRAGMENTS_def)
qed


definition fragments_ok :: "rstr \<Rightarrow> rstr btree_set \<Rightarrow> evidence_fragment list \<Rightarrow> bool" where
  "fragments_ok content query_tokens fs \<longleftrightarrow>
     length fs \<le> 8 \<and> map (unat \<circ> ef_ordinal) fs = [1..<Suc (length fs)] \<and>
     list_all (\<lambda>f. str_slice content (unat (ef_start_byte f)) (unat (ef_end_byte f)) = Some (ef_text f) \<and> ef_text f \<noteq> [] \<and>
       byte_len (ef_text f) \<le> 512 \<and> set (ef_matched_terms f) \<subseteq> set query_tokens \<and>
       (QueryMatch \<in> set (ef_signals f) \<longleftrightarrow> ef_matched_terms f \<noteq> [])) fs \<and>
     sorted_wrt (\<lambda>f g. ef_end_byte f \<le> ef_start_byte g) fs"

lemma fragment_of_facts:
  assumes "candidates_ok content query_tokens cs" "c \<in> set cs" "byte_len content < 2 ^ 64"
  obtains f where "fragment_of hex content pid (i, c) = Some f" "ef_ordinal f = sat32 (i + 1)"
    "unat (ef_start_byte f) = fc_start c" "unat (ef_end_byte f) = fc_end c" "str_slice content (fc_start c) (fc_end c) = Some (ef_text f)"
    "ef_matched_terms f = fc_matched_terms c" "ef_signals f = fc_signals c"
proof -
  have c: "fc_start c < fc_end c" "fc_end c \<le> byte_len content" "str_slice content (fc_start c) (fc_end c) \<noteq> None"
    using assms(1,2) by (auto simp: candidates_ok_def list_all_iff)
  then obtain body where body: "str_slice content (fc_start c) (fc_end c) = Some body" by blast
  have "unat (of_nat (fc_start c) :: u64) = fc_start c" "unat (of_nat (fc_end c) :: u64) = fc_end c"
    using c assms(3) by (simp_all add: unat_of_nat take_bit_nat_eq_self)
  moreover obtain f where "fragment_of hex content pid (i, c) = Some f" using body by (simp add: fragment_of_def Let_def)
  ultimately show thesis using that [of f] body by (auto simp: fragment_of_def Let_def simp del: lit_simps as_bytes_simps)
qed

lemma evidence_fragments_Some:
  assumes "byte_len content < 2 ^ 64"
  obtains fs where "evidence_fragments ea content query_tokens pid = Some fs" "fragments_ok content query_tokens fs"
proof -
  obtain ranges cs where cs: "bounded_content_ranges content = Some ranges"
    "map_panic (fragment_candidate_of (ea_unicode ea) content query_tokens) ranges = Some cs" "candidates_ok content query_tokens cs"
    by (rule candidates_exist)
  define sel where "sel = selected_candidates cs"
  note ok = selected_ok [OF cs(3), folded sel_def]
  define g where "g e = the (fragment_of (ea_hex_digest ea) content pid e)" for e
  have g: "fragment_of (ea_hex_digest ea) content pid (i, c) = Some (g (i, c)) \<and> ef_ordinal (g (i, c)) = sat32 (i + 1) \<and>
      unat (ef_start_byte (g (i, c))) = fc_start c \<and> unat (ef_end_byte (g (i, c))) = fc_end c \<and>
      str_slice content (fc_start c) (fc_end c) = Some (ef_text (g (i, c))) \<and>
      ef_matched_terms (g (i, c)) = fc_matched_terms c \<and> ef_signals (g (i, c)) = fc_signals c" if "c \<in> set sel" for i c
    by (rule fragment_of_facts [OF ok(1) that assms, of "ea_hex_digest ea" pid i]) (simp add: g_def)
  let ?fs = "map g (enumerate 0 sel)"
  have mem: "c \<in> set sel" if "(i, c) \<in> set (enumerate 0 sel)" for i c using that by (auto simp: in_set_enumerate_eq)
  have "map_panic (fragment_of (ea_hex_digest ea) content pid) (enumerate 0 sel) = Some ?fs"
    by (rule map_panic_total) (use g mem in \<open>force\<close>)
  then have "evidence_fragments ea content query_tokens pid = Some ?fs"
    using cs by (simp add: evidence_fragments_def sel_def)
  moreover have "fragments_ok content query_tokens ?fs"
  proof -
    have nth: "?fs ! i = g (i, sel ! i)" "sel ! i \<in> set sel" if "i < length sel" for i using that by (simp_all add: nth_enumerate_eq)
    have ord: "unat (ef_ordinal (?fs ! i)) = Suc i" if "i < length sel" for i
      using nth [OF that] g [of "sel ! i" i] ok(2) that by (simp add: unat_sat32)
    have "map (unat \<circ> ef_ordinal) ?fs = [1..<Suc (length ?fs)]"
      by (rule nth_equalityI) (use ord in \<open>simp_all del: One_nat_def upt_Suc add: nth_append\<close>)
    moreover have "sorted_wrt (\<lambda>f g. ef_end_byte f \<le> ef_start_byte g) ?fs"
      using ok(1) g nth unfolding candidates_ok_def sorted_wrt_iff_nth_less by (simp add: word_le_nat_alt)
    moreover have "str_slice content (unat (ef_start_byte f)) (unat (ef_end_byte f)) = Some (ef_text f) \<and> ef_text f \<noteq> [] \<and>
       byte_len (ef_text f) \<le> 512 \<and> set (ef_matched_terms f) \<subseteq> set query_tokens \<and>
       (QueryMatch \<in> set (ef_signals f) \<longleftrightarrow> ef_matched_terms f \<noteq> [])" if hyp: "f \<in> set ?fs" for f
    proof -
      obtain i where i: "i < length sel" "f = g (i, sel ! i)" using hyp nth(1) unfolding in_set_conv_nth by auto
      define c where "c = sel ! i"
      have cmem: "c \<in> set sel" using i by (simp add: c_def)
      then have c: "fc_start c < fc_end c" "fc_end c \<le> fc_start c + 512" "set (fc_matched_terms c) \<subseteq> set query_tokens"
        "QueryMatch \<in> set (fc_signals c) \<longleftrightarrow> fc_matched_terms c \<noteq> []" using ok(1) by (auto simp: candidates_ok_def list_all_iff)
      have slice: "str_slice content (fc_start c) (fc_end c) = Some (ef_text f)" using g [OF cmem, of i] i c_def by simp
      then have "fc_end c = fc_start c + byte_len (ef_text f)" using slice_boundaries by blast
      then show ?thesis using g [OF cmem, of i] i c slice c_def by auto
    qed
    ultimately show ?thesis using ok(2) unfolding fragments_ok_def list_all_iff by simp
  qed
  ultimately show thesis using that by blast
qed


text \<open>
  C25. Extracting evidence from a document never panics, and what it quotes is really there: at most eight
  fragments, numbered from one, each the exact text of the content between its byte offsets, at character
  boundaries, nonempty and no longer than 512 bytes, in order and without overlap; its matched terms are query
  terms, and it is flagged as a query match exactly when it has some.
\<close>

theorem evidence_fragments_exact:
  assumes "byte_len content < 2 ^ 64"
  shows "case evidence_fragments ea content query_tokens pid of
     None \<Rightarrow> False
   | Some fs \<Rightarrow> length fs \<le> 8 \<and> map (unat \<circ> ef_ordinal) fs = [1..<Suc (length fs)] \<and>
       list_all (\<lambda>f. str_slice content (unat (ef_start_byte f)) (unat (ef_end_byte f)) = Some (ef_text f) \<and> ef_text f \<noteq> [] \<and>
         byte_len (ef_text f) \<le> 512 \<and> set (ef_matched_terms f) \<subseteq> set query_tokens \<and>
         (QueryMatch \<in> set (ef_signals f) \<longleftrightarrow> ef_matched_terms f \<noteq> [])) fs \<and>
       sorted_wrt (\<lambda>f g. ef_end_byte f \<le> ef_start_byte g) fs"
  by (rule evidence_fragments_Some [OF assms, of ea query_tokens pid]) (simp add: fragments_ok_def)

definition sample_evidence_api :: "nat evidence_api" where
  "sample_evidence_api = \<lparr> ea_hex_digest = (\<lambda>_. []), ea_unicode = ascii_unicode, ea_powf = (\<lambda>_ _. Fin 1),
       ea_time = \<lparr> tm_parse_rfc3339 = (\<lambda>_. None), tm_format_rfc3339 = (\<lambda>_. None), tm_parse_ymd_midnight_utc = (\<lambda>_. None),
         tm_whole_seconds_between = (\<lambda>(_ :: nat) _. 0) \<rparr>, ea_time_le = (\<lambda>_ _. True) \<rparr>"

theorem evidence_fragments_exact_witness:
  "case evidence_fragments sample_evidence_api
       (lit ''a rust book'' @ [10] @ lit ''2020'') [lit ''rust''] [] of
     None \<Rightarrow> False | Some fs \<Rightarrow> length fs \<le> 8"
  using evidence_fragments_exact [where content = "lit ''a rust book'' @ [10] @ lit ''2020''" and ea = sample_evidence_api and
      query_tokens = "[lit ''rust'']" and pid = "[]"]
  by (simp add: len_utf8_def split: option.splits)

section \<open>The bundle\<close>

lemma content_occurrences_wf: "bt_wf (content_occurrences ds)"
  unfolding content_occurrences_def
  by (rule foldl_invariant [where P = bt_wf]) (auto simp: bt_entry_wf, simp add: bt_empty_def bt_wf_def)

text \<open>The duplicate count of a document is the number of documents with its content hash.\<close>

lemma content_occurrences_get:
  "bt_get (content_occurrences ds) h =
     (if h \<in> dc_content_hash ` set ds then Some (of_nat (length (filter (\<lambda>d. dc_content_hash d = h) ds))) else None)"
proof (induction ds rule: rev_induct)
  case Nil
  then show ?case by (simp add: content_occurrences_def bt_empty_def bt_get_def)
next
  case (snoc d ds)
  have "content_occurrences (ds @ [d]) = bt_entry (dc_content_hash d) 0 (\<lambda>n. n + 1) (content_occurrences ds)"
    by (simp add: content_occurrences_def)
  moreover have "filter (\<lambda>x. dc_content_hash x = h) ds = []" if "h \<notin> dc_content_hash ` set ds"
    using that by (auto simp: filter_empty_conv)
  ultimately show ?case using snoc by (auto simp: bt_get_entry content_occurrences_wf add.commute)
qed

lemma analyze_evidence_Some:
  "analyze_evidence ea ds =
     Some (map (\<lambda>d. analyze_document ea d (of_nat (length (filter (\<lambda>x. dc_content_hash x = dc_content_hash d) ds)))) ds)"
  unfolding analyze_evidence_def by (rule map_panic_total) (simp add: content_occurrences_get)

lemma analyze_document_facts:
  "ev_document_id (analyze_document ea d n) = dc_search_result_id d"
  "list_all in_unit [ev_fact_density (analyze_document ea d n), ev_metadata_quality (analyze_document ea d n),
     ev_citation_span (analyze_document ea d n), ev_freshness (analyze_document ea d n), ev_originality (analyze_document ea d n),
     ev_evidence_score (analyze_document ea d n)]"
  by (simp_all add: analyze_document_def Let_def)

lemma evidence_v2_of_Some:
  assumes "case dc_content d of None \<Rightarrow> True | Some c \<Rightarrow> byte_len c < 2 ^ 64"
  obtains v where "evidence_v2_of ea qt (d, e) = Some v" "e2_document_id v = dc_search_result_id d" "e2_evidence_score v = ev_evidence_score e"
    "ep_source_content_hash (e2_provenance v) = dc_content_hash d"
proof -
  have "\<exists>fs. (case dc_content d of None \<Rightarrow> Some [] | Some content \<Rightarrow> evidence_fragments ea content qt pid) = Some fs" for pid
  proof (cases "dc_content d")
    case (Some c)
    then have "byte_len c < 2 ^ 64" using assms by simp
    then obtain fs where "evidence_fragments ea c qt pid = Some fs" by (rule evidence_fragments_Some)
    then show ?thesis using Some by simp
  qed simp
  then obtain fs where "(case dc_content d of None \<Rightarrow> Some [] | Some content \<Rightarrow> evidence_fragments ea content qt
      (provenance_id (ea_hex_digest ea) d (map_option (\<lambda>c. ea_hex_digest ea (as_bytes c)) (dc_content d)))) = Some fs" by blast
  then have "evidence_v2_of ea qt (d, e) \<noteq> None" by (simp add: evidence_v2_of_def Let_def)
  then obtain v where "evidence_v2_of ea qt (d, e) = Some v" by blast
  then show thesis using that [of v] by (auto simp: evidence_v2_of_def Let_def)
qed

lemma evidence_bundle_total:
  assumes "list_all (\<lambda>d. case dc_content d of None \<Rightarrow> True | Some c \<Rightarrow> byte_len c < 2 ^ 64) ds"
  obtains es vs where "analyze_evidence_bundle ea q ds = Some (es, vs)"
    "map ev_document_id es = map dc_search_result_id ds" "map e2_document_id vs = map dc_search_result_id ds"
    "map (ep_source_content_hash \<circ> e2_provenance) vs = map dc_content_hash ds" "map e2_evidence_score vs = map ev_evidence_score es"
    "es = map (\<lambda>d. analyze_document ea d (of_nat (length (filter (\<lambda>x. dc_content_hash x = dc_content_hash d) ds)))) ds"
proof -
  define es where "es = map (\<lambda>d. analyze_document ea d (of_nat (length (filter (\<lambda>x. dc_content_hash x = dc_content_hash d) ds)))) ds"
  define qt where "qt = tokens (ea_unicode ea) (q_normalized_query q)"
  define g where "g e = the (evidence_v2_of ea qt e)" for e
  have g: "evidence_v2_of ea qt (d, e) = Some (g (d, e)) \<and> e2_document_id (g (d, e)) = dc_search_result_id d \<and>
      e2_evidence_score (g (d, e)) = ev_evidence_score e \<and> ep_source_content_hash (e2_provenance (g (d, e))) = dc_content_hash d"
    if mem: "d \<in> set ds" for d e
    by (rule evidence_v2_of_Some [of d ea qt e]) (use mem assms in \<open>auto simp: list_all_iff g_def\<close>)
  have len: "length es = length ds" by (simp add: es_def)
  have "map_panic (evidence_v2_of ea qt) (zip ds es) = Some (map g (zip ds es))"
    by (rule map_panic_total) (use g in \<open>auto dest: set_zip_leftD\<close>)
  then have total: "analyze_evidence_bundle ea q ds = Some (es, map g (zip ds es))"
    by (simp add: analyze_evidence_bundle_def analyze_evidence_bundle_optional_def analyze_evidence_Some es_def [symmetric]
        build_evidence_v2_def qt_def)
  have ids: "map ev_document_id es = map dc_search_result_id ds" by (simp add: es_def analyze_document_facts)
  have vs: "map e2_document_id (map g (zip ds es)) = map dc_search_result_id ds"
    "map (ep_source_content_hash \<circ> e2_provenance) (map g (zip ds es)) = map dc_content_hash ds"
    "map e2_evidence_score (map g (zip ds es)) = map ev_evidence_score es"
    using g len by (simp_all add: list_eq_iff_nth_eq)
  show thesis by (rule that [OF total ids vs es_def])
qed

text \<open>
  C26. The evidence analysis of a Deep run is total and runs parallel to its documents: one baseline and one version 2
  record per document, in order, under the document's id and content hash and with the same score; every score
  and every component of it is a ranking score in the unit interval.
\<close>

theorem evidence_bundle_parallel:
  assumes "list_all (\<lambda>d. case dc_content d of None \<Rightarrow> True | Some c \<Rightarrow> byte_len c < 2 ^ 64) ds"
  shows "case analyze_evidence_bundle ea q ds of
     None \<Rightarrow> False
   | Some (es, vs) \<Rightarrow> map ev_document_id es = map dc_search_result_id ds \<and> map e2_document_id vs = map dc_search_result_id ds \<and>
       map (ep_source_content_hash \<circ> e2_provenance) vs = map dc_content_hash ds \<and>
       map e2_evidence_score vs = map ev_evidence_score es \<and>
       list_all (\<lambda>e. list_all in_unit [ev_fact_density e, ev_metadata_quality e, ev_citation_span e, ev_freshness e,
         ev_originality e, ev_evidence_score e]) es"
proof -
  obtain es vs where facts: "analyze_evidence_bundle ea q ds = Some (es, vs)"
    "map ev_document_id es = map dc_search_result_id ds" "map e2_document_id vs = map dc_search_result_id ds"
    "map (ep_source_content_hash \<circ> e2_provenance) vs = map dc_content_hash ds" "map e2_evidence_score vs = map ev_evidence_score es"
    and es: "es = map (\<lambda>d. analyze_document ea d (of_nat (length (filter (\<lambda>x. dc_content_hash x = dc_content_hash d) ds)))) ds"
    by (rule evidence_bundle_total [OF assms])
  have "list_all (\<lambda>e. list_all in_unit [ev_fact_density e, ev_metadata_quality e, ev_citation_span e, ev_freshness e,
         ev_originality e, ev_evidence_score e]) es"
    using analyze_document_facts(2) [of ea] by (simp add: es list_all_iff)
  then show ?thesis using facts by simp
qed

theorem evidence_bundle_parallel_witness:
  "case analyze_evidence_bundle sample_evidence_api sample_query [sample_document] of
     None \<Rightarrow> False
   | Some (es, vs) \<Rightarrow> map ev_document_id es = [lit ''id''] \<and> map e2_document_id vs = [lit ''id'']"
  using evidence_bundle_parallel [where ds = "[sample_document]" and ea = sample_evidence_api and q = sample_query]
  by (simp add: sample_document_def len_utf8_def split: option.splits prod.splits)

end
