(* ===== verification/Gaps.thy ===== *)
theory Gaps
  imports Evidence Query_Parse Planning
begin

text \<open>
  Gap analysis of a Deep run, \<^verbatim>\<open>gaps.rs\<close>: what the retrieved documents fail to cover, and the follow-up queries proposed
  for it. The Unicode tables and the \<^verbatim>\<open>url\<close> crate (host and path of a URL) are parameters.
\<close>

section \<open>Data\<close>

datatype GapType =
    PrimarySource | Recency | GeographicDiversity | Documentation | Pdf | Code | Specification | SourceDiversity

datatype GapSeverity = Sev_Low | Sev_Medium | Sev_High

datatype GapStatus = Gap_Detected

record gap =
  gp_schema_version :: rstr
  gp_gap_type :: GapType
  gp_severity :: GapSeverity
  gp_reason :: rstr
  gp_recommended_query :: "rstr option"
  gp_estimated_cost :: "u64 option"
  gp_expected_gain :: "u32 option"
  gp_status :: GapStatus

record gap_policy =
  gq_version :: rstr
  gq_minimum_documents :: u32
  gq_minimum_unique_domains :: u32
  gq_minimum_enriched_ratio :: f64
  gq_minimum_average_evidence :: f64
  gq_difficult_confidence_max :: f64
  gq_difficult_minimum_terms :: u32
  gq_max_subqueries :: u32

definition gap_policy_default :: gap_policy where
  "gap_policy_default = \<lparr> gq_version = lit ''v1'', gq_minimum_documents = 3, gq_minimum_unique_domains = 3,
     gq_minimum_enriched_ratio = f64_lit 60 100, gq_minimum_average_evidence = f64_lit 45 100,
     gq_difficult_confidence_max = f64_lit 75 100, gq_difficult_minimum_terms = 4, gq_max_subqueries = 2 \<rparr>"

datatype GapPolicyError = InvalidPolicy

definition gap_policy_validate :: "gap_policy \<Rightarrow> GapPolicyError + unit" where
  "gap_policy_validate p =
     (if gq_version p \<noteq> lit ''v1'' \<or> gq_minimum_documents p = 0 \<or> gq_minimum_unique_domains p = 0
         \<or> gq_difficult_minimum_terms p = 0 \<or> gq_max_subqueries p = 0
         \<or> list_ex (\<lambda>v. \<not> is_finite v \<or> \<not> (f64_le (Fin 0) v \<and> f64_le v (Fin 1)))
             [gq_minimum_enriched_ratio p, gq_minimum_average_evidence p, gq_difficult_confidence_max p]
      then Err InvalidPolicy else Ok ())"

record gap_analysis =
  ga_gaps :: "gap list"
  ga_coverage_low :: bool
  ga_difficult_query :: bool

definition gap_analyzer_new :: "gap_policy \<Rightarrow> GapPolicyError + gap_policy" where
  "gap_analyzer_new p = (case gap_policy_validate p of Err e \<Rightarrow> Err e | Ok _ \<Rightarrow> Ok p)"

text \<open>What the analysis asks of a URL and of the Unicode tables.\<close>

record gap_api =
  gi_unicode :: unicode
  gi_host_str :: "url \<Rightarrow> rstr option"
  gi_path :: "url \<Rightarrow> rstr"

section \<open>Signals\<close>

definition any_term :: "string list \<Rightarrow> rstr btree_set \<Rightarrow> bool" where
  "any_term names terms = list_ex (\<lambda>term. term \<in> set (map lit names)) terms"

definition explicit_primary_source :: "rstr btree_set \<Rightarrow> bool" where
  "explicit_primary_source = any_term [''official'', ''primary'', ''original'']"

definition requires_recency :: "query \<Rightarrow> search_plan \<Rightarrow> bool" where
  "requires_recency q plan \<longleftrightarrow> q_date_from q \<noteq> None \<or> q_date_to q \<noteq> None
     \<or> cl_primary_category (sp_classification plan) = Cat_News"

definition requires_specification :: "rstr btree_set \<Rightarrow> bool" where
  "requires_specification = any_term [''rfc'', ''spec'', ''specification'', ''standard'']"

definition requires_documentation :: "rstr btree_set \<Rightarrow> bool" where
  "requires_documentation = any_term [''documentation'', ''docs'']"

definition requires_code :: "rstr btree_set \<Rightarrow> bool" where
  "requires_code = any_term [''code'', ''repository'', ''github'', ''gitlab'']"

fun severity_order :: "GapSeverity \<Rightarrow> nat" where
  "severity_order Sev_High = 0"
| "severity_order Sev_Medium = 1"
| "severity_order Sev_Low = 2"

definition document_text :: "gap_api \<Rightarrow> document \<Rightarrow> rstr" where
  "document_text gi d =
     uc_str_to_lowercase (gi_unicode gi) (str_or_empty (dc_title d) @ [32] @ str_or_empty (dc_content d))"

definition has_primary_source :: "gap_api \<Rightarrow> document list \<Rightarrow> bool" where
  "has_primary_source gi ds = list_ex (\<lambda>d. contains_str (document_text gi d) (lit ''official'')
     \<or> (case gi_host_str gi (dc_final_url d) of
          None \<Rightarrow> False | Some host \<Rightarrow> ends_with host (lit ''.gov'') \<or> ends_with host (lit ''.edu''))) ds"

definition has_documentation :: "gap_api \<Rightarrow> document list \<Rightarrow> bool" where
  "has_documentation gi ds = list_ex (\<lambda>d. contains_str (gi_path gi (dc_final_url d)) (lit ''docs'')
     \<or> contains_str (gi_path gi (dc_final_url d)) (lit ''documentation'')
     \<or> contains_str (document_text gi d) (lit ''documentation'')) ds"

definition has_pdf :: "gap_api \<Rightarrow> document list \<Rightarrow> bool" where
  "has_pdf gi ds = list_ex (\<lambda>d. ends_with (uc_str_to_lowercase (gi_unicode gi) (gi_path gi (dc_final_url d))) (lit ''.pdf'')
     \<or> (case dc_content_type d of
          None \<Rightarrow> False | Some v \<Rightarrow> contains_str (uc_str_to_lowercase (gi_unicode gi) v) (lit ''application/pdf''))) ds"

definition has_code :: "gap_api \<Rightarrow> document list \<Rightarrow> bool" where
  "has_code gi ds = list_ex (\<lambda>d.
     (case gi_host_str gi (dc_final_url d) of
        None \<Rightarrow> False | Some host \<Rightarrow> host \<in> set (map lit [''github.com'', ''gitlab.com'', ''codeberg.org'']))
     \<or> list_ex (\<lambda>marker. case dc_content d of None \<Rightarrow> False | Some content \<Rightarrow> contains_str content marker)
         [[96, 96, 96], lit ''fn '', lit ''def '', lit ''class '']) ds"

definition has_specification :: "gap_api \<Rightarrow> document list \<Rightarrow> bool" where
  "has_specification gi ds = list_ex (\<lambda>d.
     contains_str (uc_str_to_lowercase (gi_unicode gi) (gi_path gi (dc_final_url d))) (lit ''rfc'')
     \<or> list_ex (\<lambda>marker. contains_str (document_text gi d) (lit marker)) [''specification'', ''standard'', '' rfc '']) ds"

section \<open>Analysis\<close>

definition recommended_query :: "unicode \<Rightarrow> query \<Rightarrow> rstr \<Rightarrow> rstr" where
  "recommended_query uc q suffix =
     (let suffix = uc_str_to_lowercase uc suffix
      in if contains_str (q_normalized_query q) suffix \<or> contains_str (uc_str_to_lowercase uc (q_raw_query q)) suffix
         then q_raw_query q else trim (q_raw_query q) @ [32] @ suffix)"

definition gap_of :: "unicode \<Rightarrow> GapType \<Rightarrow> GapSeverity \<Rightarrow> string \<Rightarrow> query \<Rightarrow> rstr \<Rightarrow> u32 \<Rightarrow> gap" where
  "gap_of uc kind severity reason q suffix expected_gain =
     \<lparr> gp_schema_version = SCHEMA_VERSION, gp_gap_type = kind, gp_severity = severity, gp_reason = lit reason,
       gp_recommended_query = Some (recommended_query uc q suffix), gp_estimated_cost = Some 1,
       gp_expected_gain = Some expected_gain, gp_status = Gap_Detected \<rparr>"

definition unique_domains :: "gap_api \<Rightarrow> document list \<Rightarrow> u32" where
  "unique_domains gi ds = of_nat (length (bs_collect (List.map_filter (\<lambda>d. gi_host_str gi (dc_canonical_url d)) ds)))"

definition enriched_ratio :: "document list \<Rightarrow> f64" where
  "enriched_ratio ds =
     (if ds = [] then Fin 0
      else f64_div (f64_of_nat (length (filter (\<lambda>d. dc_content d \<noteq> None) ds))) (f64_of_nat (length ds)))"

definition average_evidence :: "evidence list \<Rightarrow> f64" where
  "average_evidence es =
     (if es = [] then Fin 0 else f64_div (f64_sum (map ev_evidence_score es)) (f64_of_nat (length es)))"

definition explicit_intent :: "query \<Rightarrow> rstr btree_set \<Rightarrow> bool" where
  "explicit_intent q terms \<longleftrightarrow> q_file_types q \<noteq> [] \<or> q_date_from q \<noteq> None \<or> q_date_to q \<noteq> None \<or> q_region q \<noteq> None
     \<or> any_term [''official'', ''primary'', ''original'', ''documentation'', ''docs'', ''rfc'', ''spec'', ''specification'',
          ''standard'', ''code'', ''repository'', ''github'', ''gitlab''] terms"

definition region_covered :: "rstr \<Rightarrow> document list \<Rightarrow> bool" where
  "region_covered region ds = list_ex (\<lambda>d. case map_of (dc_metadata d) (lit ''region'') of
     None \<Rightarrow> False | Some v \<Rightarrow> to_ascii_lowercase v = to_ascii_lowercase region) ds"

text \<open>The checks in their order, each with the gap it adds.\<close>

definition detected_gaps :: "gap_api \<Rightarrow> gap_policy \<Rightarrow> query \<Rightarrow> search_plan \<Rightarrow> document list \<Rightarrow> evidence list \<Rightarrow> gap list" where
  "detected_gaps gi p q plan ds es =
     (let uc = gi_unicode gi; terms = tokens uc (q_normalized_query q); category = cl_primary_category (sp_classification plan)
      in (if explicit_primary_source terms \<and> \<not> has_primary_source gi ds
          then [gap_of uc PrimarySource Sev_High ''The query requests a primary or official source, but none is observable''
                  q (lit ''official primary source'') 2] else [])
       @ (if requires_recency q plan \<and> \<not> list_ex ev_verified_date es
          then [gap_of uc Recency Sev_High ''No document has a verified publication date for a recency-sensitive query''
                  q (lit ''recent verified update'') 2] else [])
       @ (case q_region q of
            None \<Rightarrow> []
          | Some region \<Rightarrow> if \<not> region_covered region ds
              then [gap_of uc GeographicDiversity Sev_Medium ''The requested region is not represented in document metadata''
                      q (lit ''regional source '' @ region) 1] else [])
       @ (if (category = Cat_Documentation \<or> requires_documentation terms) \<and> \<not> has_documentation gi ds
          then [gap_of uc Documentation Sev_High ''A documentation query has no observable documentation source''
                  q (lit ''official documentation'') 2] else [])
       @ (if list_ex (\<lambda>v. to_ascii_lowercase v = lit ''pdf'') (q_file_types q) \<and> \<not> has_pdf gi ds
          then [gap_of uc Pdf Sev_High ''The query requests PDF content, but no PDF document was retrieved''
                  q (lit ''filetype:pdf'') 2] else [])
       @ (if (category = Cat_Code \<or> requires_code terms) \<and> \<not> has_code gi ds
          then [gap_of uc Code Sev_High ''A code query has no observable source-code document''
                  q (lit ''source code repository'') 2] else [])
       @ (if requires_specification terms \<and> \<not> has_specification gi ds
          then [gap_of uc Specification Sev_High ''The query requests a specification, but no specification is observable''
                  q (lit ''official specification standard'') 2] else [])
       @ (if unique_domains gi ds < gq_minimum_unique_domains p
          then [gap_of uc SourceDiversity Sev_Medium ''The Deep result set has insufficient unique source domains''
                  q (lit ''independent source'')
                  (min (max (saturating_sub (gq_minimum_unique_domains p) (unique_domains gi ds)) 1) 2)] else []))"

definition gap_analyze :: "gap_api \<Rightarrow> gap_policy \<Rightarrow> query \<Rightarrow> search_plan \<Rightarrow> document list \<Rightarrow> evidence list \<Rightarrow> gap_analysis" where
  "gap_analyze gi p q plan ds es =
     (let terms = tokens (gi_unicode gi) (q_normalized_query q)
      in \<lparr> ga_gaps = detected_gaps gi p q plan ds es,
           ga_coverage_low = (length ds < unat (gq_minimum_documents p) \<or> unique_domains gi ds < gq_minimum_unique_domains p
             \<or> f64_lt (enriched_ratio ds) (gq_minimum_enriched_ratio p)
             \<or> f64_lt (average_evidence es) (gq_minimum_average_evidence p)),
           ga_difficult_query = (f64_le (cl_confidence (sp_classification plan)) (gq_difficult_confidence_max p)
             \<or> unat (gq_difficult_minimum_terms p) \<le> length terms \<or> explicit_intent q terms) \<rparr>)"

definition gap_proposals :: "gap_policy \<Rightarrow> gap_analysis \<Rightarrow> gap list" where
  "gap_proposals p analysis =
     (if \<not> ga_coverage_low analysis \<or> \<not> ga_difficult_query analysis then []
      else take (unat (gq_max_subqueries p))
             (sort_key (\<lambda>g. severity_order (gp_severity g)) (filter (\<lambda>g. gp_recommended_query g \<noteq> None) (ga_gaps analysis))))"

section \<open>Proposals\<close>

lemma trim_hd: "trim s \<noteq> [] \<Longrightarrow> \<exists>c\<in>set (trim s). \<not> is_whitespace c"
  unfolding trim_def trim_matches_def trim_end_matches_def
  by (metis hd_dropWhile hd_in_set rev_is_Nil_conv set_rev)

lemma recommended_query_nonblank: "trim (q_raw_query q) \<noteq> [] \<Longrightarrow> trim (recommended_query uc q suffix) \<noteq> []"
  using trim_hd [of "q_raw_query q"] by (auto simp: recommended_query_def Let_def trim_empty_iff [of "trim (q_raw_query q) @ _"])

lemma parse_query_total: "trim raw \<noteq> [] \<Longrightarrow> is_ok (parse_query raw)"
  by (simp add: parse_query_def is_ok_def split: prod.split)

text \<open>One optional gap per kind, in the order of the kinds.\<close>

definition at_most_one :: "unicode \<Rightarrow> query \<Rightarrow> GapType \<Rightarrow> gap list \<Rightarrow> bool" where
  "at_most_one uc q kind part \<longleftrightarrow> part = [] \<or>
     (\<exists>g suffix. part = [g] \<and> gp_gap_type g = kind \<and> gp_recommended_query g = Some (recommended_query uc q suffix))"

lemma at_most_one_gap: "at_most_one uc q kind (if b then [gap_of uc kind severity reason q suffix gain] else [])"
  by (auto simp: at_most_one_def gap_of_def)

lemma at_most_one_region:
  "at_most_one uc q kind (case r of None \<Rightarrow> [] | Some v \<Rightarrow> if b v then [gap_of uc kind severity reason q (suffix v) gain] else [])"
  using at_most_one_gap by (cases r) (simp_all only: option.case, simp add: at_most_one_def)

definition gaps_of_kinds :: "unicode \<Rightarrow> query \<Rightarrow> GapType list \<Rightarrow> gap list \<Rightarrow> bool" where
  "gaps_of_kinds uc q kinds gs \<longleftrightarrow> distinct (map gp_gap_type gs) \<and> gp_gap_type ` set gs \<subseteq> set kinds \<and>
     (\<forall>g\<in>set gs. \<exists>suffix. gp_recommended_query g = Some (recommended_query uc q suffix))"

lemma gaps_of_kinds_intros:
  "at_most_one uc q kind part \<Longrightarrow> gaps_of_kinds uc q [kind] part"
  "at_most_one uc q kind part \<Longrightarrow> gaps_of_kinds uc q kinds gs \<Longrightarrow> kind \<notin> set kinds \<Longrightarrow> gaps_of_kinds uc q (kind # kinds) (part @ gs)"
  unfolding at_most_one_def gaps_of_kinds_def by fastforce+

lemma detected_gaps_kinds:
  "gaps_of_kinds (gi_unicode gi) q
     [PrimarySource, Recency, GeographicDiversity, Documentation, Pdf, Code, Specification, SourceDiversity]
     (detected_gaps gi p q plan ds es)"
  unfolding detected_gaps_def Let_def
  by (intro gaps_of_kinds_intros at_most_one_gap at_most_one_region) simp_all

lemma detected_gaps_facts:
  "distinct (map gp_gap_type (detected_gaps gi p q plan ds es))"
  "g \<in> set (detected_gaps gi p q plan ds es) \<Longrightarrow> \<exists>suffix. gp_recommended_query g = Some (recommended_query (gi_unicode gi) q suffix)"
  using detected_gaps_kinds [of gi q p plan ds es] by (simp_all add: gaps_of_kinds_def)

lemma distinct_map_sort_take:
  assumes "distinct (map f xs)" shows "distinct (map f (take n (sort_key k (filter P xs))))"
proof -
  have "distinct (map f (sort_key k (filter P xs)))"
    using distinct_map_filter [OF assms] by (metis mset_eq_imp_distinct_iff mset_map mset_sort)
  then show ?thesis by (simp add: distinct_take take_map [symmetric])
qed


definition sample_gap_plan :: search_plan where
  "sample_gap_plan = fst (build_search_plan (lit ''now'') sample_query
     \<lparr> cl_schema_version = SCHEMA_VERSION, cl_primary_category = Cat_News, cl_secondary_categories = [], cl_confidence = Fin 0,
        cl_confidence_by_category = [], cl_reasons = [] \<rparr>
     \<lparr> rec_selected_providers = [], rec_provider_budget_requests = [], rec_debug_reasons = [] \<rparr> (budget_new 4 1000))"


end
