(* ===== verification/Crawl.thy ===== *)
theory Crawl
  imports Budget Cache Robots Fetch
begin

text \<open>
  The crawl of a Deep run, the loop of \<^verbatim>\<open>DeepOrchestrator::enrich\<close> in \<^verbatim>\<open>deep.rs\<close>: candidates are fetched under the Deep
  budget, links found on the way are queued and need the origin's consent, and every page becomes a document.
  The fetcher, extractor and renderer are trait objects and external processes: what they answer in an iteration
  is part of that iteration's environment, as are the clock and the success of cache transactions. The HTML
  parser is the function giving the \<^verbatim>\<open>href\<close> attributes of a body.
\<close>

section \<open>Data\<close>

datatype ExtractError = Ex_Unavailable | Ex_Timeout | Ex_OutputLimit | Ex_Failed | Ex_InvalidOutput

record extraction_result =
  xr_content :: rstr
  xr_format :: rstr
  xr_title :: "rstr option"
  xr_author :: "rstr option"
  xr_published_at :: "rstr option"
  xr_metadata :: "(rstr, rstr) btree_map"
  xr_extractor_used :: rstr
  xr_status :: rstr

datatype RenderError = Rn_Unavailable | Rn_Timeout | Rn_Blocked | Rn_Failed | Rn_AtCapacity

fun render_error_str :: "RenderError \<Rightarrow> string" where
  "render_error_str Rn_Unavailable = ''renderer_unavailable''"
| "render_error_str Rn_Timeout = ''renderer_timeout''"
| "render_error_str Rn_Blocked = ''renderer_blocked''"
| "render_error_str Rn_Failed = ''renderer_failed''"
| "render_error_str Rn_AtCapacity = ''renderer_at_capacity''"

fun cause_str :: "BudgetExhaustionCause \<Rightarrow> string" where
  "cause_str BudgetExhaustionCause.ProviderLimit = ''provider_limit''"
| "cause_str BudgetExhaustionCause.TimeExhausted = ''time_exhausted''"
| "cause_str BudgetExhaustionCause.DeadlineNear = ''deadline_near''"
| "cause_str BudgetExhaustionCause.FetchLimit = ''fetch_limit''"
| "cause_str BudgetExhaustionCause.ByteLimit = ''byte_limit''"
| "cause_str BudgetExhaustionCause.RedirectLimit = ''redirect_limit''"
| "cause_str BudgetExhaustionCause.BrowserLimit = ''browser_limit''"
| "cause_str BudgetExhaustionCause.CrawlLimit = ''crawl_limit''"
| "cause_str BudgetExhaustionCause.CostLimit = ''cost_limit''"
| "cause_str BudgetExhaustionCause.SubqueryLimit = ''subquery_limit''"

record deep_candidate =
  dk_result :: search_result
  dk_storage_rights :: bool

record deep_api =
  dx_hex_digest :: "nat list \<Rightarrow> rstr"
  dx_hrefs :: "nat list \<Rightarrow> rstr list"
  dx_url :: "url url_api"
  dx_links :: "url link_api"
  dx_origin :: "url origin_api"

record deep_config =
  dg_extractor_version :: rstr
  dg_renderer_available :: bool
  dg_cache :: "document_cache option"
  dg_timeout_ms :: u64
  dg_per_fetch_bytes :: u64
  dg_max_redirects :: u32
  dg_top_k :: nat
  dg_max_depth :: nat
  dg_request_id :: "rstr option"

record deep_step_env =
  sv_expired :: bool
  sv_robots_now :: i64
  sv_robots_reply :: "(u16 \<times> nat list) option"
  sv_wait_outlives :: "u64 \<Rightarrow> bool"
  sv_remaining_ms :: nat
  sv_latest_io :: bool
  sv_latest_now :: i64
  sv_fetch :: "url fetch_request \<Rightarrow> FetchError + url fetch_result"
  sv_get_io :: bool
  sv_get_now :: i64
  sv_extract :: "nat list \<Rightarrow> ExtractError + extraction_result"
  sv_render :: "nat list \<Rightarrow> RenderError + nat list"
  sv_extract_rendered :: "nat list \<Rightarrow> ExtractError + extraction_result"
  sv_put_io :: bool
  sv_put_now :: i64

text \<open>
  The state of the loop. \<open>st_fetches\<close> records every request handed to the fetcher, with its depth and the
  decision that let it through; the code keeps no such list.
\<close>

record deep_state =
  st_budget :: deep_budget
  st_cache :: document_cache_state
  st_robots :: "robots_cache option"
  st_queue :: "(deep_candidate \<times> nat) list"
  st_visited :: "rstr btree_set"
  st_ranks :: "(rstr, rank) btree_map"
  st_documents :: "document list"
  st_errors :: "composite_error list"
  st_degradations :: "degradation list"
  st_fetches :: "(url fetch_request \<times> nat \<times> RobotsDecision option) list"

section \<open>Helpers\<close>

definition default_headers :: "(rstr, rstr) btree_map" where
  "default_headers = [(lit ''accept'', lit ''text/html,application/xhtml+xml,text/plain;q=0.9''),
     (lit ''user-agent'', lit ''AMATL/0.1 (+safe-deep-fetch)'')]"

definition search_result_id :: "deep_api \<Rightarrow> search_result \<Rightarrow> rstr" where
  "search_result_id dx r = dx_hex_digest dx (as_bytes (sr_canonical_url r))"

definition deep_degradation :: "string \<Rightarrow> string \<Rightarrow> degradation" where
  "deep_degradation code message = \<lparr> deg_code = lit code, deg_component = lit ''deep'', deg_message = lit message \<rparr>"

fun fetch_code :: "FetchError \<Rightarrow> string" where
  "fetch_code EgressDenied = ''egress_denied''"
| "fetch_code (BlockedUrl _) = ''fetch_blocked''"
| "fetch_code AddressBlocked = ''fetch_blocked''"
| "fetch_code Fe_ByteLimit = ''byte_limit''"
| "fetch_code Fe_RedirectLimit = ''redirect_limit''"
| "fetch_code Fe_Timeout = ''fetch_timeout''"
| "fetch_code _ = ''fetch_failed''"

fun extract_code :: "ExtractError \<Rightarrow> string" where
  "extract_code Ex_Unavailable = ''extractor_unavailable''"
| "extract_code Ex_Timeout = ''extractor_timeout''"
| "extract_code _ = ''extractor_failed''"

definition fetch_error_of :: "search_result \<Rightarrow> FetchError \<Rightarrow> composite_error" where
  "fetch_error_of r e = \<lparr> ce_code = lit (fetch_code e), ce_message = lit ''Deep fetch failed for '' @ sr_domain r,
     ce_providers = sr_providers r, ce_recoverable = True \<rparr>"

text \<open>A body that is not UTF-8 has no links; that is part of \<open>dx_hrefs\<close>.\<close>

definition discover_links :: "deep_api \<Rightarrow> nat list \<Rightarrow> url \<Rightarrow> url list" where
  "discover_links dx body base =
     take 32 (filter (\<lambda>u. (url_scheme (dx_url dx) u = lit ''http'' \<or> url_scheme (dx_url dx) u = lit ''https'')
                \<and> url_host_str (dx_url dx) u = url_host_str (dx_url dx) base)
       (List.map_filter (lk_join (dx_links dx) base) (dx_hrefs dx body)))"

definition child_result :: "deep_api \<Rightarrow> search_result \<Rightarrow> url \<Rightarrow> search_result" where
  "child_result dx parent u =
     (let u = url_set_fragment (dx_url dx) None u
      in \<lparr> sr_schema_version = SCHEMA_VERSION, sr_rank = sr_rank parent, sr_title = None, sr_original_url = u,
           sr_canonical_url = u,
           sr_domain = (case url_host_str (dx_url dx) u of Some host \<Rightarrow> host | None \<Rightarrow> []),
           sr_snippet = None, sr_providers = sr_providers parent, sr_published_at = None, sr_status = sr_status parent \<rparr>)"

definition push_degradation :: "string \<Rightarrow> string \<Rightarrow> deep_state \<Rightarrow> deep_state" where
  "push_degradation code message st = st\<lparr> st_degradations := st_degradations st @ [deep_degradation code message] \<rparr>"

section \<open>One iteration\<close>

text \<open>Consent for a discovered link: whether to go on, and the decision.\<close>

definition robots_gate ::
    "deep_api \<Rightarrow> deep_step_env \<Rightarrow> deep_candidate \<Rightarrow> nat \<Rightarrow> deep_state \<Rightarrow> bool \<times> RobotsDecision option \<times> deep_state" where
  "robots_gate dx sv candidate depth st =
     (case st_robots st of
        Some robots \<Rightarrow>
          if 0 < depth then
            (let u = sr_canonical_url (dk_result candidate);
                 (decision, robots) = robots_cache_decide (origin_key (dx_origin dx) u) (path_and_query (dx_origin dx) u)
                   (sv_robots_now sv) (sv_robots_reply sv) robots;
                 st = st\<lparr> st_robots := Some robots \<rparr>
             in case decision of
                  Allowed delay \<Rightarrow>
                    if 0 < delay \<and> sv_wait_outlives sv delay
                    then (False, Some decision, push_degradation ''robots_crawl_delay_too_long''
                            ''Declared crawl delay exceeded the remaining Deep deadline'' st)
                    else (True, Some decision, st)
                | refusal \<Rightarrow> (False, Some decision, push_degradation (robots_decision_as_str refusal)
                    ''Discovered link was not crawled: the origin's robots.txt refused it or could not be read'' st))
          else (True, None, st)
      | None \<Rightarrow> (True, None, st))"

definition revalidation_headers :: "document option \<Rightarrow> (rstr, rstr) btree_map" where
  "revalidation_headers d =
     (case d of
        None \<Rightarrow> default_headers
      | Some d \<Rightarrow>
          (let h = (case bt_get (dc_metadata d) (lit ''http_etag'') of
                      None \<Rightarrow> default_headers | Some etag \<Rightarrow> bt_insert (lit ''if-none-match'') etag default_headers)
           in case bt_get (dc_metadata d) (lit ''http_last_modified'') of
                None \<Rightarrow> h | Some v \<Rightarrow> bt_insert (lit ''if-modified-since'') v h))"

definition latest_document :: "deep_config \<Rightarrow> deep_step_env \<Rightarrow> deep_candidate \<Rightarrow> deep_state \<Rightarrow> document option \<times> deep_state" where
  "latest_document dg sv candidate st =
     (case dg_cache dg of
        None \<Rightarrow> (None, st)
      | Some cache \<Rightarrow>
          (let (d, cs) = document_latest cache (sv_latest_io sv) (sv_latest_now sv) (sr_canonical_url (dk_result candidate))
                 (dg_extractor_version dg) (st_cache st)
           in (case d of Some d \<Rightarrow> if dc_content d \<noteq> None then Some d else None | None \<Rightarrow> None, st\<lparr> st_cache := cs \<rparr>)))"

definition deep_fetch_request ::
    "deep_config \<Rightarrow> deep_step_env \<Rightarrow> deep_candidate \<Rightarrow> u64 \<Rightarrow> document option \<Rightarrow> deep_state \<Rightarrow> url fetch_request" where
  "deep_fetch_request dg sv candidate remaining revalidation st =
     \<lparr> fq_url = sr_canonical_url (dk_result candidate),
       fq_timeout_ms = of_nat (min (sv_remaining_ms sv) (unat (dg_timeout_ms dg))),
       fq_max_bytes = min remaining (dg_per_fetch_bytes dg),
       fq_max_redirects = min (remaining_redirects (db_snapshot (st_budget st))) (dg_max_redirects dg),
       fq_headers = revalidation_headers revalidation, fq_request_id = dg_request_id dg \<rparr>"

definition released_error :: "FetchError \<Rightarrow> bool" where
  "released_error e \<longleftrightarrow> (case e of EgressDenied \<Rightarrow> True | BlockedUrl _ \<Rightarrow> True | AddressBlocked \<Rightarrow> True | HeaderBlocked \<Rightarrow> True | _ \<Rightarrow> False)"

text \<open>Extraction, with the renderer as a second try: the result, how the bytes were obtained, their size and hash.\<close>

definition extract_page ::
    "deep_api \<Rightarrow> deep_config \<Rightarrow> deep_step_env \<Rightarrow> url fetch_result \<Rightarrow> deep_state
     \<Rightarrow> ((ExtractError + extraction_result) \<times> FetchMethod \<times> u64 \<times> rstr) \<times> deep_state" where
  "extract_page dx dg sv fetched st =
     (let extraction = sv_extract sv (fr_body fetched);
          plain = (extraction, Http, fr_size fetched, dx_hex_digest dx (fr_body fetched))
      in if is_ok extraction \<or> \<not> dg_renderer_available dg then (plain, st)
         else case reserve_browser (st_budget st) of
             (Err cause, _) \<Rightarrow> (plain, push_degradation (cause_str cause) ''Browser budget exhausted'' st)
           | (Ok _, budget) \<Rightarrow>
               (let st = st\<lparr> st_budget := budget \<rparr>
                in case sv_render sv (fr_body fetched) of
                     Ok rendered \<Rightarrow>
                       (case consume_fetch budget (of_nat (length rendered)) 0 of
                          (Ok _, budget) \<Rightarrow> ((sv_extract_rendered sv rendered, Rendered, of_nat (length rendered), dx_hex_digest dx rendered),
                             st\<lparr> st_budget := budget \<rparr>)
                        | (Err _, _) \<Rightarrow> (plain, push_degradation ''renderer_blocked''
                             ''Rendered output exceeded the remaining Deep budget'' st))
                   | Err e \<Rightarrow>
                       (plain, push_degradation (render_error_str e) ''Optional renderer failed; the superficial Document is retained''
                          (if e = Rn_Unavailable then st\<lparr> st_budget := release_browser budget \<rparr> else st))))"

definition insert_opt :: "rstr \<Rightarrow> rstr option \<Rightarrow> (rstr, rstr) btree_map \<Rightarrow> (rstr, rstr) btree_map" where
  "insert_opt k v m = (case v of None \<Rightarrow> m | Some x \<Rightarrow> bt_insert k x m)"

definition page_metadata :: "url fetch_result \<Rightarrow> search_result \<Rightarrow> (rstr, rstr) btree_map \<Rightarrow> (rstr, rstr) btree_map" where
  "page_metadata fetched r m =
     bt_insert (lit ''search_providers'') (join_with [44] (sr_providers r))
       (insert_opt (lit ''http_last_modified'') (map_of (fr_headers_safe fetched) (lit ''last-modified''))
          (insert_opt (lit ''http_etag'') (map_of (fr_headers_safe fetched) (lit ''etag'')) m))"

definition page_document ::
    "deep_api \<Rightarrow> search_result \<Rightarrow> url fetch_result \<Rightarrow> (ExtractError + extraction_result) \<times> FetchMethod \<times> u64 \<times> rstr \<Rightarrow> document" where
  "page_document dx r fetched page =
     (case page of (extraction, method, sz, content_hash) \<Rightarrow>
        \<lparr> dc_schema_version = SCHEMA_VERSION, dc_search_result_id = search_result_id dx r, dc_original_url = sr_original_url r,
          dc_canonical_url = sr_canonical_url r, dc_final_url = fr_final_url fetched, dc_content_hash = content_hash,
          dc_fetch_method = method,
          dc_extractor_used = (case extraction of Ok x \<Rightarrow> Some (xr_extractor_used x) | Err _ \<Rightarrow> None),
          dc_content_type = fr_content_type fetched, dc_size = sz, dc_retrieved_at = fr_retrieved_at fetched,
          dc_status = (case extraction of Ok _ \<Rightarrow> Enriched | Err _ \<Rightarrow> Superficial),
          dc_content = (case extraction of Ok x \<Rightarrow> Some (xr_content x) | Err _ \<Rightarrow> None),
          dc_title = (case extraction of Ok x \<Rightarrow> xr_title x | Err _ \<Rightarrow> sr_title r),
          dc_author = (case extraction of Ok x \<Rightarrow> xr_author x | Err _ \<Rightarrow> None),
          dc_published_at = (case extraction of Ok x \<Rightarrow> xr_published_at x | Err _ \<Rightarrow> sr_published_at r),
          dc_metadata = page_metadata fetched r (case extraction of Ok x \<Rightarrow> xr_metadata x | Err _ \<Rightarrow> bt_empty) \<rparr>)"

definition enqueue_link :: "deep_api \<Rightarrow> deep_candidate \<Rightarrow> nat \<Rightarrow> deep_state \<Rightarrow> url \<Rightarrow> deep_state" where
  "enqueue_link dx candidate depth st link =
     (if link \<in> set (st_visited st) then st
      else let child = child_result dx (dk_result candidate) link
           in st\<lparr> st_visited := bs_insert link (st_visited st),
                  st_ranks := bt_insert (search_result_id dx child) (sr_rank child) (st_ranks st),
                  st_queue := st_queue st @ [(\<lparr> dk_result = child, dk_storage_rights = dk_storage_rights candidate \<rparr>, depth + 1)] \<rparr>)"

definition store_page :: "deep_config \<Rightarrow> deep_step_env \<Rightarrow> deep_candidate \<Rightarrow> document \<Rightarrow> deep_state \<Rightarrow> deep_state" where
  "store_page dg sv candidate d st =
     (case dg_cache dg of
        None \<Rightarrow> st
      | Some cache \<Rightarrow>
          (let (stored, cs) = document_put cache (sv_put_io sv) (sv_put_now sv) d (dg_extractor_version dg)
                 (dk_storage_rights candidate) None None (st_cache st);
               st = st\<lparr> st_cache := cs \<rparr>
           in if \<not> stored \<and> dk_storage_rights candidate
              then push_degradation ''document_cache_write_failed''
                     ''Document cache write was skipped or failed; current Document is unaffected'' st
              else st))"

text \<open>A page that was fetched and is neither a 304 nor known to the cache.\<close>

definition new_page ::
    "deep_api \<Rightarrow> deep_config \<Rightarrow> deep_step_env \<Rightarrow> deep_candidate \<Rightarrow> nat \<Rightarrow> url fetch_result \<Rightarrow> deep_state \<Rightarrow> deep_state" where
  "new_page dx dg sv candidate depth fetched st =
     (let (page, st) = extract_page dx dg sv fetched st;
          st = (case fst page of Ok _ \<Rightarrow> st
                | Err e \<Rightarrow> push_degradation (extract_code e)
                    ''Advanced extraction is unavailable; a superficial Document was retained'' st);
          d = page_document dx (dk_result candidate) fetched page;
          st = (if depth < dg_max_depth dg
                then foldl (enqueue_link dx candidate depth) st (discover_links dx (fr_body fetched) (dc_final_url d)) else st);
          st = store_page dg sv candidate d st
      in st\<lparr> st_documents := st_documents st @ [d] \<rparr>)"

definition cached_page ::
    "deep_api \<Rightarrow> deep_config \<Rightarrow> deep_step_env \<Rightarrow> deep_candidate \<Rightarrow> url fetch_result \<Rightarrow> deep_state \<Rightarrow> document option \<times> deep_state" where
  "cached_page dx dg sv candidate fetched st =
     (case dg_cache dg of
        None \<Rightarrow> (None, st)
      | Some cache \<Rightarrow>
          (let (d, cs) = document_get cache (sv_get_io sv) (sv_get_now sv) (sr_canonical_url (dk_result candidate))
                 (dx_hex_digest dx (fr_body fetched)) (dg_extractor_version dg) (st_cache st)
           in (case d of Some d \<Rightarrow> if dc_content d \<noteq> None then Some d else None | None \<Rightarrow> None, st\<lparr> st_cache := cs \<rparr>)))"

definition fetched_page ::
    "deep_api \<Rightarrow> deep_config \<Rightarrow> deep_step_env \<Rightarrow> deep_candidate \<Rightarrow> nat \<Rightarrow> document option \<Rightarrow> url fetch_result \<Rightarrow> deep_state \<Rightarrow> deep_state" where
  "fetched_page dx dg sv candidate depth revalidation fetched st =
     (case consume_fetch (st_budget st) (fr_size fetched) (of_nat (length (fr_redirect_chain fetched))) of
        (Err cause, _) \<Rightarrow> push_degradation (cause_str cause) ''Fetch result exceeded remaining Deep budget'' st
      | (Ok _, budget) \<Rightarrow>
          (let st = st\<lparr> st_budget := budget \<rparr>
           in if fr_status fetched = 304 then
                (case revalidation of
                   Some d \<Rightarrow> st\<lparr> st_documents := st_documents st @
                     [d\<lparr> dc_final_url := fr_final_url fetched, dc_retrieved_at := fr_retrieved_at fetched \<rparr>] \<rparr>
                 | None \<Rightarrow> push_degradation ''unexpected_not_modified'' ''Origin returned 304 without a reusable cached Document'' st)
              else case cached_page dx dg sv candidate fetched st of
                  (Some d, st) \<Rightarrow> st\<lparr> st_documents := st_documents st @ [d] \<rparr>
                | (None, st) \<Rightarrow> new_page dx dg sv candidate depth fetched st))"

text \<open>The body of the loop for the candidate just taken, and whether it ends with \<open>break\<close>.\<close>

datatype deep_control = Continue deep_state | Break deep_state

definition deep_step ::
    "deep_api \<Rightarrow> deep_config \<Rightarrow> deep_step_env \<Rightarrow> deep_candidate \<times> nat \<Rightarrow> deep_state \<Rightarrow> deep_control" where
  "deep_step dx dg sv entry st =
     (case entry of (candidate, depth) \<Rightarrow>
        if sv_expired sv then Break (push_degradation ''time_exhausted'' ''Deep global deadline was exhausted'' st)
        else case robots_gate dx sv candidate depth st of
            (False, _, st) \<Rightarrow> Continue st
          | (True, decision, st) \<Rightarrow>
              (case reserve_fetch (st_budget st) of
                 (Err cause, _) \<Rightarrow> Break (push_degradation (cause_str cause) ''Deep resource budget exhausted'' st)
               | (Ok remaining, budget) \<Rightarrow>
                   (let st = st\<lparr> st_budget := budget \<rparr>;
                        (revalidation, st) = latest_document dg sv candidate st;
                        request = deep_fetch_request dg sv candidate remaining revalidation st;
                        st = st\<lparr> st_fetches := st_fetches st @ [(request, depth, decision)] \<rparr>
                    in case sv_fetch sv request of
                         Err e \<Rightarrow>
                           (let st = (if released_error e then st\<lparr> st_budget := release_fetch (st_budget st) \<rparr> else st);
                                st = st\<lparr> st_errors := st_errors st @ [fetch_error_of (dk_result candidate) e] \<rparr>
                            in Continue (push_degradation (fetch_code e) ''Fetch failed; the SearchResult remains valid'' st))
                       | Ok fetched \<Rightarrow> Continue (fetched_page dx dg sv candidate depth revalidation fetched st))))"


section \<open>The loop\<close>

text \<open>What a page that was fetched changes of the state, and what it leaves alone.\<close>

definition fetches_left :: "deep_state \<Rightarrow> nat" where
  "fetches_left st = unat (remaining_fetches (db_snapshot (st_budget st)))"

definition outcomes :: "deep_state \<Rightarrow> nat" where
  "outcomes st = length (st_documents st) + length (st_degradations st)"

lemma push_degradation_simps [simp]:
  "st_budget (push_degradation c m st) = st_budget st" "st_queue (push_degradation c m st) = st_queue st"
  "st_robots (push_degradation c m st) = st_robots st" "st_fetches (push_degradation c m st) = st_fetches st"
  "st_documents (push_degradation c m st) = st_documents st"
  "st_degradations (push_degradation c m st) = st_degradations st @ [deep_degradation c m]"
  by (simp_all add: push_degradation_def)

lemma consume_fetch_fetches:
  "consume_fetch b n r = (x, b') \<Longrightarrow> remaining_fetches (db_snapshot b') = remaining_fetches (db_snapshot b)"
  by (auto simp: consume_fetch_def Let_def split: if_splits)

lemma reserve_browser_fetches:
  "reserve_browser b = (x, b') \<Longrightarrow> remaining_fetches (db_snapshot b') = remaining_fetches (db_snapshot b)"
  by (auto simp: reserve_browser_def Let_def split: if_splits)

lemma release_browser_fetches [simp]: "remaining_fetches (db_snapshot (release_browser b)) = remaining_fetches (db_snapshot b)"
  by (simp add: release_browser_def Let_def)

lemma extract_page_frame:
  "extract_page dx dg sv fetched st = (page, st') \<Longrightarrow>
     fetches_left st' = fetches_left st \<and> st_queue st' = st_queue st \<and> st_robots st' = st_robots st
   \<and> st_fetches st' = st_fetches st \<and> st_documents st' = st_documents st
   \<and> length (st_degradations st) \<le> length (st_degradations st')"
  by (auto simp: extract_page_def Let_def fetches_left_def split: if_splits prod.splits sum.splits
        dest!: consume_fetch_fetches reserve_browser_fetches)

lemma enqueue_links_frame:
  "fetches_left (foldl (enqueue_link dx candidate depth) st links) = fetches_left st
   \<and> st_robots (foldl (enqueue_link dx candidate depth) st links) = st_robots st
   \<and> st_fetches (foldl (enqueue_link dx candidate depth) st links) = st_fetches st
   \<and> st_documents (foldl (enqueue_link dx candidate depth) st links) = st_documents st
   \<and> st_degradations (foldl (enqueue_link dx candidate depth) st links) = st_degradations st"
  by (induction links arbitrary: st) (simp_all add: enqueue_link_def Let_def fetches_left_def)

lemma store_page_frame:
  "fetches_left (store_page dg sv candidate d st) = fetches_left st
   \<and> st_queue (store_page dg sv candidate d st) = st_queue st
   \<and> st_robots (store_page dg sv candidate d st) = st_robots st
   \<and> st_fetches (store_page dg sv candidate d st) = st_fetches st
   \<and> st_documents (store_page dg sv candidate d st) = st_documents st
   \<and> length (st_degradations st) \<le> length (st_degradations (store_page dg sv candidate d st))"
  by (simp add: store_page_def Let_def fetches_left_def split: option.split prod.split)


text \<open>The links a page adds to the queue: the discovered ones not visited before, each once.\<close>

fun unvisited :: "url btree_set \<Rightarrow> url list \<Rightarrow> url list" where
  "unvisited v [] = []"
| "unvisited v (x # xs) = (if x \<in> set v then unvisited v xs else x # unvisited (bs_insert x v) xs)"

definition child_entry :: "deep_api \<Rightarrow> deep_candidate \<Rightarrow> nat \<Rightarrow> url \<Rightarrow> deep_candidate \<times> nat" where
  "child_entry dx candidate depth link =
     (\<lparr> dk_result = child_result dx (dk_result candidate) link, dk_storage_rights = dk_storage_rights candidate \<rparr>, depth + 1)"

lemma unvisited_props: "set (unvisited v xs) = set xs - set v \<and> distinct (unvisited v xs) \<and> length (unvisited v xs) \<le> length xs"
proof (induction v xs rule: unvisited.induct)
  case (2 v x xs)
  then show ?case by (cases "x \<in> set v") auto
qed simp

lemma enqueue_links_queue:
  "st_queue (foldl (enqueue_link dx candidate depth) st links)
     = st_queue st @ map (child_entry dx candidate depth) (unvisited (st_visited st) links)"
proof (induction links arbitrary: st)
  case (Cons link links)
  then show ?case
    by (cases "link \<in> set (st_visited st)") (simp_all add: enqueue_link_def Let_def child_entry_def)
qed simp

definition page_links :: "deep_api \<Rightarrow> deep_config \<Rightarrow> nat \<Rightarrow> url fetch_result \<Rightarrow> deep_state \<Rightarrow> url list" where
  "page_links dx dg depth fetched st =
     (if depth < dg_max_depth dg then unvisited (st_visited st) (discover_links dx (fr_body fetched) (fr_final_url fetched)) else [])"

lemma extract_page_visited: "extract_page dx dg sv fetched st = (page, st') \<Longrightarrow> st_visited st' = st_visited st"
  by (auto simp: extract_page_def Let_def push_degradation_def split: if_splits prod.splits sum.splits)

lemma new_page_frame:
  "fetches_left (new_page dx dg sv candidate depth fetched st) = fetches_left st
   \<and> st_robots (new_page dx dg sv candidate depth fetched st) = st_robots st
   \<and> st_fetches (new_page dx dg sv candidate depth fetched st) = st_fetches st
   \<and> length (st_documents (new_page dx dg sv candidate depth fetched st)) = Suc (length (st_documents st))
   \<and> length (st_degradations st) \<le> length (st_degradations (new_page dx dg sv candidate depth fetched st))
   \<and> st_queue (new_page dx dg sv candidate depth fetched st)
       = st_queue st @ map (child_entry dx candidate depth) (page_links dx dg depth fetched st)"
proof -
  obtain page st1 where page: "extract_page dx dg sv fetched st = (page, st1)" by fastforce
  define st2 where "st2 = (case fst page of Ok _ \<Rightarrow> st1
     | Err e \<Rightarrow> push_degradation (extract_code e) ''Advanced extraction is unavailable; a superficial Document was retained'' st1)"
  define d where "d = page_document dx (dk_result candidate) fetched page"
  define st3 where "st3 = (if depth < dg_max_depth dg
     then foldl (enqueue_link dx candidate depth) st2 (discover_links dx (fr_body fetched) (dc_final_url d)) else st2)"
  have new: "new_page dx dg sv candidate depth fetched st
      = (store_page dg sv candidate d st3)\<lparr> st_documents := st_documents (store_page dg sv candidate d st3) @ [d] \<rparr>"
    by (simp add: new_page_def page st2_def [symmetric] d_def [symmetric] Let_def st3_def)
  have "st_visited st2 = st_visited st" "fetches_left st2 = fetches_left st" "st_queue st2 = st_queue st"
     "st_robots st2 = st_robots st" "st_fetches st2 = st_fetches st" "st_documents st2 = st_documents st"
     "length (st_degradations st) \<le> length (st_degradations st2)"
    using extract_page_frame [OF page] extract_page_visited [OF page]
    by (auto simp: st2_def fetches_left_def push_degradation_def split: sum.split)
  moreover have "dc_final_url d = fr_final_url fetched"
    by (simp add: d_def page_document_def split: prod.split)
  ultimately have "fetches_left st3 = fetches_left st \<and> st_robots st3 = st_robots st \<and> st_fetches st3 = st_fetches st
      \<and> st_documents st3 = st_documents st \<and> length (st_degradations st) \<le> length (st_degradations st3)
      \<and> st_queue st3 = st_queue st @ map (child_entry dx candidate depth) (page_links dx dg depth fetched st)"
    using enqueue_links_frame [of dx candidate depth st2] enqueue_links_queue [of dx candidate depth st2]
    by (simp add: st3_def page_links_def)
  with store_page_frame [of dg sv candidate d st3] show ?thesis
    by (auto simp: new fetches_left_def)
qed


lemma fetched_page_frame:
  assumes "st' = fetched_page dx dg sv candidate depth revalidation fetched st"
  shows "fetches_left st' = fetches_left st \<and> st_robots st' = st_robots st \<and> st_fetches st' = st_fetches st
   \<and> length (st_documents st') \<le> Suc (length (st_documents st)) \<and> outcomes st < outcomes st'
   \<and> (\<exists>links. st_queue st' = st_queue st @ map (child_entry dx candidate depth) links \<and> (links = [] \<or> depth < dg_max_depth dg))"
proof -
  obtain r b where b: "consume_fetch (st_budget st) (fr_size fetched) (of_nat (length (fr_redirect_chain fetched))) = (r, b)"
    by fastforce
  note left = consume_fetch_fetches [OF b]
  consider e where "r = Err e" | "r = Ok ()" "fr_status fetched = 304" | "r = Ok ()" "fr_status fetched \<noteq> 304"
    by (cases r) auto
  then show ?thesis
  proof cases
    case 1
    then show ?thesis by (simp add: assms b fetched_page_def fetches_left_def outcomes_def)
  next
    case 2
    then show ?thesis
      using left by (auto simp: assms b fetched_page_def fetches_left_def outcomes_def Let_def split: option.split)
  next
    case 3
    obtain d st1 where page: "cached_page dx dg sv candidate fetched (st\<lparr> st_budget := b \<rparr>) = (d, st1)" by fastforce
    have st1: "fetches_left st1 = fetches_left st" "st_robots st1 = st_robots st" "st_fetches st1 = st_fetches st"
        "st_documents st1 = st_documents st" "st_degradations st1 = st_degradations st" "st_queue st1 = st_queue st"
      using page left
      by (auto simp: cached_page_def fetches_left_def Let_def split: option.splits prod.splits)
    show ?thesis
    proof (cases d)
      case None
      then have new: "st' = new_page dx dg sv candidate depth fetched st1"
        using assms b page 3 by (simp add: fetched_page_def)
      show ?thesis unfolding new
        using new_page_frame [of dx dg sv candidate depth fetched st1] st1
        by (auto simp: outcomes_def page_links_def)
    next
      case (Some doc)
      then show ?thesis
        using assms b page 3 st1 by (simp add: fetched_page_def outcomes_def fetches_left_def)
    qed
  qed
qed

lemma robots_gate_frame:
  assumes "robots_gate dx sv candidate depth st = (go, decision, st')"
  shows "st_budget st' = st_budget st \<and> st_fetches st' = st_fetches st \<and> st_queue st' = st_queue st
    \<and> st_documents st' = st_documents st \<and> (st_robots st' = None \<longleftrightarrow> st_robots st = None)
    \<and> outcomes st + (if go then 0 else 1) = outcomes st'
    \<and> (go \<and> 0 < depth \<and> st_robots st \<noteq> None \<longrightarrow> (\<exists>delay. decision = Some (Allowed delay)))"
  using assms
  by (auto simp: robots_gate_def outcomes_def Let_def split: option.splits if_splits prod.splits RobotsDecision.splits)

lemma latest_document_frame:
  assumes "latest_document dg sv candidate st = (d, st')"
  shows "\<exists>cs. st' = st\<lparr> st_cache := cs \<rparr>"
  using assms by (auto simp: latest_document_def Let_def split: option.splits prod.splits intro: exI [of _ "st_cache st"])

lemma reserve_fetch_left:
  "reserve_fetch b = (Ok m, b') \<Longrightarrow> Suc (unat (remaining_fetches (db_snapshot b'))) = unat (remaining_fetches (db_snapshot b)) \<and>
    m = remaining_bytes (db_snapshot b)"
  by (auto simp: reserve_fetch_def Let_def rust_int split: if_splits) (metis Suc_pred unat_gt_0)

lemma release_fetch_left: "unat (remaining_fetches (db_snapshot (release_fetch b))) \<le> Suc (unat (remaining_fetches (db_snapshot b)))"
  using deep_apply_fetch_count [of ReleaseFetch b] by simp


text \<open>What the invariants need to know of a step: a fetch that was let through is recorded; the queue only grows when a fetch was used up.\<close>

definition request_ok :: "deep_config \<Rightarrow> bool \<Rightarrow> url fetch_request \<times> nat \<times> RobotsDecision option \<Rightarrow> bool" where
  "request_ok dg robots f \<longleftrightarrow> (case f of (request, depth, decision) \<Rightarrow>
     depth \<le> dg_max_depth dg \<and> (robots \<and> 0 < depth \<longrightarrow> (\<exists>delay. decision = Some (Allowed delay))) \<and>
     validate_headers (fq_headers request) = Ok () \<and> fq_max_bytes request \<le> dg_per_fetch_bytes dg \<and>
     fq_max_redirects request \<le> dg_max_redirects dg \<and> fq_timeout_ms request \<le> dg_timeout_ms dg)"

definition step_ok :: "deep_config \<Rightarrow> deep_candidate \<Rightarrow> nat \<Rightarrow> deep_state \<Rightarrow> deep_state \<Rightarrow> bool" where
  "step_ok dg candidate depth st st' \<longleftrightarrow>
     (st_robots st' = None \<longleftrightarrow> st_robots st = None) \<and> outcomes st < outcomes st' \<and>
     (\<exists>fs. st_fetches st' = st_fetches st @ fs \<and> length fs \<le> 1 \<and>
       (depth \<le> dg_max_depth dg \<longrightarrow> list_all (request_ok dg (st_robots st \<noteq> None)) fs) \<and>
       list_all (\<lambda>(request, d, _). fq_url request = sr_canonical_url (dk_result candidate) \<and> d = depth) fs) \<and>
     fetches_left st' + (length (st_documents st') - length (st_documents st)) \<le> fetches_left st \<and>
     length (st_documents st) \<le> length (st_documents st') \<and>
     (\<exists>more_queue. st_queue st' = st_queue st @ more_queue \<and> (more_queue = [] \<or> fetches_left st' < fetches_left st) \<and>
       list_all (\<lambda>(_, d). d = Suc depth \<and> d \<le> dg_max_depth dg) more_queue)"

lemma lit_headers_allowed:
  "to_ascii_lowercase (lit h) \<in> set (map lit ALLOWED_HEADERS)"
  if "h \<in> {''accept'', ''user-agent'', ''if-none-match'', ''if-modified-since''}"
  using that by (auto simp: ALLOWED_HEADERS_def to_ascii_lowercase_def ascii_lower_def is_ascii_upper_def)

lemma revalidation_headers_valid: "validate_headers (revalidation_headers d) = Ok ()"
proof -
  have default: "fst ` set default_headers = lit ` {''accept'', ''user-agent''}"
    by (simp add: default_headers_def del: lit_simps)
  have ins: "fst ` set (bt_insert k v m) = insert k (fst ` set m)" for k v :: rstr and m
    using bt_insert_keys [of k v m] by simp
  have gen: "fst ` set (case d of None \<Rightarrow> D | Some d \<Rightarrow>
      (let h = (case f d of None \<Rightarrow> D | Some e \<Rightarrow> bt_insert k1 e D) in case g d of None \<Rightarrow> h | Some v \<Rightarrow> bt_insert k2 v h))
      \<subseteq> fst ` set D \<union> {k1, k2}" for D :: "(rstr, rstr) btree_map" and f g :: "document \<Rightarrow> rstr option" and k1 k2
    by (cases d; cases "f (the d)"; cases "g (the d)") (simp_all add: ins Let_def subset_insertI2)
  define H where "H = lit ` {''accept'', ''user-agent''} \<union> {lit ''if-none-match'', lit ''if-modified-since''}"
  have keys: "fst ` set (revalidation_headers d) \<subseteq> H"
    unfolding revalidation_headers_def H_def default [symmetric] by (rule gen)
  have H: "H = lit ` {''accept'', ''user-agent'', ''if-none-match'', ''if-modified-since''}"
    unfolding H_def by (simp only: image_insert image_empty Un_insert_left Un_empty_left)
  have allowed: "to_ascii_lowercase x \<in> set (map lit ALLOWED_HEADERS)" if "x \<in> H" for x
    using that unfolding H by (rule imageE) (simp only: lit_headers_allowed)
  have "to_ascii_lowercase (fst x) \<in> set (map lit ALLOWED_HEADERS)" if "x \<in> set (revalidation_headers d)" for x
    by (rule allowed) (use keys that in blast)
  then show ?thesis by (auto simp: validate_headers_def list_all_iff simp del: set_map)
qed


lemma fetched_page_documents: "length (st_documents st) \<le> length (st_documents (fetched_page dx dg sv candidate depth revalidation fetched st))"
proof -
  have "st_documents st1 = st_documents st" if "cached_page dx dg sv candidate fetched (st\<lparr> st_budget := b \<rparr>) = (d, st1)" for b d st1
    using that by (auto simp: cached_page_def Let_def split: option.splits prod.splits)
  then show ?thesis
    using new_page_frame [of dx dg sv candidate depth fetched]
    by (auto simp: fetched_page_def Let_def split: option.split prod.split sum.split)
qed

lemma deep_fetch_request_ok:
  assumes "depth \<le> dg_max_depth dg" "robots \<and> 0 < depth \<longrightarrow> (\<exists>delay. decision = Some (Allowed delay))"
  shows "request_ok dg robots (deep_fetch_request dg sv candidate remaining revalidation st, depth, decision)"
proof -
  have "unat (of_nat (min n (unat (dg_timeout_ms dg))) :: u64) \<le> unat (dg_timeout_ms dg)" for n
    by (rule order_trans [OF _ min.cobounded2 [of n]]) (simp only: unat_of_nat mod_less_eq_dividend)
  then have "(of_nat (min n (unat (dg_timeout_ms dg))) :: u64) \<le> dg_timeout_ms dg" for n
    by (simp only: word_le_nat_alt)
  then show ?thesis
    using assms by (simp add: request_ok_def deep_fetch_request_def revalidation_headers_valid)
qed

lemma fetch_step_ok:
  assumes "reserve_fetch (st_budget st) = (Ok remaining, budget)"
    and "latest_document dg sv candidate (st\<lparr> st_budget := budget \<rparr>) = (revalidation, st1)"
    and "request = deep_fetch_request dg sv candidate remaining revalidation st1"
    and "st2 = st1\<lparr> st_fetches := st_fetches st1 @ [(request, depth, decision)] \<rparr>"
    and "st_robots st \<noteq> None \<and> 0 < depth \<longrightarrow> (\<exists>delay. decision = Some (Allowed delay))"
  shows "step_ok dg candidate depth st (fetched_page dx dg sv candidate depth revalidation fetched st2)"
    and "st3 = (if released_error e then st2\<lparr> st_budget := release_fetch (st_budget st2) \<rparr> else st2) \<Longrightarrow>
      step_ok dg candidate depth st (push_degradation code message (st3\<lparr> st_errors := errors \<rparr>))"
proof -
  obtain cs where st1: "st1 = st\<lparr> st_budget := budget, st_cache := cs \<rparr>"
    using latest_document_frame [OF assms(2)] by auto
  note left = reserve_fetch_left [OF assms(1)]
  have st2: "st_robots st2 = st_robots st" "st_queue st2 = st_queue st" "st_documents st2 = st_documents st"
    "st_degradations st2 = st_degradations st" "st_fetches st2 = st_fetches st @ [(request, depth, decision)]"
    "Suc (fetches_left st2) = fetches_left st" "st_budget st2 = budget" "outcomes st2 = outcomes st"
    using left by (simp_all add: assms(4) st1 fetches_left_def outcomes_def)
  have ok: "depth \<le> dg_max_depth dg \<Longrightarrow> request_ok dg (st_robots st \<noteq> None) (request, depth, decision)"
    unfolding assms(3) by (rule deep_fetch_request_ok) (use assms(5) in auto)
  have url: "fq_url request = sr_canonical_url (dk_result candidate)"
    by (simp add: assms(3) deep_fetch_request_def)
  have fs: "list_all (request_ok dg (st_robots st \<noteq> None)) [(request, depth, decision)]" if "depth \<le> dg_max_depth dg"
    using ok that by simp
  define st' where "st' = fetched_page dx dg sv candidate depth revalidation fetched st2"
  note frame = fetched_page_frame [OF st'_def]
  from frame obtain links where links: "st_queue st' = st_queue st @ map (child_entry dx candidate depth) links"
    "links = [] \<or> depth < dg_max_depth dg" using st2 by auto
  have "length (st_documents st2) \<le> length (st_documents st')"
    unfolding st'_def by (rule fetched_page_documents)
  with frame links st2 fs url show "step_ok dg candidate depth st (fetched_page dx dg sv candidate depth revalidation fetched st2)"
    unfolding st'_def [symmetric] step_ok_def
    by (auto simp: child_entry_def list_all_iff)
  show "step_ok dg candidate depth st (push_degradation code message (st3\<lparr> st_errors := errors \<rparr>))"
    if "st3 = (if released_error e then st2\<lparr> st_budget := release_fetch (st_budget st2) \<rparr> else st2)"
    using release_fetch_left [of budget] st2 fs url that
    by (auto simp: step_ok_def outcomes_def fetches_left_def)
qed


lemma deep_step_ok:
  assumes "deep_step dx dg sv (candidate, depth) st = c"
  shows "case c of Continue st' \<Rightarrow> step_ok dg candidate depth st st'
    | Break st' \<Rightarrow> step_ok dg candidate depth st st' \<and> st_fetches st' = st_fetches st \<and> st_documents st' = st_documents st"
proof (cases "sv_expired sv")
  case True
  then show ?thesis using assms
    by (auto simp: deep_step_def step_ok_def outcomes_def fetches_left_def)
next
  case False
  obtain go decision st1 where gate: "robots_gate dx sv candidate depth st = (go, decision, st1)" by (metis prod.exhaust)
  note frame = robots_gate_frame [OF gate]
  obtain r budget where reserve: "reserve_fetch (st_budget st1) = (r, budget)" by fastforce
  have via: "step_ok dg candidate depth st st'" if "step_ok dg candidate depth st1 st'" for st'
    using that frame by (auto simp: step_ok_def fetches_left_def split: if_splits)
  consider "\<not> go" | e where "go" "r = Err e" | remaining where "go" "r = Ok remaining" by (cases r) auto
  then show ?thesis
  proof cases
    case 1
    then show ?thesis using assms False gate frame
      by (auto simp: deep_step_def step_ok_def fetches_left_def)
  next
    case 2
    then show ?thesis using assms False gate frame reserve
      by (auto simp: deep_step_def step_ok_def outcomes_def fetches_left_def)
  next
    case 3
    obtain revalidation st2 where latest: "latest_document dg sv candidate (st1\<lparr> st_budget := budget \<rparr>) = (revalidation, st2)"
      by fastforce
    define request where "request = deep_fetch_request dg sv candidate remaining revalidation st2"
    define st3 where "st3 = st2\<lparr> st_fetches := st_fetches st2 @ [(request, depth, decision)] \<rparr>"
    have allowed: "st_robots st1 \<noteq> None \<and> 0 < depth \<longrightarrow> (\<exists>delay. decision = Some (Allowed delay))"
      using frame 3 by simp
    note ok = fetch_step_ok [OF reserve [unfolded 3] latest request_def st3_def allowed]
    show ?thesis
    proof (cases "sv_fetch sv request")
      case (Inl e)
      then have "c = Continue (push_degradation (fetch_code e) ''Fetch failed; the SearchResult remains valid''
          ((if released_error e then st3\<lparr> st_budget := release_fetch (st_budget st3) \<rparr> else st3)
            \<lparr> st_errors := st_errors (if released_error e then st3\<lparr> st_budget := release_fetch (st_budget st3) \<rparr> else st3)
               @ [fetch_error_of (dk_result candidate) e] \<rparr>))"
        using assms False gate 3 reserve latest
        by (cases "released_error e") (auto simp: deep_step_def Let_def request_def st3_def)
      then show ?thesis using via [OF ok(2) [OF refl]] by simp
    next
      case (Inr fetched)
      then have "c = Continue (fetched_page dx dg sv candidate depth revalidation fetched st3)"
        using assms False gate 3 reserve latest
        by (simp add: deep_step_def Let_def request_def st3_def)
      then show ?thesis using via [OF ok(1)] by simp
    qed
  qed
qed

function crawl_loop :: "deep_api \<Rightarrow> deep_config \<Rightarrow> (nat \<Rightarrow> deep_step_env) \<Rightarrow> nat \<Rightarrow> deep_state \<Rightarrow> deep_state" where
  "crawl_loop dx dg env i st =
     (case st_queue st of
        [] \<Rightarrow> st
      | entry # rest \<Rightarrow>
          (case deep_step dx dg (env i) entry (st\<lparr> st_queue := rest \<rparr>) of
             Break st' \<Rightarrow> st'
           | Continue st' \<Rightarrow> crawl_loop dx dg env (Suc i) st'))"
  by pat_completeness auto

termination
proof (relation "(\<lambda>(dx, dg, env, i, st). fetches_left st) <*mlex*> measure (\<lambda>(dx, dg, env, i, st). length (st_queue st))", goal_cases)
  case 1
  then show ?case by (simp add: wf_mlex)
next
  case (2 dx dg env i st entry rest st')
  obtain candidate depth where entry: "entry = (candidate, depth)" by fastforce
  from deep_step_ok [OF 2(2) [unfolded entry]] 2(1) show ?case
    by (auto simp: mlex_iff step_ok_def fetches_left_def)
qed

declare crawl_loop.simps [simp del]


text \<open>The state the loop starts in: the first \<open>top_k\<close> candidates at depth 0, all of them visited.\<close>

definition crawl_start ::
    "deep_api \<Rightarrow> deep_config \<Rightarrow> deep_budget \<Rightarrow> document_cache_state \<Rightarrow> robots_cache option \<Rightarrow> deep_candidate list \<Rightarrow> deep_state" where
  "crawl_start dx dg budget cache robots candidates =
     (let queue = map (\<lambda>c. (c, 0)) (take (dg_top_k dg) candidates)
      in \<lparr> st_budget = budget, st_cache = cache, st_robots = robots, st_queue = queue,
           st_visited = bs_collect (map (\<lambda>(c, _). sr_canonical_url (dk_result c)) queue),
           st_ranks = bt_collect (map (\<lambda>c. (search_result_id dx (dk_result c), sr_rank (dk_result c))) candidates),
           st_documents = [], st_errors = [],
           st_degradations = (if dg_renderer_available dg then [] else [deep_degradation ''renderer_unavailable''
             ''Optional Chromium renderer is unavailable; Deep continues without it'']),
           st_fetches = [] \<rparr>)"

lemma crawl_loop_invariant:
  assumes "P st"
    and "\<And>st candidate depth rest st'. P st \<Longrightarrow> st_queue st = (candidate, depth) # rest \<Longrightarrow>
      step_ok dg candidate depth (st\<lparr> st_queue := rest \<rparr>) st' \<Longrightarrow> P st'"
  shows "P (crawl_loop dx dg env i st)"
  using assms
proof (induction dx dg env i st rule: crawl_loop.induct)
  case (1 dx dg env i st)
  show ?case
  proof (cases "st_queue st")
    case Nil
    then show ?thesis using "1.prems" by (simp add: crawl_loop.simps)
  next
    case (Cons entry rest)
    obtain candidate depth where entry: "entry = (candidate, depth)" by fastforce
    note ok = deep_step_ok [of dx dg "env i" candidate depth "st\<lparr> st_queue := rest \<rparr>", OF refl]
    show ?thesis
      using ok "1.prems"(2) [OF "1.prems"(1)] "1.IH" [OF Cons _ _ "1.prems"(2)] Cons entry
      by (cases "deep_step dx dg (env i) entry (st\<lparr> st_queue := rest \<rparr>)") (auto simp: crawl_loop.simps)
  qed
qed

definition crawl_ok :: "deep_config \<Rightarrow> deep_state \<Rightarrow> deep_state \<Rightarrow> bool" where
  "crawl_ok dg st0 st \<longleftrightarrow>
     (st_robots st = None \<longleftrightarrow> st_robots st0 = None) \<and>
     list_all (request_ok dg (st_robots st0 \<noteq> None)) (st_fetches st) \<and>
     length (st_documents st) + fetches_left st \<le> fetches_left st0 \<and>
     length (st_queue st0) \<le> outcomes st + length (st_queue st) \<and>
     list_all (\<lambda>(_, d). d \<le> dg_max_depth dg) (st_queue st) \<and>
     list_all (\<lambda>(c, d). 0 < d \<or> sr_canonical_url (dk_result c) \<in> (sr_canonical_url \<circ> dk_result \<circ> fst) ` set (st_queue st0)) (st_queue st) \<and>
     list_all (\<lambda>(request, d, _). 0 < d \<or> fq_url request \<in> (sr_canonical_url \<circ> dk_result \<circ> fst) ` set (st_queue st0)) (st_fetches st)"

lemma crawl_ok_step:
  assumes "crawl_ok dg st0 st" "st_queue st = (candidate, depth) # rest" "step_ok dg candidate depth (st\<lparr> st_queue := rest \<rparr>) st'"
  shows "crawl_ok dg st0 st'"
proof -
  have depth: "depth \<le> dg_max_depth dg" using assms(1,2) by (simp add: crawl_ok_def)
  obtain fs where fs: "st_fetches st' = st_fetches st @ fs" "list_all (request_ok dg (st_robots st0 \<noteq> None)) fs"
    "list_all (\<lambda>(request, d, _). fq_url request = sr_canonical_url (dk_result candidate) \<and> d = depth) fs"
    using assms(1,3) depth by (auto simp: step_ok_def crawl_ok_def)
  obtain q where q: "st_queue st' = rest @ q" "list_all (\<lambda>(_, d). d = Suc depth \<and> d \<le> dg_max_depth dg) q"
    using assms(3) by (auto simp: step_ok_def)
  have "list_all (\<lambda>(request, d, _). 0 < d \<or> fq_url request \<in> (sr_canonical_url \<circ> dk_result \<circ> fst) ` set (st_queue st0)) fs"
  proof -
    have "0 < depth \<or> sr_canonical_url (dk_result candidate) \<in> (sr_canonical_url \<circ> dk_result \<circ> fst) ` set (st_queue st0)"
      using assms(1,2) by (simp add: crawl_ok_def)
    then show ?thesis by (intro list.pred_mono_strong [OF fs(3)]) (simp split: prod.splits)
  qed
  moreover have "length (st_documents st') + fetches_left st' \<le> fetches_left st0"
    "length (st_queue st0) \<le> outcomes st' + length (st_queue st')"
    "st_robots st' = None \<longleftrightarrow> st_robots st0 = None"
    using assms q(1) by (auto simp: step_ok_def crawl_ok_def fetches_left_def outcomes_def)
  ultimately show ?thesis
    using assms(1,2) fs q by (auto simp: crawl_ok_def list_all_iff)
qed


lemma crawl_start_simps:
  "st_queue (crawl_start dx dg budget cache robots candidates) = map (\<lambda>c. (c, 0)) (take (dg_top_k dg) candidates)"
  "st_robots (crawl_start dx dg budget cache robots candidates) = robots" "st_fetches (crawl_start dx dg budget cache robots candidates) = []"
  "st_documents (crawl_start dx dg budget cache robots candidates) = []" "st_budget (crawl_start dx dg budget cache robots candidates) = budget"
  by (simp_all add: crawl_start_def Let_def)

lemma crawl_run_ok:
  "crawl_ok dg (crawl_start dx dg budget cache robots candidates) (crawl_loop dx dg env i (crawl_start dx dg budget cache robots candidates))"
proof (rule crawl_loop_invariant)
  show "crawl_ok dg (crawl_start dx dg budget cache robots candidates) (crawl_start dx dg budget cache robots candidates)"
    by (auto simp: crawl_ok_def crawl_start_simps list_all_iff intro: rev_image_eqI)
qed (rule crawl_ok_step)

section \<open>Properties\<close>

text \<open>
  C12. A crawl ends, whatever the network, the origins, the extractor and the clock do, and it is polite and bounded.
  Every request it sends is at most \<open>max_depth\<close> links away from a candidate; at depth 0 it is for a candidate's own
  URL; deeper, when robots rules are consulted, the origin's rules allowed it. Every request passes the fetcher's
  header gate and asks for no more bytes, redirects and time than configured. It yields at most as many
  documents as fetches were granted, and no candidate is lost silently: those not left in the queue by an
  exhausted budget or deadline have left a document or a degradation.
\<close>

theorem crawl_contract:
  "case crawl_loop dx dg env 0 (crawl_start dx dg budget cache robots candidates) of st \<Rightarrow>
     list_all (\<lambda>(request, depth, decision).
       depth \<le> dg_max_depth dg \<and>
       (0 < depth \<or> fq_url request \<in> (sr_canonical_url \<circ> dk_result) ` set (take (dg_top_k dg) candidates)) \<and>
       (depth = 0 \<or> robots = None \<or> (case decision of Some (Allowed _) \<Rightarrow> True | _ \<Rightarrow> False)) \<and>
       validate_headers (fq_headers request) = Ok () \<and> fq_max_bytes request \<le> dg_per_fetch_bytes dg \<and>
       fq_max_redirects request \<le> dg_max_redirects dg \<and> fq_timeout_ms request \<le> dg_timeout_ms dg) (st_fetches st) \<and>
     length (st_documents st) + unat (remaining_fetches (db_snapshot (st_budget st))) \<le> unat (remaining_fetches (db_snapshot budget)) \<and>
     min (dg_top_k dg) (length candidates) \<le> length (st_documents st) + length (st_degradations st) + length (st_queue st)"
proof -
  let ?init = "crawl_start dx dg budget cache robots candidates"
  let ?st = "crawl_loop dx dg env 0 ?init"
  note start = crawl_start_simps [of dx dg budget cache robots candidates]
  note ok = crawl_run_ok [of dg dx budget cache robots candidates env 0]
  have "(sr_canonical_url \<circ> dk_result \<circ> fst) ` set (st_queue ?init) = (sr_canonical_url \<circ> dk_result) ` set (take (dg_top_k dg) candidates)"
    by (simp add: start image_image)
  then have urls: "list_all (\<lambda>(request, d, _). 0 < d \<or> fq_url request \<in> (sr_canonical_url \<circ> dk_result) ` set (take (dg_top_k dg) candidates)) (st_fetches ?st)"
    using ok by (simp only: crawl_ok_def)
  have "list_all (request_ok dg (robots \<noteq> None)) (st_fetches ?st)"
    using ok by (simp add: crawl_ok_def start)
  with urls show ?thesis
    using ok by (fastforce simp: crawl_ok_def start fetches_left_def outcomes_def request_ok_def list_all_iff)
qed

text \<open>
  C16. What a page adds to the queue: at most 32 links, each once and none seen before, over http or https and on the
  host the page finally came from, all one level deeper; nothing at the depth limit. The page itself becomes
  one more document.
\<close>

theorem page_links_contract:
  "\<exists>links. st_queue (new_page dx dg sv candidate depth fetched st)
       = st_queue st @ map (\<lambda>u. (\<lparr> dk_result = child_result dx (dk_result candidate) u,
           dk_storage_rights = dk_storage_rights candidate \<rparr>, depth + 1)) links \<and>
     length links \<le> 32 \<and> distinct links \<and> set links \<inter> set (st_visited st) = {} \<and> (links = [] \<or> depth < dg_max_depth dg) \<and>
     list_all (\<lambda>u. url_scheme (dx_url dx) u \<in> {lit ''http'', lit ''https''} \<and>
       url_host_str (dx_url dx) u = url_host_str (dx_url dx) (fr_final_url fetched)) links \<and>
     length (st_documents (new_page dx dg sv candidate depth fetched st)) = length (st_documents st) + 1"
proof (intro exI conjI)
  let ?found = "discover_links dx (fr_body fetched) (fr_final_url fetched)" and ?links = "page_links dx dg depth fetched st"
  note new = new_page_frame [of dx dg sv candidate depth fetched st] and un = unvisited_props [of "st_visited st" ?found]
  show "st_queue (new_page dx dg sv candidate depth fetched st)
       = st_queue st @ map (\<lambda>u. (\<lparr> dk_result = child_result dx (dk_result candidate) u,
           dk_storage_rights = dk_storage_rights candidate \<rparr>, depth + 1)) ?links"
    using new by (simp add: child_entry_def [abs_def])
  have "length ?found \<le> 32" by (simp add: discover_links_def)
  then show "length ?links \<le> 32" using un by (simp add: page_links_def)
  show "distinct ?links" "set ?links \<inter> set (st_visited st) = {}" using un by (auto simp: page_links_def)
  show "?links = [] \<or> depth < dg_max_depth dg" by (simp add: page_links_def)
  have "set ?links \<subseteq> set ?found" using un by (auto simp: page_links_def)
  then show "list_all (\<lambda>u. url_scheme (dx_url dx) u \<in> {lit ''http'', lit ''https''} \<and>
       url_host_str (dx_url dx) u = url_host_str (dx_url dx) (fr_final_url fetched)) ?links"
    by (auto simp: list_all_iff discover_links_def simp del: lit_simps dest!: subsetD in_set_takeD)
  show "length (st_documents (new_page dx dg sv candidate depth fetched st)) = length (st_documents st) + 1"
    using new by simp
qed

text \<open>
  Links are compared with their fragments, but a child is crawled without its fragment: two anchors of one page,
  or an anchor of a page already crawled, are queued as if they were different pages.
\<close>

theorem fragment_links_recrawled:
  assumes "a \<noteq> b" "a \<notin> set (st_visited st)" "b \<notin> set (st_visited st)"
    and "url_set_fragment (dx_url dx) None a = page" "url_set_fragment (dx_url dx) None b = page"
  shows "map (sr_canonical_url \<circ> dk_result \<circ> fst) (st_queue (foldl (enqueue_link dx candidate depth) st [a, b]))
    = map (sr_canonical_url \<circ> dk_result \<circ> fst) (st_queue st) @ [page, page]"
  using assms by (simp add: enqueue_link_def child_result_def Let_def)

end
