(* ===== verification/Ranking_V2.thy ===== *)
theory Ranking_V2
  imports Evidence Ranking
begin

text \<open>
  The ranking of Deep documents, \<^verbatim>\<open>ranking_v2.rs\<close>: a policy, BM25 over the documents of the run, optional semantic
  and reranking backends, and an order by a weighted sum of relevance and evidence. The backends are trait
  objects: their answers are arguments. The natural logarithm is a parameter. The engine is gated by a benchmark
  over an embedded corpus whose report is part of the engine.
\<close>

section \<open>Policy\<close>

record ranking_v2_policy =
  v2_version :: rstr
  v2_bm25_k1 :: f64
  v2_bm25_b :: f64
  v2_weight_bm25 :: f64
  v2_weight_semantic :: f64
  v2_weight_reranker :: f64
  v2_weight_relevance :: f64
  v2_weight_evidence :: f64
  v2_benchmark_minimum_ndcg_delta :: f64
  v2_benchmark_minimum_ndcg :: f64

definition ranking_v2_policy_default :: ranking_v2_policy where
  "ranking_v2_policy_default = \<lparr> v2_version = lit ''v2'', v2_bm25_k1 = f64_lit 12 10, v2_bm25_b = f64_lit 3 4,
     v2_weight_bm25 = Fin 1, v2_weight_semantic = Fin 0, v2_weight_reranker = Fin 0,
     v2_weight_relevance = f64_lit 85 100, v2_weight_evidence = f64_lit 15 100,
     v2_benchmark_minimum_ndcg_delta = f64_lit 5 100, v2_benchmark_minimum_ndcg = f64_lit 9 10 \<rparr>"

datatype RankingV2Error = V2_InvalidPolicy | V2_Backend

definition unit_range :: "f64 \<Rightarrow> bool" where
  "unit_range v \<longleftrightarrow> f64_le (Fin 0) v \<and> f64_le v (Fin 1)"

definition ranking_v2_validate :: "ranking_v2_policy \<Rightarrow> RankingV2Error + unit" where
  "ranking_v2_validate p =
     (let component_weights = [v2_weight_bm25 p, v2_weight_semantic p, v2_weight_reranker p];
          final_weights = [v2_weight_relevance p, v2_weight_evidence p];
          values = [v2_bm25_k1 p, v2_bm25_b p] @ component_weights @ final_weights
            @ [v2_benchmark_minimum_ndcg_delta p, v2_benchmark_minimum_ndcg p]
      in if v2_version p \<noteq> lit ''v2'' \<or> list_ex (\<lambda>v. \<not> is_finite v) values \<or> f64_le (v2_bm25_k1 p) (Fin 0)
            \<or> \<not> unit_range (v2_bm25_b p) \<or> list_ex (\<lambda>v. \<not> unit_range v) (component_weights @ final_weights)
            \<or> f64_lt (f64_lit 1 (10 ^ 12)) (f64_abs (f64_sub (f64_sum component_weights) (Fin 1)))
            \<or> f64_lt (f64_lit 1 (10 ^ 12)) (f64_abs (f64_sub (f64_sum final_weights) (Fin 1)))
            \<or> \<not> unit_range (v2_benchmark_minimum_ndcg_delta p) \<or> \<not> unit_range (v2_benchmark_minimum_ndcg p)
         then Err V2_InvalidPolicy else Ok ())"

section \<open>Data\<close>

record deep_ranking_explanation =
  de_ranking_policy :: rstr
  de_bm25 :: score
  de_semantic :: "score option"
  de_reranker :: "score option"
  de_relevance_score :: score
  de_evidence_score :: score
  de_final_score :: score

record deep_ranked_document =
  dd_document_id :: rstr
  dd_rank :: rank
  dd_original_rank :: rank
  dd_relevance_score :: score
  dd_evidence_score :: score
  dd_final_score :: score
  dd_explanation :: deep_ranking_explanation

datatype RankingV2Status = V2_Applied | V2_Disabled | V2_BenchmarkRejected | V2_InsufficientDocuments

record ranking_v2_output =
  vo_schema_version :: rstr
  vo_policy_version :: rstr
  vo_benchmark_id :: rstr
  vo_status :: RankingV2Status
  vo_results :: "deep_ranked_document list"

record ranking_benchmark_report =
  br_schema_version :: rstr
  br_benchmark_id :: rstr
  br_policy_version :: rstr
  br_query_count :: u32
  br_baseline_ndcg_at_3 :: f64
  br_candidate_ndcg_at_3 :: f64
  br_ndcg_delta :: f64
  br_baseline_mrr :: f64
  br_candidate_mrr :: f64
  br_passed :: bool

type_synonym backend_reply = "RankingV2Error + f64 list"

record ranking_v2_engine =
  en_policy :: ranking_v2_policy
  en_benchmark :: ranking_benchmark_report
  en_semantic :: "(query \<Rightarrow> document list \<Rightarrow> backend_reply) option"
  en_reranker :: "(query \<Rightarrow> document list \<Rightarrow> f64 list \<Rightarrow> backend_reply) option"

definition BENCHMARK_ID :: rstr where "BENCHMARK_ID = lit ''ranking-v2-human-labeled-v2''"

definition ranking_v2_output_of :: "ranking_v2_policy \<Rightarrow> RankingV2Status \<Rightarrow> deep_ranked_document list \<Rightarrow> ranking_v2_output" where
  "ranking_v2_output_of p status results = \<lparr> vo_schema_version = SCHEMA_VERSION, vo_policy_version = v2_version p,
     vo_benchmark_id = BENCHMARK_ID, vo_status = status, vo_results = results \<rparr>"

definition disabled_output :: ranking_v2_output where
  "disabled_output = ranking_v2_output_of ranking_v2_policy_default V2_Disabled []"

definition rejected_output :: ranking_v2_output where
  "rejected_output = ranking_v2_output_of ranking_v2_policy_default V2_BenchmarkRejected []"

definition ranking_v2_engine_new ::
    "(ranking_v2_policy \<Rightarrow> ranking_benchmark_report) \<Rightarrow> ranking_v2_policy \<Rightarrow> RankingV2Error + ranking_v2_engine" where
  "ranking_v2_engine_new run_builtin_benchmark p =
     (case ranking_v2_validate p of
        Err e \<Rightarrow> Err e
      | Ok _ \<Rightarrow> Ok \<lparr> en_policy = p, en_benchmark = run_builtin_benchmark p, en_semantic = None, en_reranker = None \<rparr>)"

definition rejected_benchmark_report :: "ranking_v2_policy \<Rightarrow> ranking_benchmark_report" where
  "rejected_benchmark_report p = \<lparr> br_schema_version = SCHEMA_VERSION, br_benchmark_id = BENCHMARK_ID,
     br_policy_version = v2_version p, br_query_count = 0, br_baseline_ndcg_at_3 = Fin 0, br_candidate_ndcg_at_3 = Fin 0,
     br_ndcg_delta = Fin 0, br_baseline_mrr = Fin 0, br_candidate_mrr = Fin 0, br_passed = False \<rparr>"

section \<open>BM25\<close>

definition v2_terms :: "unicode \<Rightarrow> rstr \<Rightarrow> rstr list" where
  "v2_terms uc s = filter (\<lambda>t. t \<noteq> [])
     (map (trim_matches (\<lambda>c. \<not> uc_is_alphanumeric uc c)) (split_whitespace (normalized_text uc s)))"

definition document_terms :: "unicode \<Rightarrow> document \<Rightarrow> rstr list" where
  "document_terms uc d = v2_terms uc (str_or_empty (dc_title d)) @ v2_terms uc (str_or_empty (dc_content d))"

definition bm25_idf :: "(f64 \<Rightarrow> f64) \<Rightarrow> nat \<Rightarrow> rstr list list \<Rightarrow> rstr \<Rightarrow> f64" where
  "bm25_idf fln n docs term =
     (let df = f64_of_nat (length (filter (\<lambda>doc. term \<in> set doc) docs))
      in fln (f64_add (Fin 1) (f64_div (f64_add (f64_sub (f64_of_nat n) df) (f64_lit 1 2)) (f64_add df (f64_lit 1 2)))))"

definition bm25_term ::
    "ranking_v2_policy \<Rightarrow> f64 \<Rightarrow> rstr \<Rightarrow> f64 \<Rightarrow> rstr list \<times> f64 \<Rightarrow> f64" where
  "bm25_term p average_length term idf entry =
     (case entry of (doc, acc) \<Rightarrow>
        (let frequency = f64_of_nat (length (filter (\<lambda>v. v = term) doc));
             length_ratio = f64_div (f64_of_nat (length doc)) average_length;
             denominator = f64_add frequency (f64_mul (v2_bm25_k1 p)
               (f64_add (f64_sub (Fin 1) (v2_bm25_b p)) (f64_mul (v2_bm25_b p) length_ratio)))
         in if f64_lt (Fin 0) denominator
            then f64_add acc (f64_div (f64_mul (f64_mul idf frequency) (f64_add (v2_bm25_k1 p) (Fin 1))) denominator)
            else acc))"

definition bm25_scores :: "(f64 \<Rightarrow> f64) \<Rightarrow> unicode \<Rightarrow> query \<Rightarrow> document list \<Rightarrow> ranking_v2_policy \<Rightarrow> f64 list" where
  "bm25_scores fln uc q ds p =
     (let query_terms = bs_collect (v2_terms uc (q_normalized_query q))
      in if query_terms = [] \<or> ds = [] then replicate (length ds) (Fin 0)
         else let docs = map (document_terms uc) ds;
                  average_length = f64_div (f64_of_nat (max (sum_list (map length docs)) 1)) (f64_of_nat (length docs));
                  raw = foldl (\<lambda>raw term. map (bm25_term p average_length term (bm25_idf fln (length ds) docs term)) (zip docs raw))
                    (replicate (length ds) (Fin 0)) query_terms;
                  maximum = foldl f64_max (Fin 0) raw
              in if f64_eq maximum (Fin 0) then raw else map (\<lambda>v. f64_div v maximum) raw)"

section \<open>Combination and order\<close>

definition validate_backend_scores :: "f64 list \<Rightarrow> nat \<Rightarrow> RankingV2Error + f64 list" where
  "validate_backend_scores scores expected =
     (if length scores \<noteq> expected \<or> list_ex (\<lambda>v. \<not> is_finite v) scores then Err V2_Backend
      else Ok (map (\<lambda>v. f64_clamp v (Fin 0) (Fin 1)) scores))"

definition optional_scores ::
    "(query \<Rightarrow> document list \<Rightarrow> backend_reply) option \<Rightarrow> query \<Rightarrow> document list \<Rightarrow> RankingV2Error + f64 list option" where
  "optional_scores backend q ds =
     (case backend of
        None \<Rightarrow> Ok None
      | Some score \<Rightarrow>
          (case score q ds of
             Err e \<Rightarrow> Err e
           | Ok scores \<Rightarrow> map_sum id Some (validate_backend_scores scores (length ds))))"

text \<open>\<open>scores[index]\<close> of a backend; the scores were checked to be as many as the documents.\<close>

definition score_at :: "f64 list option \<Rightarrow> nat \<Rightarrow> f64" where
  "score_at scores i = (case scores of None \<Rightarrow> Fin 0 | Some vs \<Rightarrow> vs ! i)"

definition combine_relevance :: "f64 list \<Rightarrow> f64 list option \<Rightarrow> f64 list option \<Rightarrow> ranking_v2_policy \<Rightarrow> f64 list" where
  "combine_relevance bm25 semantic reranker p =
     (let semantic_weight = (if semantic \<noteq> None then v2_weight_semantic p else Fin 0);
          reranker_weight = (if reranker \<noteq> None then v2_weight_reranker p else Fin 0);
          total = f64_add (f64_add (v2_weight_bm25 p) semantic_weight) reranker_weight
      in map (\<lambda>(i, s). f64_clamp (f64_div
            (f64_add (f64_add (f64_mul (v2_weight_bm25 p) s) (f64_mul semantic_weight (score_at semantic i)))
               (f64_mul reranker_weight (score_at reranker i))) total) (Fin 0) (Fin 1))
          (zip [0..<length bm25] bm25))"

definition ranked_document ::
    "ranking_v2_policy \<Rightarrow> (rstr, f64) btree_map \<Rightarrow> (rstr, rank) btree_map \<Rightarrow> f64 list \<Rightarrow> f64 list option \<Rightarrow> f64 list option
     \<Rightarrow> f64 list \<Rightarrow> nat \<times> document \<Rightarrow> deep_ranked_document" where
  "ranked_document p evidence_by_id original_ranks bm25 semantic reranker relevance entry =
     (case entry of (i, d) \<Rightarrow>
        (let evidence_score = (case bt_get evidence_by_id (dc_search_result_id d) of Some v \<Rightarrow> v | None \<Rightarrow> Fin 0);
             final_score = f64_clamp (f64_add (f64_mul (v2_weight_relevance p) (relevance ! i))
               (f64_mul (v2_weight_evidence p) evidence_score)) (Fin 0) (Fin 1);
             original_rank = (case bt_get original_ranks (dc_search_result_id d) of Some r \<Rightarrow> r | None \<Rightarrow> rank_max)
         in \<lparr> dd_document_id = dc_search_result_id d, dd_rank = original_rank, dd_original_rank = original_rank,
              dd_relevance_score = bounded (relevance ! i), dd_evidence_score = bounded evidence_score,
              dd_final_score = bounded final_score,
              dd_explanation = \<lparr> de_ranking_policy = v2_version p, de_bm25 = bounded (bm25 ! i),
                de_semantic = map_option (\<lambda>vs. bounded (vs ! i)) semantic,
                de_reranker = map_option (\<lambda>vs. bounded (vs ! i)) reranker,
                de_relevance_score = bounded (relevance ! i), de_evidence_score = bounded evidence_score,
                de_final_score = bounded final_score \<rparr> \<rparr>))"

definition deep_ranked_cmp :: "deep_ranked_document \<Rightarrow> deep_ranked_document \<Rightarrow> ordering" where
  "deep_ranked_cmp a b =
     then_with (total_cmp (dd_final_score b) (dd_final_score a))
       (then_with (total_cmp (dd_relevance_score b) (dd_relevance_score a))
         (then_with (ord_cmp (dd_original_rank a) (dd_original_rank b)) (ord_cmp (dd_document_id a) (dd_document_id b))))"

definition number_ranks :: "deep_ranked_document list \<Rightarrow> deep_ranked_document list" where
  "number_ranks rs = map (\<lambda>(i, r). r\<lparr> dd_rank := (case rank_new (of_nat i + 1) of Ok v \<Rightarrow> v | Err _ \<Rightarrow> rank_max) \<rparr>) (zip [0..<length rs] rs)"

text \<open>The second combination, with the reranker when the policy weighs it and one is configured.\<close>

definition reranker_scores ::
    "ranking_v2_engine \<Rightarrow> query \<Rightarrow> document list \<Rightarrow> f64 list \<Rightarrow> RankingV2Error + f64 list option" where
  "reranker_scores en q ds relevance =
     (if f64_lt (Fin 0) (v2_weight_reranker (en_policy en))
      then optional_scores (map_option (\<lambda>score q ds. score q ds relevance) (en_reranker en)) q ds else Ok None)"

definition semantic_scores :: "ranking_v2_engine \<Rightarrow> query \<Rightarrow> document list \<Rightarrow> RankingV2Error + f64 list option" where
  "semantic_scores en q ds =
     (if f64_lt (Fin 0) (v2_weight_semantic (en_policy en)) then optional_scores (en_semantic en) q ds else Ok None)"

definition rank_v2 ::
    "(f64 \<Rightarrow> f64) \<Rightarrow> unicode \<Rightarrow> ranking_v2_engine \<Rightarrow> query \<Rightarrow> document list \<Rightarrow> evidence list \<Rightarrow> (rstr, rank) btree_map
     \<Rightarrow> RankingV2Error + ranking_v2_output" where
  "rank_v2 fln uc en q ds es original_ranks =
     (let p = en_policy en
      in if \<not> br_passed (en_benchmark en) then Ok (ranking_v2_output_of p V2_BenchmarkRejected [])
         else if ds = [] then Ok (ranking_v2_output_of p V2_InsufficientDocuments [])
         else let bm25 = bm25_scores fln uc q ds p
              in case semantic_scores en q ds of
                   Err e \<Rightarrow> Err e
                 | Ok semantic \<Rightarrow>
                     (case reranker_scores en q ds (combine_relevance bm25 semantic None p) of
                        Err e \<Rightarrow> Err e
                      | Ok reranker \<Rightarrow>
                          (let relevance = combine_relevance bm25 semantic reranker p;
                               evidence_by_id = bt_collect (map (\<lambda>e. (ev_document_id e, ev_evidence_score e)) es);
                               ranked = map (ranked_document p evidence_by_id original_ranks bm25 semantic reranker relevance)
                                 (zip [0..<length ds] ds)
                           in Ok (ranking_v2_output_of p V2_Applied (number_ranks (sort_by deep_ranked_cmp ranked))))))"


section \<open>Properties\<close>

interpretation deep_ranked_order: total_comparator deep_ranked_cmp
  unfolding deep_ranked_cmp_def [abs_def] total_cmp_def
  by (intro total_comparator_then total_comparator_reverse [OF total_comparator_ord] total_comparator_ord)

lemma length_bm25_scores: "length (bm25_scores fln uc q ds p) = length ds"
proof -
  have "length (foldl (\<lambda>raw term. map (g term) (zip docs raw)) raw ts) = length raw"
    if "length docs = length raw" for docs :: "rstr list list" and raw :: "f64 list" and g and ts :: "rstr list"
    using that by (induction ts arbitrary: raw) simp_all
  then show ?thesis by (simp add: bm25_scores_def Let_def)
qed

lemma validate_backend_scores_Ok:
  "validate_backend_scores vs n = Ok ws \<Longrightarrow> length ws = n \<and> list_all in_unit ws"
proof -
  have "in_unit (f64_clamp v (Fin 0) (Fin 1))" if "is_finite v" for v
    using that by (cases v) (auto simp: f64_clamp_def in_unit_def Let_def)
  then show "validate_backend_scores vs n = Ok ws \<Longrightarrow> length ws = n \<and> list_all in_unit ws"
    by (auto simp: validate_backend_scores_def list_all_iff list_ex_iff split: if_splits)
qed

text \<open>Whatever a backend answers, the scores that are indexed later are as many as the documents.\<close>

lemma optional_scores_Ok: "optional_scores backend q ds = Ok (Some vs) \<Longrightarrow> length vs = length ds \<and> list_all in_unit vs"
  by (auto simp: optional_scores_def map_sum_def split: option.splits sum.splits dest: validate_backend_scores_Ok)

lemma length_combine_relevance: "length (combine_relevance bm25 semantic reranker p) = length bm25"
  by (simp add: combine_relevance_def Let_def)

lemma ranked_document_simps [simp]:
  "dd_document_id (ranked_document p ev orr b s r rel (i, d)) = dc_search_result_id d"
  "in_unit (dd_final_score (ranked_document p ev orr b s r rel e))"
  "in_unit (dd_relevance_score (ranked_document p ev orr b s r rel e))"
  "in_unit (dd_evidence_score (ranked_document p ev orr b s r rel e))"
  by (simp_all add: ranked_document_def Let_def split: prod.split)

lemma number_ranks_simps:
  assumes "\<And>k r. f (r\<lparr> dd_rank := k \<rparr>) = f r"
  shows "map f (number_ranks rs) = map f rs"
proof -
  have "map f (number_ranks rs) = map (f \<circ> snd) (zip [0..<length rs] rs)"
    using assms by (simp add: number_ranks_def comp_def split_def)
  also have "\<dots> = map f (map snd (zip [0..<length rs] rs))" by (simp only: map_map)
  finally show ?thesis by (simp only: map_snd_zip length_upt minus_nat.diff_0)
qed

lemma number_ranks_ranks:
  assumes "length rs < 2 ^ 32"
  shows "map (unat \<circ> dd_rank) (number_ranks rs) = [1..<Suc (length rs)]"
proof (rule nth_equalityI)
  fix i assume "i < length (map (unat \<circ> dd_rank) (number_ranks rs))"
  then have i: "i < length rs" by (simp add: number_ranks_def)
  then have "unat (of_nat (Suc i) :: u32) = Suc i" using assms by (simp only: unat_of_nat) simp
  then have n: "unat (of_nat i + 1 :: u32) = Suc i" by (simp add: add.commute)
  then have "(of_nat i + 1 :: u32) \<noteq> 0" by (metis nat.distinct(1) unat_0)
  then show "map (unat \<circ> dd_rank) (number_ranks rs) ! i = [1..<Suc (length rs)] ! i"
    using i n by (simp add: number_ranks_def rank_new_def del: upt_Suc)
qed (simp add: number_ranks_def del: upt_Suc)


lemma sorted_by_key:
  fixes xs ys :: "deep_ranked_document list"
  defines "key \<equiv> \<lambda>r. (dd_final_score r, dd_relevance_score r, dd_original_rank r, dd_document_id r)"
  assumes "sorted_wrt (cmp_le deep_ranked_cmp) ys" "map key xs = map key ys"
  shows "sorted_wrt (cmp_le deep_ranked_cmp) xs"
proof -
  define le where "le = (\<lambda>(a :: f64, b :: f64, c :: rank, d :: rstr) (a', b', c', d').
    then_with (total_cmp a' a) (then_with (total_cmp b' b) (then_with (ord_cmp c c') (ord_cmp d d'))) \<noteq> Greater)"
  have le: "cmp_le deep_ranked_cmp x y \<longleftrightarrow> le (key x) (key y)" for x y
    by (simp add: cmp_le_def deep_ranked_cmp_def le_def key_def)
  have "sorted_wrt (cmp_le deep_ranked_cmp) zs \<longleftrightarrow> sorted_wrt le (map key zs)" for zs
    by (simp add: sorted_wrt_map le [symmetric])
  then show ?thesis using assms(2,3) by simp
qed

lemma rank_v2_applied:
  assumes "rank_v2 fln uc en q ds es ranks = Ok out" "br_passed (en_benchmark en)" "ds \<noteq> []"
  obtains ev b s r rel where "out = ranking_v2_output_of (en_policy en) V2_Applied
    (number_ranks (sort_by deep_ranked_cmp (map (ranked_document (en_policy en) ev ranks b s r rel) (zip [0..<length ds] ds))))"
  using assms by (auto simp: rank_v2_def Let_def split: sum.splits)



definition sample_engine :: ranking_v2_engine where
  "sample_engine = \<lparr> en_policy = ranking_v2_policy_default,
     en_benchmark = (rejected_benchmark_report ranking_v2_policy_default)\<lparr> br_passed := True \<rparr>,
     en_semantic = None, en_reranker = None \<rparr>"


text \<open>
  A policy may weigh only an optional backend. Without that backend the weights add up to zero, the quotient is not
  a number, and every document is ranked with score zero, whatever its text and its evidence.
\<close>

definition semantic_only_policy :: ranking_v2_policy where
  "semantic_only_policy = \<lparr> v2_version = lit ''v2'', v2_bm25_k1 = Fin 1, v2_bm25_b = Fin 0, v2_weight_bm25 = Fin 0,
     v2_weight_semantic = Fin 1, v2_weight_reranker = Fin 0, v2_weight_relevance = Fin 1, v2_weight_evidence = Fin 0,
     v2_benchmark_minimum_ndcg_delta = Fin 0, v2_benchmark_minimum_ndcg = Fin 0 \<rparr>"

lemma f64_round_01: "f64_round 0 = Fin 0" "f64_round 1 = Fin 1"
  by (simp_all add: f64_round_def Let_def one_less_power not_le)

lemma semantic_only_policy_valid: "ranking_v2_validate semantic_only_policy = Ok ()"
proof -
  have "\<not> f64_lt (f64_lit 1 (10 ^ 12)) (Fin 0)"
    unfolding f64_lit_def using f64_round_unit [of "of_int 1 / of_int (10 ^ 12)"]
    by (cases "f64_round (of_int 1 / of_int (10 ^ 12))") (auto simp: in_unit_def)
  then show ?thesis
    by (simp add: ranking_v2_validate_def semantic_only_policy_def unit_range_def f64_sum_def f64_sub_def f64_abs_def
        f64_round_01 f64_le_def f64_eq_def Let_def)
qed

lemma combine_without_backend:
  assumes "i < length bm25"
  shows "combine_relevance bm25 None None semantic_only_policy ! i = NaN"
proof -
  have "f64_add (f64_add (f64_mul (Fin 0) s) (f64_mul (Fin 0) (Fin 0))) (f64_mul (Fin 0) (Fin 0)) \<in> {NaN, NegZero, Fin 0}" for s
    by (cases s) (auto simp: f64_mul_def f64_zero_def Let_def f64_round_01)
  moreover have "f64_div x (Fin 0) = NaN" if "x \<in> {NaN, NegZero, Fin 0}" for x
    using that by (auto simp: f64_div_def Let_def)
  moreover have "f64_clamp NaN (Fin 0) (Fin 1) = NaN" by (simp add: f64_clamp_def)
  ultimately show ?thesis
    using assms by (simp add: combine_relevance_def semantic_only_policy_def score_at_def f64_round_01)
qed

lemma ranked_document_NaN:
  "rel ! i = NaN \<Longrightarrow> dd_relevance_score (ranked_document p ev orr b s r rel (i, d)) = Fin 0
    \<and> dd_final_score (ranked_document p ev orr b s r rel (i, d)) = Fin 0"
  by (simp add: ranked_document_def Let_def f64_mul_def f64_clamp_def bounded_def)

theorem missing_backend_erases_scores:
  assumes "en_policy en = semantic_only_policy" "en_semantic en = None" "rank_v2 fln uc en q ds es ranks = Ok out"
  shows "list_all (\<lambda>r. dd_relevance_score r = Fin 0 \<and> dd_final_score r = Fin 0) (vo_results out)"
proof (cases "br_passed (en_benchmark en) \<and> ds \<noteq> []")
  case False
  then show ?thesis using assms(3) by (auto simp: rank_v2_def ranking_v2_output_of_def Let_def split: if_splits)
next
  case True
  let ?p = semantic_only_policy
  have off: "semantic_scores en q ds = Ok None" "reranker_scores en q ds r = Ok None" for r
    using assms(1,2) by (simp_all add: semantic_scores_def reranker_scores_def optional_scores_def semantic_only_policy_def)
  obtain ev where out: "vo_results out = number_ranks (sort_by deep_ranked_cmp (map (ranked_document ?p ev ranks (bm25_scores fln uc q ds ?p)
      None None (combine_relevance (bm25_scores fln uc q ds ?p) None None ?p)) (zip [0..<length ds] ds)))"
    using assms(1,3) True by (auto simp: rank_v2_def off Let_def ranking_v2_output_of_def)
  let ?xs = "map (ranked_document ?p ev ranks (bm25_scores fln uc q ds ?p)
      None None (combine_relevance (bm25_scores fln uc q ds ?p) None None ?p)) (zip [0..<length ds] ds)"
  have xs: "dd_relevance_score x = Fin 0 \<and> dd_final_score x = Fin 0" if "x \<in> set ?xs" for x
  proof -
    from that obtain i d where x: "x = ranked_document ?p ev ranks (bm25_scores fln uc q ds ?p) None None
        (combine_relevance (bm25_scores fln uc q ds ?p) None None ?p) (i, d)" "(i, d) \<in> set (zip [0..<length ds] ds)" by auto
    then have "i < length (bm25_scores fln uc q ds ?p)" by (auto simp: length_bm25_scores dest: set_zip_leftD)
    then show ?thesis unfolding x(1) by (intro ranked_document_NaN combine_without_backend)
  qed
  have "map (\<lambda>r. (dd_relevance_score r, dd_final_score r)) (vo_results out) = map (\<lambda>r. (dd_relevance_score r, dd_final_score r)) (sort_by deep_ranked_cmp ?xs)"
    unfolding out by (rule number_ranks_simps) simp
  then have "\<forall>k\<in>set (map (\<lambda>r. (dd_relevance_score r, dd_final_score r)) (vo_results out)). k = (Fin 0, Fin 0)"
    using xs by auto
  then show ?thesis by (simp add: list_all_iff)
qed

end
