(* ===== verification/Deep.thy ===== *)
theory Deep
  imports Crawl Ranking_V2 Gaps
begin

text \<open>
  A whole Deep run, \<^verbatim>\<open>DeepOrchestrator::enrich\<close> in \<^verbatim>\<open>deep.rs\<close>: the crawl, the evidence of its documents, the optional Deep
  ranking, and the follow-up queries the gap analysis proposes, each charged to the budget and merged with what is
  already known. The executor of follow-up queries is a trait object; its replies and the clock are the
  environment of each proposal.
\<close>

section \<open>Data\<close>

datatype SubQueryStatus = Sq_Proposed | Sq_Executed | Sq_Failed | Sq_RejectedBudget | Sq_Invalid

record sub_query =
  sq_schema_version :: rstr
  sq_raw_query :: rstr
  sq_reason :: rstr
  sq_gap_type :: GapType
  sq_estimated_cost :: u64
  sq_expected_gain :: u32
  sq_actual_gain :: u32
  sq_status :: SubQueryStatus
  sq_results :: "search_result list"
  sq_errors :: "composite_error list"

record deep_response =
  dz_schema_version :: rstr
  dz_query :: rstr
  dz_documents :: "document list"
  dz_errors :: "composite_error list"
  dz_degradations :: "degradation list"
  dz_evidence :: "evidence list"
  dz_evidence_v2 :: "evidence_v2 list"
  dz_ranking_v2 :: ranking_v2_output
  dz_gaps :: "gap list"
  dz_subqueries :: "sub_query list"
  dz_elapsed_ms :: u64

record deep_request =
  dv_query :: query
  dv_search_plan :: search_plan
  dv_candidates :: "deep_candidate list"

text \<open>The orchestrator between runs; \<open>do_config\<close> holds the limits it was built with, \<open>do_executor\<close> whether follow-up queries can be run.\<close>

record deep_orchestrator =
  do_config :: deep_config
  do_budget :: deep_budget
  do_cache :: document_cache_state
  do_robots :: "robots_cache option"
  do_ranking_v2 :: "ranking_v2_engine option"
  do_gap_analyzer :: "gap_policy option"
  do_executor :: bool

definition deep_orchestrator_new :: "deep_config \<Rightarrow> deep_budget \<Rightarrow> document_cache_state \<Rightarrow> deep_orchestrator" where
  "deep_orchestrator_new config budget cache = \<lparr> do_config = config\<lparr> dg_request_id := None \<rparr>, do_budget = budget, do_cache = cache,
     do_robots = None, do_ranking_v2 = None, do_gap_analyzer = None, do_executor = False \<rparr>"

definition with_robots :: "robots_cache \<Rightarrow> deep_orchestrator \<Rightarrow> deep_orchestrator" where
  "with_robots robots o' = o'\<lparr> do_robots := Some robots \<rparr>"
definition deep_with_request_id :: "rstr option \<Rightarrow> deep_orchestrator \<Rightarrow> deep_orchestrator" where
  "deep_with_request_id request_id o' = o'\<lparr> do_config := (do_config o')\<lparr> dg_request_id := request_id \<rparr> \<rparr>"
definition with_ranking_v2 :: "ranking_v2_engine \<Rightarrow> deep_orchestrator \<Rightarrow> deep_orchestrator" where
  "with_ranking_v2 engine o' = o'\<lparr> do_ranking_v2 := Some engine \<rparr>"
definition with_gap_analyzer :: "gap_policy \<Rightarrow> deep_orchestrator \<Rightarrow> deep_orchestrator" where
  "with_gap_analyzer p o' = o'\<lparr> do_gap_analyzer := Some p \<rparr>"
definition with_subquery_executor :: "deep_orchestrator \<Rightarrow> deep_orchestrator" where
  "with_subquery_executor o' = o'\<lparr> do_executor := True \<rparr>"

section \<open>Follow-up queries\<close>

datatype executor_reply = Reply_response search_response | Reply_error | Reply_timeout

record subquery_env =
  se_expired :: bool
  se_execute :: "query \<Rightarrow> executor_reply"

record subquery_state =
  ss_budget :: deep_budget
  ss_known_urls :: "url btree_set"
  ss_degradations :: "degradation list"
  ss_subqueries :: "sub_query list"

definition subquery_of :: "gap \<Rightarrow> sub_query" where
  "subquery_of proposal = \<lparr> sq_schema_version = SCHEMA_VERSION, sq_raw_query = str_or_empty (gp_recommended_query proposal),
     sq_reason = gp_reason proposal, sq_gap_type = gp_gap_type proposal,
     sq_estimated_cost = (case gp_estimated_cost proposal of Some c \<Rightarrow> c | None \<Rightarrow> 1),
     sq_expected_gain = (case gp_expected_gain proposal of Some g \<Rightarrow> g | None \<Rightarrow> 1),
     sq_actual_gain = 0, sq_status = Sq_Proposed, sq_results = [], sq_errors = [] \<rparr>"

text \<open>\<open>filter(|result| known_urls.insert(..))\<close>: a result is kept when its URL was not known, and is known from then on.\<close>

fun keep_new :: "url btree_set \<Rightarrow> search_result list \<Rightarrow> search_result list \<times> url btree_set" where
  "keep_new known [] = ([], known)"
| "keep_new known (r # rs) =
     (if sr_canonical_url r \<in> set known then keep_new known rs
      else case keep_new (bs_insert (sr_canonical_url r) known) rs of (ks, known') \<Rightarrow> (r # ks, known'))"

definition subquery_error :: "string \<Rightarrow> string \<Rightarrow> composite_error" where
  "subquery_error code message = \<lparr> ce_code = lit code, ce_message = lit message, ce_providers = [], ce_recoverable = True \<rparr>"

definition conclude_subquery :: "executor_reply \<Rightarrow> url btree_set \<Rightarrow> sub_query \<Rightarrow> sub_query \<times> url btree_set" where
  "conclude_subquery reply known sq =
     (case reply of
        Reply_response expansion \<Rightarrow>
          if rs_status expansion = Search_Failure then (sq\<lparr> sq_errors := rs_errors expansion, sq_status := Sq_Failed \<rparr>, known)
          else (case keep_new known (rs_results expansion) of (results, known') \<Rightarrow>
            (sq\<lparr> sq_errors := rs_errors expansion, sq_results := results, sq_actual_gain := of_nat (length results),
                 sq_status := Sq_Executed \<rparr>, known'))
      | Reply_error \<Rightarrow> (sq\<lparr> sq_status := Sq_Failed, sq_errors := sq_errors sq @ [subquery_error ''subquery_failed'' ''SubQuery execution failed''] \<rparr>, known)
      | Reply_timeout \<Rightarrow> (sq\<lparr> sq_status := Sq_Failed,
          sq_errors := sq_errors sq @ [subquery_error ''subquery_timeout'' ''SubQuery execution exceeded the Deep deadline''] \<rparr>, known))"

definition push_subquery :: "sub_query \<Rightarrow> subquery_state \<Rightarrow> subquery_state" where
  "push_subquery sq ss = ss\<lparr> ss_subqueries := ss_subqueries ss @ [sq] \<rparr>"

definition subquery_step :: "bool \<Rightarrow> subquery_state \<Rightarrow> subquery_env \<times> gap \<Rightarrow> subquery_state" where
  "subquery_step executor ss entry =
     (case entry of (env, proposal) \<Rightarrow>
        let sq = subquery_of proposal
        in case parse_query (sq_raw_query sq) of
             Err _ \<Rightarrow> push_subquery (sq\<lparr> sq_status := Sq_Invalid \<rparr>) ss
           | Ok pq \<Rightarrow>
               if \<not> executor then push_subquery sq ss
               else if se_expired env then
                 push_subquery (sq\<lparr> sq_status := Sq_RejectedBudget \<rparr>) (ss\<lparr> ss_degradations := ss_degradations ss @
                   [deep_degradation ''time_exhausted'' ''SubQuery was rejected because the Deep deadline expired''] \<rparr>)
               else case reserve_subquery (ss_budget ss) (sq_estimated_cost sq) of
                   (Err cause, _) \<Rightarrow>
                     push_subquery (sq\<lparr> sq_status := Sq_RejectedBudget \<rparr>) (ss\<lparr> ss_degradations := ss_degradations ss @
                       [deep_degradation (cause_str cause) ''SubQuery was rejected by Deep Budget''] \<rparr>)
                 | (Ok _, budget) \<Rightarrow>
                     (case conclude_subquery (se_execute env pq) (ss_known_urls ss) sq of (sq, known) \<Rightarrow>
                        push_subquery sq (ss\<lparr> ss_budget := budget, ss_known_urls := known \<rparr>)))"

definition run_subqueries :: "bool \<Rightarrow> (nat \<Rightarrow> subquery_env) \<Rightarrow> gap list \<Rightarrow> subquery_state \<Rightarrow> subquery_state" where
  "run_subqueries executor envs proposals ss =
     foldl (subquery_step executor) ss (zip (map envs [0..<length proposals]) proposals)"

section \<open>The run\<close>

record 't deep_run_env =
  rn_api :: deep_api
  rn_evidence :: "'t evidence_api"
  rn_gaps :: gap_api
  rn_ln :: "f64 \<Rightarrow> f64"
  rn_steps :: "nat \<Rightarrow> deep_step_env"
  rn_subqueries :: "nat \<Rightarrow> subquery_env"
  rn_elapsed_ms :: u64

definition empty_response :: "deep_request \<Rightarrow> deep_response" where
  "empty_response request = \<lparr> dz_schema_version = SCHEMA_VERSION, dz_query = q_raw_query (dv_query request), dz_documents = [],
     dz_errors = [], dz_degradations = [], dz_evidence = [], dz_evidence_v2 = [], dz_ranking_v2 = disabled_output,
     dz_gaps = [], dz_subqueries = [], dz_elapsed_ms = 0 \<rparr>"

definition plan_mismatch :: composite_error where
  "plan_mismatch = \<lparr> ce_code = lit ''deep_plan_query_mismatch'', ce_message = lit ''Deep Query does not match SearchPlan'',
     ce_providers = [], ce_recoverable = False \<rparr>"

definition deep_ranking ::
    "'t deep_run_env \<Rightarrow> deep_orchestrator \<Rightarrow> query \<Rightarrow> deep_state \<Rightarrow> evidence list \<Rightarrow> ranking_v2_output \<times> degradation list" where
  "deep_ranking rn o' q st es =
     (case do_ranking_v2 o' of
        None \<Rightarrow> (disabled_output, [])
      | Some engine \<Rightarrow>
          (case rank_v2 (rn_ln rn) (ea_unicode (rn_evidence rn)) engine q (st_documents st) es (st_ranks st) of
             Ok ranking \<Rightarrow> (ranking, [])
           | Err _ \<Rightarrow> (rejected_output, [deep_degradation ''ranking_v2_failed''
               ''Ranking v2 failed; original Search ranking remains authoritative''])))"

definition deep_subqueries ::
    "'t deep_run_env \<Rightarrow> deep_orchestrator \<Rightarrow> deep_request \<Rightarrow> document list \<Rightarrow> evidence list \<Rightarrow> subquery_state \<Rightarrow> gap list \<times> subquery_state" where
  "deep_subqueries rn o' request ds es ss =
     (case do_gap_analyzer o' of
        None \<Rightarrow> ([], ss)
      | Some p \<Rightarrow>
          (let analysis = gap_analyze (rn_gaps rn) p (dv_query request) (dv_search_plan request) ds es
           in (ga_gaps analysis, run_subqueries (do_executor o') (rn_subqueries rn) (gap_proposals p analysis) ss)))"

text \<open>The result is None when the run panics.\<close>

definition enrich :: "'t deep_run_env \<Rightarrow> deep_request \<Rightarrow> deep_orchestrator \<Rightarrow> (deep_response \<times> deep_orchestrator) option" where
  "enrich rn request o' =
     (let response = empty_response request
      in if q_normalized_query (sp_query (dv_search_plan request)) \<noteq> q_normalized_query (dv_query request)
         then Some (response\<lparr> dz_errors := [plan_mismatch] \<rparr>, o')
         else if dv_candidates request = []
         then Some (response\<lparr> dz_degradations := [deep_degradation ''deep_no_candidates'' ''No SearchResult candidates were available''] \<rparr>, o')
         else let st = crawl_loop (rn_api rn) (do_config o') (rn_steps rn) 0
                    (crawl_start (rn_api rn) (do_config o') (do_budget o') (do_cache o') (do_robots o') (dv_candidates request))
              in case analyze_evidence_bundle (rn_evidence rn) (dv_query request) (st_documents st) of
                   None \<Rightarrow> None
                 | Some (es, vs) \<Rightarrow>
                     (let (ranking, ds) = deep_ranking rn o' (dv_query request) st es;
                          (gaps, ss) = deep_subqueries rn o' request (st_documents st) es
                            \<lparr> ss_budget = st_budget st,
                              ss_known_urls = bs_collect (map (\<lambda>c. sr_canonical_url (dk_result c)) (dv_candidates request)),
                              ss_degradations = st_degradations st @ ds, ss_subqueries = [] \<rparr>
                      in Some (response\<lparr> dz_documents := st_documents st, dz_errors := st_errors st,
                             dz_degradations := ss_degradations ss, dz_evidence := es, dz_evidence_v2 := vs,
                             dz_ranking_v2 := ranking, dz_gaps := gaps, dz_subqueries := ss_subqueries ss,
                             dz_elapsed_ms := rn_elapsed_ms rn \<rparr>,
                           o'\<lparr> do_budget := ss_budget ss, do_cache := st_cache st, do_robots := st_robots st \<rparr>)))"


section \<open>Properties\<close>

text \<open>The follow-up queries that were paid for.\<close>

definition attempted_query :: "sub_query \<Rightarrow> bool" where
  "attempted_query sq \<longleftrightarrow> sq_status sq = Sq_Executed \<or> sq_status sq = Sq_Failed"

abbreviation new_urls :: "sub_query list \<Rightarrow> url list" where
  "new_urls sqs \<equiv> concat (map (\<lambda>sq. map sr_canonical_url (sq_results sq)) sqs)"

lemma keep_new_props:
  "keep_new known rs = (ks, known') \<Longrightarrow>
     set known' = set known \<union> sr_canonical_url ` set ks \<and> distinct (map sr_canonical_url ks) \<and>
     set known \<inter> sr_canonical_url ` set ks = {}"
proof (induction known rs arbitrary: ks known' rule: keep_new.induct)
  case (2 known r rs)
  then show ?case
    by (cases "sr_canonical_url r \<in> set known") (fastforce split: prod.splits)+
qed simp

definition subquery_ok :: "url set \<Rightarrow> deep_budget \<Rightarrow> subquery_state \<Rightarrow> bool" where
  "subquery_ok known0 b0 ss \<longleftrightarrow>
     length (filter attempted_query (ss_subqueries ss)) + unat (remaining_subqueries (db_snapshot (ss_budget ss)))
       = unat (remaining_subqueries (db_snapshot b0)) \<and>
     sum_list (map (unat \<circ> sq_estimated_cost) (filter attempted_query (ss_subqueries ss)))
       + unat (remaining_cost (db_snapshot (ss_budget ss))) = unat (remaining_cost (db_snapshot b0)) \<and>
     known0 \<union> set (new_urls (ss_subqueries ss)) = set (ss_known_urls ss) \<and>
     known0 \<inter> set (new_urls (ss_subqueries ss)) = {} \<and> distinct (new_urls (ss_subqueries ss)) \<and>
     list_all (\<lambda>sq. sq_actual_gain sq = of_nat (length (sq_results sq)) \<and> (sq_status sq = Sq_Executed \<or> sq_results sq = [])) (ss_subqueries ss)"

lemma subquery_of_simps [simp]:
  "sq_status (subquery_of p) = Sq_Proposed" "sq_results (subquery_of p) = []" "sq_actual_gain (subquery_of p) = 0"
  by (simp_all add: subquery_of_def)

lemma conclude_subquery_props:
  assumes "conclude_subquery reply known (subquery_of p) = (sq, known')"
  shows "attempted_query sq \<and> sq_estimated_cost sq = sq_estimated_cost (subquery_of p) \<and>
    set known' = set known \<union> sr_canonical_url ` set (sq_results sq) \<and> distinct (map sr_canonical_url (sq_results sq)) \<and>
    set known \<inter> sr_canonical_url ` set (sq_results sq) = {} \<and> sq_actual_gain sq = of_nat (length (sq_results sq)) \<and>
    (sq_status sq = Sq_Executed \<or> sq_results sq = [])"
  using assms
  by (auto simp: conclude_subquery_def attempted_query_def split: executor_reply.splits if_splits prod.splits dest!: keep_new_props)

lemma reserve_subquery_Ok:
  "reserve_subquery b c = (Ok x, b') \<Longrightarrow>
     Suc (unat (remaining_subqueries (db_snapshot b'))) = unat (remaining_subqueries (db_snapshot b)) \<and>
     unat c + unat (remaining_cost (db_snapshot b')) = unat (remaining_cost (db_snapshot b))"
proof -
  assume r: "reserve_subquery b c = (Ok x, b')"
  show ?thesis
    using charges_subqueries [unfolded charges_def, rule_format, of b "ReserveSubquery c"]
      charges_cost [unfolded charges_def, rule_format, of b "ReserveSubquery c"] r by (simp add: is_ok_def)
qed

lemma known_urls_grow:
  "K' = K \<union> N \<Longrightarrow> K = A \<union> U \<Longrightarrow> A \<inter> U = {} \<Longrightarrow> K \<inter> N = {} \<Longrightarrow> A \<union> (U \<union> N) = K' \<and> A \<inter> (U \<union> N) = {} \<and> U \<inter> N = {}"
  by blast

lemma subquery_step_ok:
  assumes "subquery_ok known0 b0 ss"
  shows "subquery_ok known0 b0 (subquery_step executor ss (env, p))"
proof -
  let ?sq = "subquery_of p"
  have keep: "subquery_ok known0 b0 (push_subquery (?sq\<lparr> sq_status := status \<rparr>) (ss\<lparr> ss_degradations := ds \<rparr>))"
    if "status \<in> {Sq_Invalid, Sq_RejectedBudget, Sq_Proposed}" for status ds
    using that assms by (auto simp: subquery_ok_def push_subquery_def attempted_query_def)
  have keep': "subquery_ok known0 b0 (push_subquery (?sq\<lparr> sq_status := status \<rparr>) ss)"
    if "status \<in> {Sq_Invalid, Sq_Proposed}" for status
    using that assms by (auto simp: subquery_ok_def push_subquery_def attempted_query_def)
  have same: "?sq\<lparr> sq_status := Sq_Proposed \<rparr> = ?sq" by (simp add: subquery_of_def)
  obtain r b where r: "reserve_subquery (ss_budget ss) (sq_estimated_cost ?sq) = (r, b)" by fastforce
  consider e where "parse_query (sq_raw_query ?sq) = Err e" | q where "parse_query (sq_raw_query ?sq) = Ok q" "\<not> executor"
    | q where "parse_query (sq_raw_query ?sq) = Ok q" "executor" "se_expired env"
    | q cause where "parse_query (sq_raw_query ?sq) = Ok q" "executor" "\<not> se_expired env" "r = Err cause"
    | q where "parse_query (sq_raw_query ?sq) = Ok q" "executor" "\<not> se_expired env" "r = Ok ()"
    by (cases "parse_query (sq_raw_query ?sq)"; cases r) auto
  then show ?thesis
  proof cases
    case 1
    then show ?thesis using keep' [of Sq_Invalid] by (simp add: subquery_step_def Let_def)
  next
    case 2
    then show ?thesis using keep' [of Sq_Proposed] same by (simp add: subquery_step_def Let_def)
  next
    case 3
    then show ?thesis using keep [of Sq_RejectedBudget] by (simp add: subquery_step_def Let_def)
  next
    case 4
    then show ?thesis using keep [of Sq_RejectedBudget] r by (simp add: subquery_step_def Let_def)
  next
    case 5
    obtain sq known where c: "conclude_subquery (se_execute env q) (ss_known_urls ss) ?sq = (sq, known)" by fastforce
    have step: "subquery_step executor ss (env, p) = push_subquery sq (ss\<lparr> ss_budget := b, ss_known_urls := known \<rparr>)"
      using 5 r c by (simp add: subquery_step_def Let_def)
    note sq = conclude_subquery_props [OF c]
    have urls: "new_urls (ss_subqueries ss @ [sq]) = new_urls (ss_subqueries ss) @ map sr_canonical_url (sq_results sq)" by simp
    have known: "set (ss_known_urls ss) = known0 \<union> set (new_urls (ss_subqueries ss))" "known0 \<inter> set (new_urls (ss_subqueries ss)) = {}"
      "distinct (new_urls (ss_subqueries ss))"
      using assms by (simp_all only: subquery_ok_def)
    have "known0 \<union> set (new_urls (ss_subqueries ss @ [sq])) = set known \<and> known0 \<inter> set (new_urls (ss_subqueries ss @ [sq])) = {}
        \<and> distinct (new_urls (ss_subqueries ss @ [sq]))"
      using known_urls_grow [OF _ known(1,2), of "set known" "sr_canonical_url ` set (sq_results sq)"] sq known(3)
      unfolding urls set_append distinct_append set_map by (simp only: simp_thms)
    moreover have cost: "sum_list (map f (xs @ [x])) = sum_list (map f xs) + f x" for f :: "sub_query \<Rightarrow> nat" and xs x by simp
    ultimately show ?thesis
      using sq reserve_subquery_Ok [OF r [unfolded 5]] assms
      unfolding step subquery_ok_def push_subquery_def
      by (simp add: cost del: concat_append map_append set_concat)
  qed
qed


lemma run_subqueries_ok:
  assumes "set (ss_known_urls ss) = known0" "ss_subqueries ss = []"
  shows "subquery_ok known0 (ss_budget ss) (run_subqueries executor envs proposals ss)"
    and "length (ss_subqueries (run_subqueries executor envs proposals ss)) = length proposals"
proof -
  have start: "subquery_ok known0 (ss_budget ss) ss" using assms by (simp add: subquery_ok_def)
  have "subquery_ok known0 b0 s \<Longrightarrow> subquery_ok known0 b0 (foldl (subquery_step executor) s es)" for b0 s es
    by (induction es arbitrary: s) (auto simp: subquery_step_ok)
  with start show "subquery_ok known0 (ss_budget ss) (run_subqueries executor envs proposals ss)"
    by (simp add: run_subqueries_def)
  have "length (ss_subqueries (subquery_step executor s e)) = Suc (length (ss_subqueries s))" for s e
    by (simp add: subquery_step_def push_subquery_def Let_def split: prod.split sum.split)
  then have "length (ss_subqueries (foldl (subquery_step executor) s es)) = length (ss_subqueries s) + length es" for s es
    by (induction es arbitrary: s) simp_all
  then show "length (ss_subqueries (run_subqueries executor envs proposals ss)) = length proposals"
    using assms(2) by (simp add: run_subqueries_def)
qed

text \<open>
  C14. Follow-up queries are paid for and bring only news. Whatever the executor answers and whenever the deadline
  strikes, every proposal is reported once; the queries that were run and what remains of the number and cost
  budgets add up to what was there; the results reported over all of them have distinct URLs, none of them known
  before; each query's gain is the number of its results, and a query that was not executed has none.
\<close>

theorem subqueries_contract:
  "case run_subqueries executor envs proposals \<lparr> ss_budget = budget, ss_known_urls = known, ss_degradations = ds, ss_subqueries = [] \<rparr> of ss \<Rightarrow>
     length (ss_subqueries ss) = length proposals \<and>
     length (filter attempted_query (ss_subqueries ss)) + unat (remaining_subqueries (db_snapshot (ss_budget ss)))
       = unat (remaining_subqueries (db_snapshot budget)) \<and>
     sum_list (map (unat \<circ> sq_estimated_cost) (filter attempted_query (ss_subqueries ss)))
       + unat (remaining_cost (db_snapshot (ss_budget ss))) = unat (remaining_cost (db_snapshot budget)) \<and>
     distinct (new_urls (ss_subqueries ss)) \<and> set known \<inter> set (new_urls (ss_subqueries ss)) = {} \<and>
     list_all (\<lambda>sq. sq_actual_gain sq = of_nat (length (sq_results sq)) \<and> (sq_status sq = Sq_Executed \<or> sq_results sq = [])) (ss_subqueries ss)"
  using run_subqueries_ok [of "\<lparr> ss_budget = budget, ss_known_urls = known, ss_degradations = ds, ss_subqueries = [] \<rparr>" "set known" executor envs proposals]
  by (simp add: subquery_ok_def del: set_concat set_map)

lemma deep_subqueries_ok:
  assumes "deep_subqueries rn o' request docs es ss = (gaps, ss')" "ss_subqueries ss = []"
  shows "subquery_ok (set (ss_known_urls ss)) (ss_budget ss) ss'"
    and "length (ss_subqueries ss') \<le> (case do_gap_analyzer o' of None \<Rightarrow> 0 | Some p \<Rightarrow> unat (gq_max_subqueries p))"
proof -
  note run = run_subqueries_ok [OF refl assms(2)]
  have "subquery_ok (set (ss_known_urls ss)) (ss_budget ss) ss" using assms(2) by (simp add: subquery_ok_def)
  then show "subquery_ok (set (ss_known_urls ss)) (ss_budget ss) ss'"
    using assms run(1) by (auto simp: deep_subqueries_def Let_def split: option.splits)
  show "length (ss_subqueries ss') \<le> (case do_gap_analyzer o' of None \<Rightarrow> 0 | Some p \<Rightarrow> unat (gq_max_subqueries p))"
    using assms run(2) by (auto simp: deep_subqueries_def Let_def gap_proposals_def split: option.splits)
qed

text \<open>The crawl leaves the budget of follow-up queries alone.\<close>

definition subqueries_left :: "deep_budget \<Rightarrow> u32" where
  "subqueries_left b = remaining_subqueries (db_snapshot b)"

lemma subqueries_left_ops:
  "reserve_fetch b = (r, b') \<Longrightarrow> subqueries_left b' = subqueries_left b"
  "consume_fetch b n m = (c, b') \<Longrightarrow> subqueries_left b' = subqueries_left b"
  "reserve_browser b = (w, b') \<Longrightarrow> subqueries_left b' = subqueries_left b"
  "subqueries_left (release_fetch b) = subqueries_left b" "subqueries_left (release_browser b) = subqueries_left b"
  by (auto simp: subqueries_left_def deep_budget_ops Let_def split: if_splits)

lemma extract_page_subqueries:
  "extract_page dx dg sv fetched st = (page, st') \<Longrightarrow> subqueries_left (st_budget st') = subqueries_left (st_budget st)"
  by (auto simp: extract_page_def Let_def subqueries_left_ops split: if_splits prod.splits sum.splits dest!: subqueries_left_ops(2,3))

lemma store_page_budget [simp]: "st_budget (store_page dg sv candidate d st) = st_budget st"
  by (simp add: store_page_def Let_def split: option.split prod.split)

lemma enqueue_links_budget [simp]: "st_budget (foldl (enqueue_link dx candidate depth) st links) = st_budget st"
  by (induction links arbitrary: st) (simp_all add: enqueue_link_def Let_def)

lemma new_page_subqueries: "subqueries_left (st_budget (new_page dx dg sv candidate depth fetched st)) = subqueries_left (st_budget st)"
proof -
  obtain page st1 where page: "extract_page dx dg sv fetched st = (page, st1)" by fastforce
  show ?thesis
    using extract_page_subqueries [OF page] by (simp add: new_page_def page Let_def split: sum.split)
qed

lemma fetched_page_subqueries:
  "subqueries_left (st_budget (fetched_page dx dg sv candidate depth revalidation fetched st)) = subqueries_left (st_budget st)"
proof -
  have "st_budget st2 = st_budget st1" if "cached_page dx dg sv candidate fetched st1 = (d, st2)" for st1 st2 d
    using that by (auto simp: cached_page_def Let_def split: option.splits prod.splits)
  then show ?thesis
    by (auto simp: fetched_page_def Let_def new_page_subqueries dest!: subqueries_left_ops(2) split: prod.split sum.split option.split)
qed

lemma deep_step_subqueries:
  "case deep_step dx dg sv entry st of Continue st' \<Rightarrow> subqueries_left (st_budget st') = subqueries_left (st_budget st)
    | Break st' \<Rightarrow> subqueries_left (st_budget st') = subqueries_left (st_budget st)"
proof -
  obtain candidate depth where entry: "entry = (candidate, depth)" by fastforce
  obtain go decision st1 where gate: "robots_gate dx sv candidate depth st = (go, decision, st1)" by (metis prod.exhaust)
  have b: "st_budget st1 = st_budget st" using robots_gate_frame [OF gate] by simp
  obtain r budget where r: "reserve_fetch (st_budget st) = (r, budget)" by fastforce
  note left = subqueries_left_ops(1) [OF r]
  show ?thesis
  proof (cases "sv_expired sv \<or> \<not> go \<or> \<not> is_ok r")
    case True
    then show ?thesis using gate b r by (cases r; cases go) (auto simp: deep_step_def entry is_ok_def)
  next
    case False
    obtain revalidation st2 where latest: "latest_document dg sv candidate (st1\<lparr> st_budget := budget \<rparr>) = (revalidation, st2)"
      by fastforce
    have "st_budget st2 = budget" using latest_document_frame [OF latest] by auto
    then show ?thesis
      using False gate b r left latest
      by (cases r) (auto simp: deep_step_def entry is_ok_def Let_def fetched_page_subqueries subqueries_left_ops split: sum.split)
  qed
qed

lemma crawl_loop_subqueries: "subqueries_left (st_budget (crawl_loop dx dg env i st)) = subqueries_left (st_budget st)"
proof (induction dx dg env i st rule: crawl_loop.induct)
  case (1 dx dg env i st)
  show ?case
  proof (cases "st_queue st")
    case (Cons entry rest)
    then show ?thesis
      using "1.IH" [OF Cons] deep_step_subqueries [where dx = dx and dg = dg and sv = "env i" and entry = entry and st = "st\<lparr> st_queue := rest \<rparr>"]
      by (subst crawl_loop.simps) (simp split: deep_control.splits)
  qed (simp add: crawl_loop.simps)
qed

lemma evidence_bundle_ids:
  assumes "analyze_evidence_bundle ea q ds = Some (es, vs)"
  shows "map ev_document_id es = map dc_search_result_id ds \<and> map e2_document_id vs = map dc_search_result_id ds"
proof -
  have es: "es = map (\<lambda>d. analyze_document ea d (of_nat (length (filter (\<lambda>x. dc_content_hash x = dc_content_hash d) ds)))) ds"
    and vs: "map_panic (evidence_v2_of ea (tokens (ea_unicode ea) (q_normalized_query q))) (zip ds es) = Some vs"
    using assms by (auto simp: analyze_evidence_bundle_def analyze_evidence_bundle_optional_def analyze_evidence_Some
      build_evidence_v2_def Let_def split: option.splits)
  have id: "e2_document_id v = dc_search_result_id d" if "evidence_v2_of ea qt (d, e) = Some v" for d e v qt
    using that by (auto simp: evidence_v2_of_def Let_def split: option.splits)
  have "map_panic (evidence_v2_of ea qt) xs = Some vs \<Longrightarrow> map e2_document_id vs = map (dc_search_result_id \<circ> fst) xs" for qt xs
    using id by (induction xs arbitrary: vs) (auto split: option.splits)
  from this [OF vs] have "map e2_document_id vs = map dc_search_result_id (map fst (zip ds es))" by simp
  moreover have "map fst (zip ds es) = ds" "map ev_document_id es = map dc_search_result_id ds"
    by (simp_all add: es analyze_document_facts)
  ultimately show ?thesis by simp
qed

text \<open>
  C13. A Deep run returns, whatever its environment does, unless a page holds \<open>2^64\<close> bytes of content. Its evidence
  lists run parallel to its documents; it has at most as many documents as fetches were granted, and its
  follow-up queries are within the analyser's limit and the budget and repeat neither a candidate nor each other.
\<close>

theorem enrich_contract:
  "case enrich rn request o' of
     None \<Rightarrow> list_ex (\<lambda>d. case dc_content d of None \<Rightarrow> False | Some c \<Rightarrow> 2 ^ 64 \<le> byte_len c)
       (st_documents (crawl_loop (rn_api rn) (do_config o') (rn_steps rn) 0
          (crawl_start (rn_api rn) (do_config o') (do_budget o') (do_cache o') (do_robots o') (dv_candidates request))))
   | Some (response, o'') \<Rightarrow>
       map ev_document_id (dz_evidence response) = map dc_search_result_id (dz_documents response) \<and>
       map e2_document_id (dz_evidence_v2 response) = map dc_search_result_id (dz_documents response) \<and>
       length (dz_documents response) \<le> unat (remaining_fetches (db_snapshot (do_budget o'))) \<and>
       length (dz_subqueries response) \<le> (case do_gap_analyzer o' of None \<Rightarrow> 0 | Some p \<Rightarrow> unat (gq_max_subqueries p)) \<and>
       length (filter attempted_query (dz_subqueries response)) \<le> unat (remaining_subqueries (db_snapshot (do_budget o'))) \<and>
       distinct (new_urls (dz_subqueries response)) \<and>
       set (map (sr_canonical_url \<circ> dk_result) (dv_candidates request)) \<inter> set (new_urls (dz_subqueries response)) = {}"
proof -
  let ?start = "crawl_start (rn_api rn) (do_config o') (do_budget o') (do_cache o') (do_robots o') (dv_candidates request)"
  let ?st = "crawl_loop (rn_api rn) (do_config o') (rn_steps rn) 0 ?start"
  have docs: "length (st_documents ?st) \<le> unat (remaining_fetches (db_snapshot (do_budget o')))"
    using crawl_run_ok [of "do_config o'" "rn_api rn" "do_budget o'" "do_cache o'" "do_robots o'" "dv_candidates request" "rn_steps rn" 0]
    by (simp add: crawl_ok_def crawl_start_simps fetches_left_def)
  have left: "subqueries_left (st_budget ?st) = subqueries_left (do_budget o')"
    by (simp add: crawl_loop_subqueries crawl_start_simps)
  consider "enrich rn request o' = Some ((empty_response request)\<lparr> dz_errors := [plan_mismatch] \<rparr>, o')"
    | "enrich rn request o' = Some ((empty_response request)\<lparr> dz_degradations :=
        [deep_degradation ''deep_no_candidates'' ''No SearchResult candidates were available''] \<rparr>, o')"
    | "q_normalized_query (sp_query (dv_search_plan request)) = q_normalized_query (dv_query request)" "dv_candidates request \<noteq> []"
    by (simp add: enrich_def Let_def) meson
  then show ?thesis
  proof cases
    case 3
    show ?thesis
    proof (cases "analyze_evidence_bundle (rn_evidence rn) (dv_query request) (st_documents ?st)")
      case None
      then have "\<not> list_all (\<lambda>d. case dc_content d of None \<Rightarrow> True | Some c \<Rightarrow> byte_len c < 2 ^ 64) (st_documents ?st)"
        by (metis evidence_bundle_total option.distinct(1))
      then have "list_ex (\<lambda>d. case dc_content d of None \<Rightarrow> False | Some c \<Rightarrow> 2 ^ 64 \<le> byte_len c) (st_documents ?st)"
        by (auto simp: list_all_iff list_ex_iff not_less split: option.splits)
      moreover have "enrich rn request o' = None" using 3 None by (simp add: enrich_def Let_def)
      ultimately show ?thesis by simp
    next
      case (Some pair)
      then obtain es vs where ev: "analyze_evidence_bundle (rn_evidence rn) (dv_query request) (st_documents ?st) = Some (es, vs)"
        by (cases pair) simp
      note ids = evidence_bundle_ids [OF ev]
      obtain ranking ds where rank: "deep_ranking rn o' (dv_query request) ?st es = (ranking, ds)" by fastforce
      define ss0 where "ss0 = \<lparr> ss_budget = st_budget ?st,
          ss_known_urls = bs_collect (map (\<lambda>c. sr_canonical_url (dk_result c)) (dv_candidates request)),
          ss_degradations = st_degradations ?st @ ds, ss_subqueries = [] \<rparr>"
      obtain gaps ss where sub: "deep_subqueries rn o' request (st_documents ?st) es ss0 = (gaps, ss)" by fastforce
      obtain response o'' where out: "enrich rn request o' = Some (response, o'')" "dz_documents response = st_documents ?st"
          "dz_evidence response = es" "dz_evidence_v2 response = vs" "dz_subqueries response = ss_subqueries ss"
        using 3 ev rank sub [unfolded ss0_def] by (simp add: enrich_def Let_def)
      have ok: "subquery_ok (set (ss_known_urls ss0)) (ss_budget ss0) ss"
          "length (ss_subqueries ss) \<le> (case do_gap_analyzer o' of None \<Rightarrow> 0 | Some p \<Rightarrow> unat (gq_max_subqueries p))"
        using deep_subqueries_ok [OF sub] by (simp_all add: ss0_def)
      have "length (filter attempted_query (ss_subqueries ss)) \<le> unat (subqueries_left (do_budget o'))"
        using ok(1) left [symmetric] by (simp add: ss0_def subquery_ok_def subqueries_left_def)
      then show ?thesis
        using out ids docs ok by (simp add: ss0_def subquery_ok_def subqueries_left_def comp_def del: set_concat)
    qed
  qed (simp_all add: empty_response_def)
qed

end
