(* ===== verification/Spec2Isabelle.thy ===== *)
theory Spec2Isabelle
  imports Budget Errors Circuit Security Query_Parse Planning Text Canonical Dedupe Normalize Classify
    Ranking Diversity Optics Progressive Telemetry Router Complementarity Relevance Search_Facts
    Cache_Store Cache Robots Fetch Evidence Gaps Crawl Ranking_V2 Deep
begin

text \<open>
  Verification of AMATL, a local meta-search service in Rust (\<^verbatim>\<open>src/crates/amatl-core\<close>).

  \<^bold>\<open>The program.\<close> A query is parsed (\<^verbatim>\<open>query.rs\<close>), classified (\<^verbatim>\<open>classify.rs\<close>) and routed to search providers by
  their telemetry and roles (\<^verbatim>\<open>router.rs\<close>, \<^verbatim>\<open>telemetry.rs\<close>). The orchestrator (\<^verbatim>\<open>execution.rs\<close>) plans rounds
  against a budget (\<^verbatim>\<open>planning.rs\<close>, \<^verbatim>\<open>budget.rs\<close>), calls the providers in parallel with retries, and passes
  what they return through normalisation, canonicalisation, deduplication, ranking, operator rules and
  diversity (\<^verbatim>\<open>normalize.rs\<close> to \<^verbatim>\<open>diversity.rs\<close>); after each round the policy of \<^verbatim>\<open>progressive.rs\<close> decides
  whether another provider is worth a call. The response is judged for overlap of the provider roles and for
  relevance (\<^verbatim>\<open>complementarity.rs\<close>, \<^verbatim>\<open>relevance.rs\<close>). A circuit breaker (\<^verbatim>\<open>circuit.rs\<close>) guards the
  providers; every URL passes \<^verbatim>\<open>security.rs\<close>. A Deep run fetches results (\<^verbatim>\<open>fetch.rs\<close>, \<^verbatim>\<open>robots.rs\<close>) through caches
  (\<^verbatim>\<open>cache.rs\<close>, \<^verbatim>\<open>document_cache.rs\<close>, \<^verbatim>\<open>storage.rs\<close>), rates their evidence (\<^verbatim>\<open>evidence.rs\<close>) and proposes follow-up queries
  (\<^verbatim>\<open>gaps.rs\<close>), ranks the documents (\<^verbatim>\<open>ranking_v2.rs\<close>) and runs the follow-up queries (\<^verbatim>\<open>deep.rs\<close>).

  \<^bold>\<open>Theories.\<close> One per component, in the order of the data flow:
  \<^item> \<open>Prelude\<close> (Rust integers, strings as code-point lists, results), \<open>BTree\<close> (ordered maps and sets, with the
    interface locale \<open>ordered_map\<close>), \<open>Ordering\<close> (comparators and stable sort, locale \<open>total_comparator\<close>),
    \<open>Float64\<close> and \<open>Float_Mean\<close> (binary64 as rounded rationals; weighted means stay within bounds),
    \<open>Model\<close> (the records and enums of \<^verbatim>\<open>model.rs\<close>).
  \<^item> \<open>Budget\<close>, \<open>Planning\<close>: search and Deep budgets, reservations, plans. Shown: exact accounting over every
    interleaving of calls, capacity, plans within the budget.
  \<^item> \<open>Errors\<close>, \<open>Circuit\<close>, \<open>Security\<close>, \<open>Query_Parse\<close>, \<open>Text\<close>: wire codes round-trip; the breaker refines its
    history specification and survives a restart; an accepted URL or resolved address meets the
    documented block lists; the parser's filters are normal forms; folding and tokens.
  \<^item> \<open>Normalize\<close>, \<open>Canonical\<close>, \<open>Dedupe\<close>, \<open>Classify\<close>, \<open>Ranking\<close>, \<open>Optics\<close>, \<open>Diversity\<close>: the stages of the pipeline, each
    with what it keeps, adds and orders; ranking is sorted and deterministic, pattern matching is glob
    semantics, caps hold up to recorded overrides, canonicalisation is idempotent.
  \<^item> \<open>Progressive\<close>, \<open>Telemetry\<close>, \<open>Router\<close>: coverage is monotone, telemetry rates stay probabilities over every
    history and survive a restart, roles dominate scores in the order of providers.
  \<^item> \<open>Complementarity\<close>, \<open>Relevance_Semantics\<close>, \<open>Relevance\<close>: counts partition the results; a relevant verdict rests on text.
  \<^item> \<open>Fanout\<close>: \<open>execute_parallel\<close> and the retry loop. \<open>Execution\<close>: pipeline, decision, progressive loop, response.
    \<open>Search_Facts\<close>: the loop rule and the invariants of a round. The properties of a whole search are in
    this theory.

  \<^item> \<open>Cache_Store\<close> (the cache tables of \<^verbatim>\<open>storage.rs\<close>, with the locale \<open>cache_history\<close>), \<open>Document_Model\<close>, \<open>Cache\<close>: eviction is
    least recently used within both limits, a hit is the last store within its time, content is not persisted
    unless the policy says so.
  \<^item> \<open>Std_Text\<close> (lines, lossy UTF-8, number parsing of the standard library), \<open>Robots\<close>, \<open>Fetch\<close>: longest match decides,
    the robots cache is bounded and faithful, the fetcher contacts vetted URLs at public addresses only.
  \<^item> \<open>Fragments\<close> (byte ranges of \<^verbatim>\<open>evidence.rs\<close>), \<open>Evidence\<close>, \<open>Gaps\<close>: fragments quote the content exactly, evidence runs
    parallel to the documents, follow-up queries are bounded and ordered.
  \<^item> \<open>Crawl\<close>, \<open>Ranking_V2\<close>, \<open>Deep\<close>: the crawl loop of \<^verbatim>\<open>deep.rs\<close> with its environment per iteration, the Deep ranking and the
    whole run \<open>enrich\<close>. The crawl ends, is polite and within its limits; the run is total, and its follow-up
    queries are paid for and bring only new results.

  \<^bold>\<open>State and effects.\<close> Structs are records with a prefix per type, enums are datatypes, \<open>Result\<close> is a sum with
  \<open>Err\<close> and \<open>Ok\<close>, \<open>BTreeMap\<close> is a sorted association list, machine integers keep their width where the code
  computes with them. Operations on \<open>&mut self\<close> return the changed record. What the code reads from the outside
  is an argument: clocks, storage outcomes, provider answers, permits, the order in which tasks are
  joined. A panic that the code can reach is the value None (operator multipliers that overflow, a
  provider that panics).

  \<^bold>\<open>Parameters.\<close> The url, time and unicode crates and \<open>powf\<close> are records of functions (\<open>url_api\<close>, \<open>time_api\<close>,
  \<open>unicode\<close>); where a property needs a law of them it is a named hypothesis with a concrete instance in the
  witness.

  \<^bold>\<open>Loops.\<close> There is no fuel: entity decoding, retry, progressive search, cache eviction, redirects, byte-range
  splitting, the crawl and the suffix loops are total functions with a measure (bytes left, retries left,
  providers not yet attempted, rows left, redirects left, fetches left and then the queue).

  \<^bold>\<open>Not modelled.\<close> HTTP transport, the provider adapters, the server and its routes, the CLI and the UI are input and
  output around the core; rendering, HTML extraction and inference call external processes and models;
  migrations and file checks of the storage are operating-system calls; the rule language of Optics is read
  by a parser-combinator library. Configuration loading, the service facade, ingestion, answers, audit and the
  experimental embeddings are left for later. Log lines and poisoned locks have no effect on results.
\<close>

section \<open>The search as a whole\<close>

text \<open>
  C1. A search returns: whatever the providers do and the clocks read, with providers of distinct names and
  an operator document whose multipliers are finite, the loop ends with a response after at most one
  round per provider (one in all when there is none), and of the rounds it traced the last one alone
  has a stop reason.
\<close>

theorem search_returns:
  assumes "tame_optics pf (os_optics os)" "distinct (map po_name providers)"
  shows "\<exists>resp os' reason. search pf sv q providers os = Some (resp, os')
    \<and> length (os_routing_trace os') \<le> max 1 (length providers)
    \<and> map rt_stop_reason (os_routing_trace os') = replicate (length (os_routing_trace os') - 1) None @ [Some reason]"
proof -
  define job where "job = search_job_of pf sv q providers os"
  define s0 where "s0 = job_start pf sv q providers os"
  note start = start_ok [where pf = pf and sv = sv and q = q and providers = providers and os = os]
  have "search_loop pf sv job s0 \<noteq> None"
  proof (rule search_loop_total [where I = "\<lambda>s. tame_optics pf (os_optics (ss_orchestrator s))"])
    show "tame_optics pf (os_optics (ss_orchestrator s0))" using assms(1) by (simp add: s0_def search_start_def)
  qed (simp_all add: search_round_total search_round_effect(3))
  then obtain s reason where run: "search_loop pf sv job s0 = Some (s, reason)" by auto
  have bound: "card (set (ordered_of job)) \<le> length providers"
    using card_mono [OF _ ordered_of_job(1) [where pf = pf and sv = sv and q = q and providers = providers and os = os]] card_image_le [of "set providers" po_name]
      card_length [of providers] by (simp add: job_def)
  have "map rt_stop_reason (os_routing_trace (ss_orchestrator s))
        = replicate (length (os_routing_trace (ss_orchestrator s)) - 1) None @ [Some reason]
      \<and> length (os_routing_trace (ss_orchestrator s)) \<le> max 1 (card (set (ordered_of job)))"
  proof (rule search_loop_rule [OF run, where I = "\<lambda>s. rounds_ok job s \<and> choice_ok job s"])
    show "rounds_ok job s0 \<and> choice_ok job s0" using start(1,4) assms(2) by (simp add: s0_def job_def)
    fix s s' r
    assume I: "rounds_ok job s \<and> choice_ok job s"
    show "rounds_ok job s' \<and> choice_ok job s'" if "search_round pf sv job s = Some (s', None)"
      using I that rounds_ok_round choice_ok_round by blast
    show "map rt_stop_reason (os_routing_trace (ss_orchestrator s'))
          = replicate (length (os_routing_trace (ss_orchestrator s')) - 1) None @ [Some r]
        \<and> length (os_routing_trace (ss_orchestrator s')) \<le> max 1 (card (set (ordered_of job)))"
      if "search_round pf sv job s = Some (s', Some r)"
      using I rounds_ok_stop [OF _ that] by (simp del: One_nat_def)
  qed
  with run bound show ?thesis by (auto simp: search_def Let_def finish_search_def s0_def job_def)
qed

text \<open>
  C2. The accounting of a search: no provider is called twice and only given ones are called, every call
  costs one unit of the call budget, and the response lists each called provider exactly once, as used
  or as failed.
\<close>

theorem search_accounting:
  assumes "search pf sv q providers os = Some (resp, os')" "distinct (map po_name providers)"
    and "\<forall>k. joins_all (re_parallel (sv_round sv k))"
  shows "distinct (called os') \<and> set (called os') \<subseteq> po_name ` set providers
    \<and> length (called os') + unat (remaining_provider_calls (os_budget os')) = unat (remaining_provider_calls (os_budget os))
    \<and> mset (rs_providers_used resp @ rs_providers_failed resp) = mset (called os')"
proof -
  define job where "job = search_job_of pf sv q providers os"
  define n where "n = unat (remaining_provider_calls (os_budget os))"
  obtain s reason where run: "search_loop pf sv job (job_start pf sv q providers os) = Some (s, reason)"
    and resp: "resp = fst (finish_search pf sv q (search_degradations os (sj_adaptive job) providers) s reason)"
    and os': "os_routing_trace os' = os_routing_trace (ss_orchestrator s)" "os_budget os' = os_budget (ss_orchestrator s)"
    using assms(1) unfolding job_def by (rule search_unfold)
  have "calls_ok job n s \<and> reported_ok s"
  proof (rule search_loop_rule [OF run, where I = "\<lambda>s. calls_ok job n s \<and> choice_ok job s \<and> reported_ok s"])
    show "calls_ok job n (job_start pf sv q providers os) \<and> choice_ok job (job_start pf sv q providers os)
        \<and> reported_ok (job_start pf sv q providers os)"
      using start_ok(2-4) [where pf = pf and sv = sv and q = q and providers = providers and os = os] assms(2)
      by (simp add: job_def n_def)
    fix s s' r
    assume I: "calls_ok job n s \<and> choice_ok job s \<and> reported_ok s"
    show "calls_ok job n s' \<and> choice_ok job s' \<and> reported_ok s'" if "search_round pf sv job s = Some (s', None)"
      using I that assms(3) calls_ok_round choice_ok_round reported_ok_round by blast
    show "calls_ok job n s' \<and> reported_ok s'" if "search_round pf sv job s = Some (s', Some r)"
      using I that assms(3) calls_ok_round reported_ok_round by blast
  qed
  moreover have "called os' = called (ss_orchestrator s)" by (simp add: called_def os')
  ultimately show ?thesis
    using ordered_of_job(1) [where pf = pf and sv = sv and q = q and providers = providers and os = os]
    by (auto simp: resp finish_search_def Let_def calls_ok_def reported_ok_def os' n_def job_def)
qed


text \<open>
  C38. The status of a response is determined by what it shows: failure means no result and comes with an
  error that says why; success means results without any degradation, failed or partial provider; all
  else is partial success. Every unavailable provider is reported as a degradation.
\<close>

theorem search_response_status:
  assumes "search pf sv q providers os = Some (resp, os')"
  shows "(case rs_status resp of
       Search_Failure \<Rightarrow> rs_results resp = [] \<and> rs_errors resp \<noteq> []
     | Search_Success \<Rightarrow> rs_results resp \<noteq> [] \<and> rs_degradations resp = [] \<and> rs_providers_failed resp = []
         \<and> rs_providers_partial resp = []
     | Search_PartialSuccess \<Rightarrow> rs_results resp \<noteq> []
         \<and> (rs_degradations resp \<noteq> [] \<or> rs_providers_failed resp \<noteq> [] \<or> rs_providers_partial resp \<noteq> []))
    \<and> set (List.map_filter availability_degradation providers) \<subseteq> set (rs_degradations resp)"
proof -
  obtain s reason where
    resp: "resp = fst (finish_search pf sv q (search_degradations os (sj_adaptive (search_job_of pf sv q providers os)) providers) s reason)"
    using assms by (rule search_unfold)
  show ?thesis
    unfolding resp finish_search_def Let_def
    by (auto simp: final_status_def final_errors_def final_degradations_def search_degradations_def Let_def simp del: lit_simps)
qed

section \<open>A concrete search\<close>

text \<open>Two providers of one fresh orchestrator: the first answers with an empty result, the second panics.\<close>

definition sample_platform :: "int platform" where
  "sample_platform = \<lparr> pf_powf = (\<lambda>a b. a), pf_unicode = ascii_unicode, pf_time = no_time, pf_url = sample_api,
     pf_url_path = (\<lambda>_. []), pf_trackers = [] \<rparr>"

definition sample_search_env :: search_env where
  "sample_search_env = \<lparr> sv_now = 0, sv_round = (\<lambda>_. \<lparr> re_clock = [], re_elapsed_at_plan = 0, re_parallel = sample_parallel_env,
     re_elapsed_at_decision = 0 \<rparr>), sv_elapsed_ms = 20, sv_store = (\<lambda>_. (True, True)) \<rparr>"

definition sample_providers :: "provider list" where
  "sample_providers = map (\<lambda>n. \<lparr> po_name = n, po_capabilities = sample_caps, po_availability = Av_Available \<rparr>) [lit ''p'', lit ''q'']"

definition sample_orchestrator :: orchestrator where
  "sample_orchestrator = orchestrator_new (budget_new 4 1000) 500"

abbreviation sample_search :: "(search_response \<times> orchestrator) option" where
  "sample_search \<equiv> search sample_platform sample_search_env sample_query sample_providers sample_orchestrator"

lemma sample_names: "distinct (map po_name sample_providers)"
  by (simp add: sample_providers_def)

lemma sample_tame: "tame_optics sample_platform (os_optics sample_orchestrator)"
  by (simp add: sample_orchestrator_def orchestrator_new_def)

lemma sample_joins: "joins_all (re_parallel (sv_round sample_search_env k))"
  by (simp add: sample_search_env_def joins_all_def sample_parallel_env_def)

text \<open>The search returns, as the loop is total and the platform has no operator document.\<close>

lemma sample_search_Some: "sample_search \<noteq> None"
proof -
  have "search_loop sample_platform sample_search_env job s \<noteq> None"
    if "tame_optics sample_platform (os_optics (ss_orchestrator s))" for job s
    using that by (rule search_loop_total) (simp_all add: search_round_total search_round_effect(3))
  then show ?thesis using sample_tame by (simp add: search_def Let_def search_start_def)
qed

theorem search_returns_witness:
  "\<exists>resp os'. sample_search = Some (resp, os') \<and> length (os_routing_trace os') \<le> 2"
  using search_returns [OF sample_tame sample_names, of sample_search_env sample_query]
  by (auto simp: sample_providers_def max_def)

theorem search_accounting_witness:
  "case sample_search of None \<Rightarrow> False
   | Some (resp, os') \<Rightarrow> length (called os') + unat (remaining_provider_calls (os_budget os')) = 4
       \<and> mset (rs_providers_used resp @ rs_providers_failed resp) = mset (called os')"
  using sample_search_Some search_accounting [OF _ sample_names, of sample_platform sample_search_env sample_query sample_orchestrator]
  by (auto simp: sample_joins sample_orchestrator_def orchestrator_new_def budget_new_def split: option.splits)


theorem search_response_status_witness:
  "case sample_search of None \<Rightarrow> False
   | Some (resp, os') \<Rightarrow> (rs_status resp = Search_Failure) = (rs_results resp = [])"
  using sample_search_Some search_response_status [of sample_platform sample_search_env sample_query sample_providers sample_orchestrator]
  by (auto split: option.splits SearchStatus.splits)

end
